(* ===== verification/C4D_Prelude.thy ===== *)
theory C4D_Prelude
  imports Complex_Main "HOL-Library.AList"
begin

text \<open>
  What the Python programs share: the exceptions they raise, the outcome of a method that may
  return, raise or wait forever for a lock its own thread holds, the JSON values that cross the
  HTTP interfaces, Python's truth test and its \<open>int()\<close> and \<open>str()\<close> conversions, insertion
  ordered dictionaries and list slices.  The interfaces the components rely on are the locales
  \<open>py_mapping\<close> (a dictionary), \<open>py_lock\<close> (a non-reentrant lock) and \<open>request_server\<close> (a server
  that handles requests one after the other and keeps an invariant).
\<close>

section \<open>Exceptions and outcomes\<close>

datatype exn =
    KeyError string
  | NameError string
  | AttributeError string
  | TypeError
  | ValueError
  | OverflowError
  | IndexError
  | ZeroDivisionError
  | AssertionError
  | RuntimeError
  | FileNotFoundError
  | OSError
  | RequestException
  | SystemExit
  | PlainException

text \<open>
  A call returns, raises, or never comes back (\<open>Blocked\<close>): the thread waits for a lock that
  nobody will release.
\<close>

datatype 'a outcome = Return 'a | Raise exn | Blocked

type_synonym 'a result = "exn + 'a"

type_synonym ('s, 'a) py = "'s \<Rightarrow> 'a outcome \<times> 's"

named_theorems py_simps \<open>unfolding of the program combinators\<close>

definition py_return :: "'a \<Rightarrow> ('s, 'a) py" where
  "py_return x = (\<lambda>s. (Return x, s))"

definition py_raise :: "exn \<Rightarrow> ('s, 'a) py" where
  "py_raise e = (\<lambda>s. (Raise e, s))"

definition py_bind :: "('s, 'a) py \<Rightarrow> ('a \<Rightarrow> ('s, 'b) py) \<Rightarrow> ('s, 'b) py" where
  "py_bind m f = (\<lambda>s. case m s of
       (Return x, s') \<Rightarrow> f x s'
     | (Raise e, s') \<Rightarrow> (Raise e, s')
     | (Blocked, s') \<Rightarrow> (Blocked, s'))"

definition py_seq :: "('s, 'a) py \<Rightarrow> ('s, 'b) py \<Rightarrow> ('s, 'b) py" where
  "py_seq m k = py_bind m (\<lambda>_. k)"

definition py_get :: "('s \<Rightarrow> 'a) \<Rightarrow> ('s, 'a) py" where
  "py_get f = (\<lambda>s. (Return (f s), s))"

definition py_modify :: "('s \<Rightarrow> 's) \<Rightarrow> ('s, unit) py" where
  "py_modify f = (\<lambda>s. (Return (), f s))"

definition py_lift :: "'a result \<Rightarrow> ('s, 'a) py" where
  "py_lift r = (case r of Inl e \<Rightarrow> py_raise e | Inr x \<Rightarrow> py_return x)"

lemma py_return_apply [py_simps]: "py_return x s = (Return x, s)"
  by (simp add: py_return_def)

lemma py_raise_apply [py_simps]: "py_raise e s = (Raise e, s)"
  by (simp add: py_raise_def)

lemma py_get_apply [py_simps]: "py_get f s = (Return (f s), s)"
  by (simp add: py_get_def)

lemma py_modify_apply [py_simps]: "py_modify f s = (Return (), f s)"
  by (simp add: py_modify_def)

lemma py_lift_apply [py_simps]:
  "py_lift (Inl e) s = (Raise e, s)" "py_lift (Inr x) s = (Return x, s)"
  by (simp_all add: py_lift_def py_simps)

lemma py_bind_apply [py_simps]:
  "m s = (Return x, s') \<Longrightarrow> py_bind m f s = f x s'"
  "m s = (Raise e, s') \<Longrightarrow> py_bind m f s = (Raise e, s')"
  "m s = (Blocked, s') \<Longrightarrow> py_bind m f s = (Blocked, s')"
  by (simp_all add: py_bind_def)

lemma py_seq_apply [py_simps]: "py_seq m k s = py_bind m (\<lambda>_. k) s"
  by (simp add: py_seq_def)

lemma py_bind_assoc: "py_bind (py_bind m f) g = py_bind m (\<lambda>x. py_bind (f x) g)"
  by (rule ext) (simp add: py_bind_def split: prod.splits outcome.splits)

text \<open>
  What holds after a call: \<open>Q\<close> of the value and the state when it returns, \<open>X\<close> of the state when it
  does not.  With \<open>X\<close> false everywhere this says that the call returns.
\<close>

named_theorems py_wp \<open>postconditions of the program combinators\<close>

definition wp :: "('s, 'a) py \<Rightarrow> ('a \<Rightarrow> 's \<Rightarrow> bool) \<Rightarrow> ('s \<Rightarrow> bool) \<Rightarrow> 's \<Rightarrow> bool" where
  "wp m Q X s \<longleftrightarrow> (case m s of (Return x, t) \<Rightarrow> Q x t | (Raise e, t) \<Rightarrow> X t | (Blocked, t) \<Rightarrow> X t)"

lemma wp_bind [py_wp]: "wp (py_bind m f) Q X s \<longleftrightarrow> wp m (\<lambda>x t. wp (f x) Q X t) X s"
  by (auto simp: wp_def py_bind_def split: prod.splits outcome.splits)

lemma wp_seq [py_wp]: "wp (py_seq m k) Q X s \<longleftrightarrow> wp m (\<lambda>_ t. wp k Q X t) X s"
  by (simp add: py_seq_def wp_bind)

lemma wp_return [py_wp]: "wp (py_return x) Q X s = Q x s"
  by (simp add: wp_def py_simps)

lemma wp_raise [py_wp]: "wp (py_raise e) Q X s = X s"
  by (simp add: wp_def py_simps)

lemma wp_get [py_wp]: "wp (py_get f) Q X s = Q (f s) s"
  by (simp add: wp_def py_simps)

lemma wp_modify [py_wp]: "wp (py_modify f) Q X s = Q () (f s)"
  by (simp add: wp_def py_simps)

lemma wp_lift [py_wp]: "wp (py_lift r) Q X s = (case r of Inl e \<Rightarrow> X s | Inr x \<Rightarrow> Q x s)"
  by (simp add: wp_def py_lift_def py_simps split: sum.splits)

lemma wp_if [py_wp]: "wp (if b then m else k) Q X s = (if b then wp m Q X s else wp k Q X s)"
  by simp

lemma wp_mono:
  "wp m Q X s \<Longrightarrow> (\<And>x t. Q x t \<Longrightarrow> Q' x t) \<Longrightarrow> (\<And>t. X t \<Longrightarrow> X' t) \<Longrightarrow> wp m Q' X' s"
  by (auto simp: wp_def split: prod.splits outcome.splits)

lemma wp_conj: "wp m Q X s \<Longrightarrow> wp m Q' X' s \<Longrightarrow> wp m (\<lambda>x t. Q x t \<and> Q' x t) (\<lambda>t. X t \<and> X' t) s"
  by (auto simp: wp_def split: prod.splits outcome.splits)

lemma wp_returns: "wp m Q (\<lambda>_. False) s \<longleftrightarrow> (\<exists>x t. m s = (Return x, t) \<and> Q x t)"
  by (auto simp: wp_def split: prod.splits outcome.splits)

lemma wp_always: "wp m (\<lambda>_. P) P s \<longleftrightarrow> P (snd (m s))"
  by (auto simp: wp_def split: prod.splits outcome.splits)

text \<open>Early error in a pure computation.\<close>

definition res_bind :: "'a result \<Rightarrow> ('a \<Rightarrow> 'b result) \<Rightarrow> 'b result" where
  "res_bind m f = (case m of Inl e \<Rightarrow> Inl e | Inr x \<Rightarrow> f x)"

lemma res_bind_simps [simp]:
  "res_bind (Inl e) f = Inl e" "res_bind (Inr x) f = f x"
  by (simp_all add: res_bind_def)

lemma res_bind_eq_Inr: "res_bind m f = Inr y \<longleftrightarrow> (\<exists>x. m = Inr x \<and> f x = Inr y)"
  by (cases m) simp_all

lemma res_bind_eq_Inl:
  "res_bind m f = Inl e \<longleftrightarrow> m = Inl e \<or> (\<exists>x. m = Inr x \<and> f x = Inl e)"
  by (cases m) simp_all

fun res_mapM :: "('a \<Rightarrow> 'b result) \<Rightarrow> 'a list \<Rightarrow> 'b list result" where
  "res_mapM f [] = Inr []"
| "res_mapM f (x # xs) = res_bind (f x) (\<lambda>y. res_bind (res_mapM f xs) (\<lambda>ys. Inr (y # ys)))"

lemma res_mapM_Inr_iff: "res_mapM f xs = Inr ys \<longleftrightarrow> list_all2 (\<lambda>x y. f x = Inr y) xs ys"
  by (induction xs arbitrary: ys) (auto simp: res_bind_eq_Inr list_all2_Cons1)

lemma res_mapM_total: "(\<And>x. x \<in> set xs \<Longrightarrow> f x = Inr (g x)) \<Longrightarrow> res_mapM f xs = Inr (map g xs)"
  by (induction xs) auto

section \<open>Floats and JSON values\<close>

text \<open>
  A Python float is a finite value, an infinity or not-a-number.  The finite values are kept as
  the rationals they denote, so the rounding of an operation is not modelled.
\<close>

datatype pyfloat = Fin rat | PInf | NInf | NaN

fun pf_less :: "pyfloat \<Rightarrow> pyfloat \<Rightarrow> bool" where
  "pf_less (Fin a) (Fin b) \<longleftrightarrow> a < b"
| "pf_less (Fin a) PInf \<longleftrightarrow> True"
| "pf_less NInf (Fin b) \<longleftrightarrow> True"
| "pf_less NInf PInf \<longleftrightarrow> True"
| "pf_less _ _ \<longleftrightarrow> False"

fun pf_neg :: "pyfloat \<Rightarrow> pyfloat" where
  "pf_neg (Fin a) = Fin (- a)"
| "pf_neg PInf = NInf"
| "pf_neg NInf = PInf"
| "pf_neg NaN = NaN"

fun pf_add :: "pyfloat \<Rightarrow> pyfloat \<Rightarrow> pyfloat" where
  "pf_add (Fin a) (Fin b) = Fin (a + b)"
| "pf_add NaN _ = NaN"
| "pf_add _ NaN = NaN"
| "pf_add PInf NInf = NaN"
| "pf_add NInf PInf = NaN"
| "pf_add PInf _ = PInf"
| "pf_add _ PInf = PInf"
| "pf_add NInf _ = NInf"
| "pf_add _ NInf = NInf"

definition pf_sub :: "pyfloat \<Rightarrow> pyfloat \<Rightarrow> pyfloat" where
  "pf_sub a b = pf_add a (pf_neg b)"

text \<open>Division by a positive float, the only kind the programs use.\<close>

fun pf_div_pos :: "pyfloat \<Rightarrow> pyfloat \<Rightarrow> pyfloat" where
  "pf_div_pos (Fin a) (Fin b) = Fin (a / b)"
| "pf_div_pos (Fin a) PInf = Fin 0"
| "pf_div_pos PInf (Fin b) = PInf"
| "pf_div_pos NInf (Fin b) = NInf"
| "pf_div_pos _ _ = NaN"

lemma pf_less_irrefl [simp]: "\<not> pf_less a a"
  by (cases a) auto

lemma pf_less_trans: "pf_less a b \<Longrightarrow> pf_less b c \<Longrightarrow> pf_less a c"
  by (cases a; cases b; cases c) auto

datatype json =
    JNull
  | JBool bool
  | JInt int
  | JFloat pyfloat
  | JStr string
  | JArr "json list"
  | JObj "(string \<times> json) list"

text \<open>Python's truth test of a decoded JSON value.\<close>

fun truthy :: "json \<Rightarrow> bool" where
  "truthy JNull = False"
| "truthy (JBool b) = b"
| "truthy (JInt n) = (n \<noteq> 0)"
| "truthy (JFloat x) = (x \<noteq> Fin 0)"
| "truthy (JStr s) = (s \<noteq> [])"
| "truthy (JArr xs) = (xs \<noteq> [])"
| "truthy (JObj kvs) = (kvs \<noteq> [])"

text \<open>\<open>data[key]\<close>, \<open>data.get(key, d)\<close> and \<open>data.get(key)\<close> on a decoded JSON value.\<close>

fun json_index :: "json \<Rightarrow> string \<Rightarrow> json result" where
  "json_index (JObj kvs) k = (case map_of kvs k of None \<Rightarrow> Inl (KeyError k) | Some v \<Rightarrow> Inr v)"
| "json_index _ k = Inl TypeError"

fun json_get_default :: "json \<Rightarrow> string \<Rightarrow> json \<Rightarrow> json result" where
  "json_get_default (JObj kvs) k d = Inr (case map_of kvs k of None \<Rightarrow> d | Some v \<Rightarrow> v)"
| "json_get_default _ k d = Inl (AttributeError ''get'')"

fun json_get :: "json \<Rightarrow> string \<Rightarrow> json result" where
  "json_get (JObj kvs) k = Inr (case map_of kvs k of None \<Rightarrow> JNull | Some v \<Rightarrow> v)"
| "json_get _ k = Inl (AttributeError ''get'')"

text \<open>
  Dictionary keys: a hashable value up to Python's equality, under which \<open>1\<close>, \<open>1.0\<close> and \<open>True\<close>
  are the same key.  Lists and dictionaries are not hashable.
\<close>

datatype pykey = KNone | KNum rat | KInf bool | KNaN | KStr string

fun py_key :: "json \<Rightarrow> pykey result" where
  "py_key JNull = Inr KNone"
| "py_key (JBool b) = Inr (KNum (if b then 1 else 0))"
| "py_key (JInt n) = Inr (KNum (of_int n))"
| "py_key (JFloat (Fin q)) = Inr (KNum q)"
| "py_key (JFloat PInf) = Inr (KInf True)"
| "py_key (JFloat NInf) = Inr (KInf False)"
| "py_key (JFloat NaN) = Inr KNaN"
| "py_key (JStr s) = Inr (KStr s)"
| "py_key (JArr _) = Inl TypeError"
| "py_key (JObj _) = Inl TypeError"

definition key_truthy :: "pykey \<Rightarrow> bool" where
  "key_truthy k \<longleftrightarrow> k \<noteq> KNone \<and> k \<noteq> KNum 0 \<and> k \<noteq> KStr []"

text \<open>A number in float arithmetic.\<close>

fun py_number :: "json \<Rightarrow> pyfloat result" where
  "py_number (JBool b) = Inr (Fin (if b then 1 else 0))"
| "py_number (JInt n) = Inr (Fin (of_int n))"
| "py_number (JFloat x) = Inr x"
| "py_number _ = Inl TypeError"

text \<open>
  The outcome of an HTTP call: a response with its status and its body decoded as JSON (\<open>None\<close> when
  the body is not JSON), a failure to connect, or another \<open>requests\<close> error such as a time-out.
\<close>

datatype http = HttpResponse nat "json option" | HttpConnectionError | HttpOtherError

section \<open>Conversions\<close>

text \<open>
  \<open>int(x)\<close>: a float is truncated towards zero, a string is stripped of white space and read as
  an optional sign and decimal digits with single underscores between digits.
\<close>

definition is_space :: "char \<Rightarrow> bool" where
  "is_space c \<longleftrightarrow> (let n = of_char c :: nat in
     n \<in> {9, 10, 11, 12, 13, 28, 29, 30, 31, 32, 133, 160})"

definition digit_val :: "char \<Rightarrow> int option" where
  "digit_val c = (let n = of_char c :: nat in
     if 48 \<le> n \<and> n \<le> 57 then Some (int n - 48) else None)"

fun parse_digits :: "int \<Rightarrow> bool \<Rightarrow> string \<Rightarrow> int option" where
  "parse_digits acc after_digit [] = (if after_digit then Some acc else None)"
| "parse_digits acc after_digit (c # cs) =
     (if c = CHR ''_'' then (if after_digit then parse_digits acc False cs else None)
      else (case digit_val c of
              None \<Rightarrow> None
            | Some d \<Rightarrow> parse_digits (acc * 10 + d) True cs))"

definition strip :: "string \<Rightarrow> string" where
  "strip s = rev (dropWhile is_space (rev (dropWhile is_space s)))"

definition int_of_str :: "string \<Rightarrow> int option" where
  "int_of_str s = (case strip s of
       [] \<Rightarrow> None
     | c # cs \<Rightarrow>
         if c = CHR ''-'' then map_option uminus (parse_digits 0 False cs)
         else if c = CHR ''+'' then parse_digits 0 False cs
         else parse_digits 0 False (c # cs))"

definition trunc_rat :: "rat \<Rightarrow> int" where
  "trunc_rat q = (if q < 0 then - \<lfloor>- q\<rfloor> else \<lfloor>q\<rfloor>)"

fun py_int :: "json \<Rightarrow> int result" where
  "py_int JNull = Inl TypeError"
| "py_int (JBool b) = Inr (if b then 1 else 0)"
| "py_int (JInt n) = Inr n"
| "py_int (JFloat (Fin q)) = Inr (trunc_rat q)"
| "py_int (JFloat NaN) = Inl ValueError"
| "py_int (JFloat _) = Inl OverflowError"
| "py_int (JStr s) = (case int_of_str s of None \<Rightarrow> Inl ValueError | Some n \<Rightarrow> Inr n)"
| "py_int (JArr _) = Inl TypeError"
| "py_int (JObj _) = Inl TypeError"

text \<open>\<open>str(n)\<close>, also what \<open>fmt.Sprintf("%d", n)\<close> writes.\<close>

definition digit_char :: "nat \<Rightarrow> char" where
  "digit_char d = char_of (48 + d)"

fun str_of_nat :: "nat \<Rightarrow> string" where
  "str_of_nat n = (if n < 10 then [digit_char n]
                   else str_of_nat (n div 10) @ [digit_char (n mod 10)])"

declare str_of_nat.simps [simp del]

definition str_of_int :: "int \<Rightarrow> string" where
  "str_of_int n = (if n < 0 then CHR ''-'' # str_of_nat (nat (- n)) else str_of_nat (nat n))"

lemma of_char_digit_char [simp]: "d < 10 \<Longrightarrow> of_char (digit_char d) = 48 + d"
  by (simp add: digit_char_def of_char_of)

lemma digit_val_digit_char [simp]: "d < 10 \<Longrightarrow> digit_val (digit_char d) = Some (int d)"
  by (simp add: digit_val_def Let_def)

lemma digit_char_neq:
  assumes "d < 10" and "of_char c < (48 :: nat) \<or> 58 \<le> (of_char c :: nat)"
  shows "digit_char d \<noteq> c"
proof
  assume "digit_char d = c"
  with assms(1) have "of_char c = 48 + d" by (metis of_char_digit_char)
  with assms show False by arith
qed

lemma digit_char_neq_signs [simp]:
  "d < 10 \<Longrightarrow> digit_char d \<noteq> CHR ''_''"
  "d < 10 \<Longrightarrow> digit_char d \<noteq> CHR ''-''"
  "d < 10 \<Longrightarrow> digit_char d \<noteq> CHR ''+''"
  by (rule digit_char_neq; simp)+

lemma is_space_digit [simp]: "d < 10 \<Longrightarrow> \<not> is_space (digit_char d)"
  by (simp add: is_space_def Let_def)

lemma is_space_minus [simp]: "\<not> is_space (CHR ''-'')"
  by (simp add: is_space_def Let_def)

lemma parse_digits_append_digit:
  "parse_digits acc b ds = Some v \<Longrightarrow> d < 10 \<Longrightarrow>
   parse_digits acc b (ds @ [digit_char d]) = Some (v * 10 + int d)"
  by (induction ds arbitrary: acc b) (auto split: if_splits option.splits)

lemma parse_digits_str_of_nat: "parse_digits 0 False (str_of_nat n) = Some (int n)"
proof (induction n rule: str_of_nat.induct)
  case (1 n)
  show ?case
  proof (cases "n < 10")
    case True
    then show ?thesis by (simp add: str_of_nat.simps [of n])
  next
    case False
    with "1.IH" have "parse_digits 0 False (str_of_nat (n div 10)) = Some (int (n div 10))"
      by blast
    then have "parse_digits 0 False (str_of_nat (n div 10) @ [digit_char (n mod 10)])
        = Some (int (n div 10) * 10 + int (n mod 10))"
      by (rule parse_digits_append_digit) simp
    moreover have "int (n div 10) * 10 + int (n mod 10) = int n"
      by (metis div_mult_mod_eq of_nat_add of_nat_mult of_nat_numeral)
    ultimately show ?thesis using False by (metis str_of_nat.simps)
  qed
qed

lemma str_of_nat_digits: "c \<in> set (str_of_nat n) \<Longrightarrow> \<exists>d < 10. c = digit_char d"
proof (induction n rule: str_of_nat.induct)
  case (1 n)
  have "n mod 10 < 10" by simp
  with 1 show ?case
    by (cases "n < 10") (metis empty_iff empty_set set_ConsD str_of_nat.simps,
        metis Un_iff empty_iff empty_set set_ConsD set_append str_of_nat.simps)
qed

lemma str_of_nat_nonempty [simp]: "str_of_nat n \<noteq> []"
  by (metis list.distinct(1) snoc_eq_iff_butlast str_of_nat.simps)

lemma strip_no_space: "(\<And>c. c \<in> set s \<Longrightarrow> \<not> is_space c) \<Longrightarrow> strip s = s"
  unfolding strip_def
  by (metis dropWhile_eq_self_iff hd_in_set rev_rev_ident set_rev)

lemma strip_str_of_nat: "strip (str_of_nat n) = str_of_nat n"
  by (rule strip_no_space) (auto dest!: str_of_nat_digits)

lemma strip_minus_str_of_nat: "strip (CHR ''-'' # str_of_nat n) = CHR ''-'' # str_of_nat n"
  by (rule strip_no_space) (auto dest!: str_of_nat_digits)

lemma int_of_str_of_int: "int_of_str (str_of_int n) = Some n"
proof (cases "n < 0")
  case True
  then show ?thesis
    by (simp add: int_of_str_def str_of_int_def strip_minus_str_of_nat parse_digits_str_of_nat)
next
  case False
  obtain c cs where s: "str_of_nat (nat n) = c # cs"
    by (metis list.exhaust str_of_nat_nonempty)
  then obtain d where "d < 10" "c = digit_char d"
    using str_of_nat_digits [of c "nat n"] by auto
  then have "c \<noteq> CHR ''-''" "c \<noteq> CHR ''+''"
    by simp_all
  with False s show ?thesis
    using parse_digits_str_of_nat [of "nat n"] strip_str_of_nat [of "nat n"]
    by (simp add: int_of_str_def str_of_int_def)
qed


section \<open>Dictionaries\<close>

text \<open>
  A Python dictionary iterates in insertion order, and assigning to a key it already has keeps the
  key's place: an association list under \<open>AList.update\<close> and \<open>AList.delete\<close>.  What a client may
  rely on is the interface below; the association lists provide it.
\<close>

type_synonym ('k, 'v) dict = "('k \<times> 'v) list"

abbreviation dict_get :: "('k, 'v) dict \<Rightarrow> 'k \<Rightarrow> 'v option" where
  "dict_get d k \<equiv> map_of d k"

abbreviation dict_set :: "'k \<Rightarrow> 'v \<Rightarrow> ('k, 'v) dict \<Rightarrow> ('k, 'v) dict" where
  "dict_set k v d \<equiv> AList.update k v d"

abbreviation dict_del :: "'k \<Rightarrow> ('k, 'v) dict \<Rightarrow> ('k, 'v) dict" where
  "dict_del k d \<equiv> AList.delete k d"

abbreviation dict_keys :: "('k, 'v) dict \<Rightarrow> 'k list" where
  "dict_keys d \<equiv> map fst d"

definition dict_has :: "('k, 'v) dict \<Rightarrow> 'k \<Rightarrow> bool" where
  "dict_has d k \<longleftrightarrow> dict_get d k \<noteq> None"

lemma dict_has_iff: "dict_has d k \<longleftrightarrow> k \<in> set (dict_keys d)"
  by (simp add: dict_has_def map_of_eq_None_iff)

locale py_mapping =
  fixes empty :: "'m"
    and lookup :: "'m \<Rightarrow> 'k \<Rightarrow> 'v option"
    and store :: "'k \<Rightarrow> 'v \<Rightarrow> 'm \<Rightarrow> 'm"
    and remove :: "'k \<Rightarrow> 'm \<Rightarrow> 'm"
    and keys :: "'m \<Rightarrow> 'k list"
  assumes lookup_empty: "lookup empty k = None"
    and lookup_store: "lookup (store k v m) k' = (if k' = k then Some v else lookup m k')"
    and lookup_remove: "lookup (remove k m) k' = (if k' = k then None else lookup m k')"
    and keys_lookup: "k \<in> set (keys m) \<longleftrightarrow> lookup m k \<noteq> None"
    and keys_empty: "keys empty = []"
    and keys_store: "keys (store k v m) = (if k \<in> set (keys m) then keys m else keys m @ [k])"
    and keys_remove: "keys (remove k m) = filter (\<lambda>j. j \<noteq> k) (keys m)"
begin

lemma distinct_keys_store: "distinct (keys m) \<Longrightarrow> distinct (keys (store k v m))"
  by (simp add: keys_store)

lemma distinct_keys_remove: "distinct (keys m) \<Longrightarrow> distinct (keys (remove k m))"
  by (simp add: keys_remove)

lemma lookup_store_twice: "lookup (store k w (store k v m)) = lookup (store k w m)"
  by (rule ext) (simp add: lookup_store)

lemma lookup_stores:
  "lookup (fold (\<lambda>(k, v). store k v) kvs m) k' =
   (case map_of (rev kvs) k' of Some v \<Rightarrow> Some v | None \<Rightarrow> lookup m k')"
  by (induction kvs arbitrary: m)
     (auto simp: lookup_store map_add_def split: option.splits)

lemma store_fresh_keys: "lookup m k = None \<Longrightarrow> keys (store k v m) = keys m @ [k]"
  by (simp add: keys_store keys_lookup)

end

lemma keys_dict_set: "dict_keys (dict_set k v d) =
    (if k \<in> set (dict_keys d) then dict_keys d else dict_keys d @ [k])"
  by (induction d) auto

lemma keys_dict_del: "dict_keys (dict_del k d) = filter (\<lambda>j. j \<noteq> k) (dict_keys d)"
  by (induction d) (auto simp: AList.delete_eq)

interpretation dict: py_mapping "[]" dict_get dict_set dict_del dict_keys
  by unfold_locales
     (auto simp: update_conv' delete_conv' keys_dict_set keys_dict_del map_of_eq_None_iff)

lemma dict_set_twice [simp]: "dict_set k v (dict_set k w d) = dict_set k v d"
  by (induction d) auto

lemma dict_set_fresh: "dict_get d k = None \<Longrightarrow> dict_set k v d = d @ [(k, v)]"
  by (induction d) (auto split: if_splits)

lemma dict_del_absent: "dict_get d k = None \<Longrightarrow> dict_del k d = d"
  by (simp add: map_of_eq_None_iff delete_id)

lemmas dict_lookup [simp] = dict.lookup_store dict.lookup_remove

lemma map_of_rev: "distinct (map fst kvs) \<Longrightarrow> map_of (rev kvs) = map_of kvs"
  by (rule iffD2 [OF map_of_inject_set]) (simp_all add: rev_map [symmetric])

section \<open>Environment variables\<close>

text \<open>\<open>os.environ\<close>, \<open>os.environ.get(k, d)\<close> (also \<open>os.getenv\<close>), \<open>os.environ[k]\<close> and \<open>int(os.environ[k])\<close>.\<close>

type_synonym environ = "(string, string) dict"

definition getenv :: "environ \<Rightarrow> string \<Rightarrow> string \<Rightarrow> string" where
  "getenv env k d = (case dict_get env k of None \<Rightarrow> d | Some v \<Rightarrow> v)"

definition environ_index :: "environ \<Rightarrow> string \<Rightarrow> string result" where
  "environ_index env k = (case dict_get env k of None \<Rightarrow> Inl (KeyError k) | Some v \<Rightarrow> Inr v)"

definition environ_int :: "environ \<Rightarrow> string \<Rightarrow> int result" where
  "environ_int env k = res_bind (environ_index env k) (\<lambda>v. py_int (JStr v))"

section \<open>List slices\<close>

text \<open>\<open>xs[a:b]\<close> for non-negative bounds: what lies outside the list is cut off.\<close>

definition py_slice :: "'a list \<Rightarrow> nat \<Rightarrow> nat \<Rightarrow> 'a list" where
  "py_slice xs a b = take (b - a) (drop a xs)"

lemma length_py_slice: "length (py_slice xs a b) = min b (length xs) - a"
  by (simp add: py_slice_def)

lemma nth_py_slice: "a + i < b \<Longrightarrow> a + i < length xs \<Longrightarrow> py_slice xs a b ! i = xs ! (a + i)"
  by (simp add: py_slice_def)

lemma py_slice_map: "map f (py_slice xs a b) = py_slice (map f xs) a b"
  by (simp add: py_slice_def take_map drop_map)

text \<open>\<open>os.path.join(a, b)\<close> of the POSIX module.\<close>

definition path_join :: "string \<Rightarrow> string \<Rightarrow> string" where
  "path_join a b =
     (if b \<noteq> [] \<and> hd b = CHR ''/'' then b
      else if a = [] \<or> last a = CHR ''/'' then a @ b
      else a @ ''/'' @ b)"

section \<open>Locks\<close>

text \<open>
  \<open>with self.lock: body\<close> for a \<open>threading.Lock\<close>, which is not reentrant.  A thread that asks for
  the lock while its own call chain holds it waits forever and keeps the lock; otherwise the lock
  is released however the body ends.  The state says whether the lock is held by a call that has
  not released it.
\<close>

definition with_lock ::
  "('s \<Rightarrow> bool) \<Rightarrow> (bool \<Rightarrow> 's \<Rightarrow> 's) \<Rightarrow> ('s, 'a) py \<Rightarrow> ('s, 'a) py" where
  "with_lock locked set_locked body = (\<lambda>s.
     if locked s then (Blocked, s)
     else case body (set_locked True s) of
            (Return x, s') \<Rightarrow> (Return x, set_locked False s')
          | (Raise e, s') \<Rightarrow> (Raise e, set_locked False s')
          | (Blocked, s') \<Rightarrow> (Blocked, s'))"

locale py_lock =
  fixes locked :: "'s \<Rightarrow> bool"
    and set_locked :: "bool \<Rightarrow> 's \<Rightarrow> 's"
  assumes locked_set: "locked (set_locked b s) = b"
    and set_set: "set_locked a (set_locked b s) = set_locked a s"
    and set_same: "locked s = b \<Longrightarrow> set_locked b s = s"
begin

lemma with_lock_busy: "locked s \<Longrightarrow> with_lock locked set_locked body s = (Blocked, s)"
  by (simp add: with_lock_def)

lemma with_lock_Return:
  "\<not> locked s \<Longrightarrow> body (set_locked True s) = (Return x, s') \<Longrightarrow>
   with_lock locked set_locked body s = (Return x, set_locked False s')"
  by (simp add: with_lock_def)

lemma with_lock_Raise:
  "\<not> locked s \<Longrightarrow> body (set_locked True s) = (Raise e, s') \<Longrightarrow>
   with_lock locked set_locked body s = (Raise e, set_locked False s')"
  by (simp add: with_lock_def)

text \<open>A body that asks for the lock it runs under never returns, and the lock stays held.\<close>

lemma with_lock_reentry:
  assumes "\<not> locked s" and "body (set_locked True s) = with_lock locked set_locked inner s'"
    and "locked s'"
  shows "with_lock locked set_locked body s = (Blocked, s')"
  using assms by (simp add: with_lock_def)

lemma with_lock_Blocked_iff:
  "fst (with_lock locked set_locked body s) = Blocked \<longleftrightarrow>
   locked s \<or> fst (body (set_locked True s)) = Blocked"
  by (auto simp: with_lock_def split: prod.splits outcome.splits)

text \<open>An invariant that does not look at the lock and is kept by the body is kept by the block.\<close>

lemma with_lock_inv:
  assumes inv: "P s" and frame: "\<And>b t. P (set_locked b t) = P t"
    and body: "\<And>t. P t \<Longrightarrow> P (snd (body t))"
  shows "P (snd (with_lock locked set_locked body s))"
  using body [of "set_locked True s"] inv
  by (auto simp: with_lock_def frame split: prod.splits outcome.splits)

end

section \<open>Servers\<close>

text \<open>
  What a client of an HTTP endpoint sees: a status and a JSON body; an exception the view function
  lets out, which the web framework turns into an internal server error; or no answer at all,
  because the handling thread waits forever.
\<close>

datatype reply = Reply nat json | Crash exn | Hang

definition to_reply :: "(nat \<times> json) outcome \<Rightarrow> reply" where
  "to_reply r = (case r of Return (code, body) \<Rightarrow> Reply code body | Raise e \<Rightarrow> Crash e | Blocked \<Rightarrow> Hang)"

lemma to_reply_simps [simp]:
  "to_reply (Return (c, b)) = Reply c b" "to_reply (Raise e) = Crash e" "to_reply Blocked = Hang"
  by (simp_all add: to_reply_def)

text \<open>The reply as the \<open>requests\<close> library of the caller presents it.\<close>

definition http_of_reply :: "reply \<Rightarrow> http" where
  "http_of_reply r = (case r of
       Reply code body \<Rightarrow> HttpResponse code (Some body)
     | Crash e \<Rightarrow> HttpResponse 500 None
     | Hang \<Rightarrow> HttpOtherError)"

definition run_view :: "('s, nat \<times> json) py \<Rightarrow> 's \<Rightarrow> reply \<times> 's" where
  "run_view view s = (case view s of (r, s') \<Rightarrow> (to_reply r, s'))"

lemma run_view_apply [py_simps]: "view s = (r, s') \<Longrightarrow> run_view view s = (to_reply r, s')"
  by (simp add: run_view_def)

text \<open>A server handles a list of requests, each from the state the one before left.\<close>

fun serve :: "('req \<Rightarrow> 's \<Rightarrow> 'resp \<times> 's) \<Rightarrow> 'req list \<Rightarrow> 's \<Rightarrow> 'resp list \<times> 's" where
  "serve handle [] s = ([], s)"
| "serve handle (r # rs) s =
     (let (a, s') = handle r s; (as, s'') = serve handle rs s' in (a # as, s''))"

locale request_server =
  fixes handle :: "'req \<Rightarrow> 's \<Rightarrow> 'resp \<times> 's"
    and good :: "'s \<Rightarrow> bool"
  assumes handle_good: "good s \<Longrightarrow> good (snd (handle r s))"
begin

lemma serve_good: "good s \<Longrightarrow> good (snd (serve handle rs s))"
proof (induction rs arbitrary: s)
  case Nil
  then show ?case by simp
next
  case (Cons r rs)
  from Cons.IH [OF handle_good [OF Cons.prems]] show ?case
    by (simp add: Let_def case_prod_beta)
qed

end

lemma length_serve [simp]: "length (fst (serve handle rs s)) = length rs"
  by (induction rs arbitrary: s) (simp_all add: Let_def case_prod_beta)

lemma serve_append:
  "serve handle (rs @ qs) s =
   (let (as, s') = serve handle rs s; (bs, s'') = serve handle qs s' in (as @ bs, s''))"
  by (induction rs arbitrary: s) (simp_all add: Let_def case_prod_beta)

end
