(* ===== verification/Mvcc.thy ===== *)
theory Mvcc
  imports C4D_Prelude
begin

text \<open>
  The multi-version store of \<open>components/mvcc/src/main.py\<close>: the class \<open>MVCCNode\<close> with its lock,
  the three HTTP views, and what they promise: the store is an append-only log of documents whose
  version numbers are the positions in the log, counted from one.  The views answer 404 for a stored
  document that is falsy, which a log would return.
\<close>

section \<open>The node and its methods\<close>

record mvcc_node =
  mv_data :: "(int, json) dict"
  current_version :: int
  mv_locked :: bool

definition mvcc_init :: mvcc_node where
  "mvcc_init = \<lparr>mv_data = [], current_version = 0, mv_locked = False\<rparr>"

abbreviation mv_with_lock :: "(mvcc_node, 'a) py \<Rightarrow> (mvcc_node, 'a) py" where
  "mv_with_lock \<equiv> with_lock mv_locked (\<lambda>b s. s\<lparr>mv_locked := b\<rparr>)"

interpretation mv: py_lock mv_locked "\<lambda>b s. s\<lparr>mv_locked := b\<rparr>"
  by unfold_locales auto

definition create_version :: "json \<Rightarrow> (mvcc_node, int) py" where
  "create_version data = mv_with_lock
     (py_seq (py_modify (\<lambda>s. s\<lparr>current_version := current_version s + 1\<rparr>))
     (py_seq (py_modify (\<lambda>s. s\<lparr>mv_data := dict_set (current_version s) data (mv_data s)\<rparr>))
       (py_get current_version)))"

definition get_version :: "int \<Rightarrow> (mvcc_node, json option) py" where
  "get_version version = mv_with_lock
     (py_bind (py_get mv_data) (\<lambda>data.
        if dict_has data version then py_return (dict_get data version) else py_return None))"

definition get_latest_version :: "(mvcc_node, json option) py" where
  "get_latest_version = mv_with_lock (py_get (\<lambda>s. dict_get (mv_data s) (current_version s)))"

section \<open>The views\<close>

definition create_version_view :: "json \<Rightarrow> (mvcc_node, nat \<times> json) py" where
  "create_version_view data =
     py_bind (create_version data) (\<lambda>version.
       py_return (200, JObj [(''version'', JInt version)]))"

text \<open>\<open>if data:\<close> tests the truth of the document, so \<open>None\<close> and every falsy document fail it.\<close>

definition truthy_option :: "json option \<Rightarrow> bool" where
  "truthy_option x = (case x of None \<Rightarrow> False | Some v \<Rightarrow> truthy v)"

definition get_version_view :: "nat \<Rightarrow> (mvcc_node, nat \<times> json) py" where
  "get_version_view version =
     py_bind (get_version (int version)) (\<lambda>data.
       if truthy_option data then py_return (200, the data)
       else py_return (404, JObj [(''error'', JStr ''Version not found'')]))"

definition get_latest_version_view :: "(mvcc_node, nat \<times> json) py" where
  "get_latest_version_view =
     py_bind get_latest_version (\<lambda>data.
       if truthy_option data then py_return (200, the data)
       else py_return (404, JObj [(''error'', JStr ''No versions found'')]))"

text \<open>The routes; \<open><int:version>\<close> matches a non-negative number only.\<close>

datatype mvcc_request = PostVersion json | GetVersion nat | GetLatest

fun mvcc_handle :: "mvcc_request \<Rightarrow> mvcc_node \<Rightarrow> reply \<times> mvcc_node" where
  "mvcc_handle (PostVersion data) s = run_view (create_version_view data) s"
| "mvcc_handle (GetVersion v) s = run_view (get_version_view v) s"
| "mvcc_handle GetLatest s = run_view get_latest_version_view s"

lemma create_version_free:
  "\<not> mv_locked s \<Longrightarrow> create_version d s =
     (Return (current_version s + 1),
      s\<lparr>current_version := current_version s + 1,
        mv_data := dict_set (current_version s + 1) d (mv_data s), mv_locked := False\<rparr>)"
  by (simp add: create_version_def with_lock_def py_simps)

lemma get_version_free:
  "\<not> mv_locked s \<Longrightarrow> get_version v s = (Return (dict_get (mv_data s) v), s)"
  by (simp add: get_version_def with_lock_def py_simps dict_has_def)

lemma get_latest_version_free:
  "\<not> mv_locked s \<Longrightarrow> get_latest_version s = (Return (dict_get (mv_data s) (current_version s)), s)"
  by (simp add: get_latest_version_def with_lock_def py_simps)

lemmas mvcc_methods = create_version_free get_version_free get_latest_version_free

lemma create_version_view_free:
  "\<not> mv_locked s \<Longrightarrow> run_view (create_version_view d) s =
     (Reply 200 (JObj [(''version'', JInt (current_version s + 1))]), snd (create_version d s))"
  by (simp add: create_version_view_def create_version_free py_simps)

lemma get_version_view_free:
  "\<not> mv_locked s \<Longrightarrow> run_view (get_version_view v) s =
     ((case dict_get (mv_data s) (int v) of
         Some d \<Rightarrow> if truthy d then Reply 200 d
                   else Reply 404 (JObj [(''error'', JStr ''Version not found'')])
       | None \<Rightarrow> Reply 404 (JObj [(''error'', JStr ''Version not found'')])), s)"
  by (auto simp: get_version_view_def get_version_free py_simps truthy_option_def split: option.splits)

lemma get_latest_version_view_free:
  "\<not> mv_locked s \<Longrightarrow> run_view get_latest_version_view s =
     ((case dict_get (mv_data s) (current_version s) of
         Some d \<Rightarrow> if truthy d then Reply 200 d
                   else Reply 404 (JObj [(''error'', JStr ''No versions found'')])
       | None \<Rightarrow> Reply 404 (JObj [(''error'', JStr ''No versions found'')])), s)"
  by (auto simp: get_latest_version_view_def get_latest_version_free py_simps truthy_option_def
      split: option.splits)

lemmas mvcc_views = create_version_view_free get_version_view_free get_latest_version_view_free

section \<open>The specification: an append-only log\<close>

text \<open>The answer when the log has no such position.\<close>

fun not_found :: "mvcc_request \<Rightarrow> reply" where
  "not_found (GetVersion v) = Reply 404 (JObj [(''error'', JStr ''Version not found'')])"
| "not_found q = Reply 404 (JObj [(''error'', JStr ''No versions found'')])"

fun log_handle :: "mvcc_request \<Rightarrow> json list \<Rightarrow> reply \<times> json list" where
  "log_handle (PostVersion d) l =
     (Reply 200 (JObj [(''version'', JInt (int (length l) + 1))]), l @ [d])"
| "log_handle (GetVersion v) l =
     ((if 1 \<le> v \<and> v \<le> length l then Reply 200 (l ! (v - 1)) else not_found (GetVersion v)), l)"
| "log_handle GetLatest l =
     ((if l \<noteq> [] then Reply 200 (last l) else not_found GetLatest), l)"

text \<open>
  Where the store departs from the log: it hides a document that is falsy, answering as if it had none.
\<close>

fun hide_falsy :: "mvcc_request \<Rightarrow> reply \<Rightarrow> reply" where
  "hide_falsy q (Reply code d) = (if code = 200 \<and> \<not> truthy d then not_found q else Reply code d)"
| "hide_falsy q a = a"

text \<open>The node that has stored the log \<open>l\<close>: document \<open>i\<close> sits under version \<open>i + 1\<close>.\<close>

definition represents :: "json list \<Rightarrow> mvcc_node \<Rightarrow> bool" where
  "represents l s \<longleftrightarrow> \<not> mv_locked s \<and> current_version s = int (length l) \<and>
     (\<forall>v. dict_get (mv_data s) v =
        (if 1 \<le> v \<and> v \<le> int (length l) then Some (l ! nat (v - 1)) else None))"

lemma represents_init: "represents [] mvcc_init"
  by (simp add: represents_def mvcc_init_def)

lemma represents_create:
  "represents l s \<Longrightarrow> represents (l @ [d]) (snd (create_version d s))"
  by (auto simp: represents_def create_version_free nth_append)

lemma handle_simulates:
  assumes "represents l s"
  shows "fst (mvcc_handle r s) = hide_falsy r (fst (log_handle r l))"
    and "represents (snd (log_handle r l)) (snd (mvcc_handle r s))"
proof -
  from assms have free: "\<not> mv_locked s" by (simp add: represents_def)
  have get: "dict_get (mv_data s) v =
      (if 1 \<le> v \<and> v \<le> int (length l) then Some (l ! nat (v - 1)) else None)" for v
    using assms by (simp add: represents_def)
  have cur: "current_version s = int (length l)"
    using assms by (simp add: represents_def)
  show "fst (mvcc_handle r s) = hide_falsy r (fst (log_handle r l))"
    by (cases r) (auto simp: mvcc_views free get cur last_conv_nth nat_diff_distrib Suc_le_eq)
  show "represents (snd (log_handle r l)) (snd (mvcc_handle r s))"
    using assms represents_create [OF assms] by (cases r) (simp_all add: mvcc_views free)
qed

lemma serve_simulates:
  "represents l s \<Longrightarrow>
   fst (serve mvcc_handle rs s) = map2 hide_falsy rs (fst (serve log_handle rs l)) \<and>
   represents (snd (serve log_handle rs l)) (snd (serve mvcc_handle rs s))"
proof (induction rs arbitrary: l s)
  case Nil
  then show ?case by simp
next
  case (Cons r rs)
  note sim = handle_simulates [OF Cons.prems, of r]
  from Cons.IH [OF sim(2)] sim(1) show ?case
    by (simp add: Let_def case_prod_beta)
qed

lemma log_grows: "\<exists>m. snd (serve log_handle rs l) = l @ m"
proof (induction rs arbitrary: l)
  case Nil
  then show ?case by simp
next
  case (Cons r rs)
  have "\<exists>k. snd (log_handle r l) = l @ k" by (cases r) auto
  then obtain k where "snd (log_handle r l) = l @ k" ..
  with Cons.IH [of "l @ k"] show ?case
    by (auto simp: Let_def case_prod_beta)
qed

text \<open>A log of truthy documents has no document to hide.\<close>

lemma truthy_log:
  "(\<forall>d. PostVersion d \<in> set rs \<longrightarrow> truthy d) \<Longrightarrow> (\<forall>d \<in> set l. truthy d) \<Longrightarrow>
   map2 hide_falsy rs (fst (serve log_handle rs l)) = fst (serve log_handle rs l)"
proof (induction rs arbitrary: l)
  case (Cons r rs)
  have "hide_falsy r (fst (log_handle r l)) = fst (log_handle r l)"
    using Cons.prems(2) by (cases r) auto
  moreover have "\<forall>d \<in> set (snd (log_handle r l)). truthy d"
    using Cons.prems by (cases r) auto
  ultimately show ?case using Cons.IH Cons.prems(1) by (simp add: Let_def case_prod_beta)
qed simp

text \<open>The number of versions stored is the number of POSTs.\<close>

fun is_post :: "mvcc_request \<Rightarrow> bool" where
  "is_post (PostVersion _) = True"
| "is_post _ = False"

lemma log_length: "length (snd (serve log_handle rs l)) = length l + length (filter is_post rs)"
proof (induction rs arbitrary: l)
  case Nil
  then show ?case by simp
next
  case (Cons r rs)
  then show ?case by (cases r) (simp_all add: Let_def case_prod_beta)
qed

section \<open>Properties\<close>

text \<open>C22: The version store started empty answers every sequence of HTTP requests as an append-only log does
  -- a POST appends its document and returns its position, a GET returns the document at a position,
  \<open>/latest\<close> the last one -- with one exception: where the log returns a falsy document (null, false, zero,
  an empty string, list or object) the store answers 404.  If no such document is ever posted the answers
  are those of the log.\<close>

theorem mvcc_refines_log:
  "fst (serve mvcc_handle rs mvcc_init) = map2 hide_falsy rs (fst (serve log_handle rs [])) \<and>
   ((\<forall>d. PostVersion d \<in> set rs \<longrightarrow> truthy d) \<longrightarrow>
     fst (serve mvcc_handle rs mvcc_init) = fst (serve log_handle rs []))"
  using serve_simulates [OF represents_init] truthy_log by simp

theorem mvcc_refines_log_witness:
  "fst (serve mvcc_handle [PostVersion (JInt 7), GetVersion 1, GetVersion 2] mvcc_init) =
     [Reply 200 (JObj [(''version'', JInt 1)]), Reply 200 (JInt 7), not_found (GetVersion 2)] \<and>
   fst (serve mvcc_handle [PostVersion (JInt 0), GetLatest] mvcc_init) =
     [Reply 200 (JObj [(''version'', JInt 1)]), not_found GetLatest]"
proof
  have "\<forall>d. PostVersion d \<in> set [PostVersion (JInt 7), GetVersion 1, GetVersion 2] \<longrightarrow> truthy d" by simp
  then show "fst (serve mvcc_handle [PostVersion (JInt 7), GetVersion 1, GetVersion 2] mvcc_init) =
     [Reply 200 (JObj [(''version'', JInt 1)]), Reply 200 (JInt 7), not_found (GetVersion 2)]"
    using mvcc_refines_log [of "[PostVersion (JInt 7), GetVersion 1, GetVersion 2]"] by (simp del: mvcc_handle.simps)
  show "fst (serve mvcc_handle [PostVersion (JInt 0), GetLatest] mvcc_init) =
     [Reply 200 (JObj [(''version'', JInt 1)]), not_found GetLatest]"
    using mvcc_refines_log [of "[PostVersion (JInt 0), GetLatest]"] by (simp del: mvcc_handle.simps)
qed

text \<open>A stored version is immutable: whatever requests follow, the document found under its number
  is the one that was stored.\<close>

theorem mvcc_version_immutable:
  assumes "dict_get (mv_data (snd (serve mvcc_handle rs mvcc_init))) v = Some d"
  shows "dict_get (mv_data (snd (serve mvcc_handle (rs @ qs) mvcc_init))) v = Some d"
proof -
  define l where "l = snd (serve log_handle rs [])"
  obtain m where m: "snd (serve log_handle (rs @ qs) []) = l @ m"
    using log_grows [of qs l] by (auto simp: l_def serve_append Let_def case_prod_beta)
  have "represents l (snd (serve mvcc_handle rs mvcc_init))"
    using serve_simulates [OF represents_init] by (simp add: l_def)
  with assms have v: "1 \<le> v" "v \<le> int (length l)" and d: "d = l ! nat (v - 1)"
    by (auto simp: represents_def split: if_splits)
  have "represents (l @ m) (snd (serve mvcc_handle (rs @ qs) mvcc_init))"
    using serve_simulates [OF represents_init, of "rs @ qs"] by (simp add: m)
  moreover have "nat (v - 1) < length l" using v by linarith
  ultimately show ?thesis using v d by (simp add: represents_def nth_append)
qed

theorem mvcc_version_immutable_witness:
  "dict_get (mv_data (snd (serve mvcc_handle ([PostVersion (JInt 7)] @ [PostVersion (JInt 9)])
     mvcc_init))) 1 = Some (JInt 7)"
proof -
  have "dict_get (mv_data (snd (serve mvcc_handle [PostVersion (JInt 7)] mvcc_init))) 1
      = Some (JInt 7)"
    by (simp add: create_version_view_free create_version_free mvcc_init_def)
  then show ?thesis by (rule mvcc_version_immutable)
qed

text \<open>A falsy document (an empty object or list, 0, the empty string, false, null) is stored and gets
  a version number, but reading that version answers 404, and so does reading the latest one.\<close>

lemma mvcc_falsy_document_hidden:
  assumes "\<not> truthy d" and "n = length (filter is_post rs) + 1"
  shows "fst (serve mvcc_handle (rs @ [PostVersion d, GetVersion n, GetLatest]) mvcc_init) =
     fst (serve mvcc_handle rs mvcc_init) @
       [Reply 200 (JObj [(''version'', JInt (int n))]),
        Reply 404 (JObj [(''error'', JStr ''Version not found'')]),
        Reply 404 (JObj [(''error'', JStr ''No versions found'')])] \<and>
     dict_get (mv_data (snd (serve mvcc_handle
           (rs @ [PostVersion d, GetVersion n, GetLatest]) mvcc_init))) (int n) = Some d"
proof -
  let ?qs = "[PostVersion d, GetVersion n, GetLatest]"
  have n: "n = length (snd (serve log_handle rs [])) + 1"
    using assms(2) by (simp add: log_length)
  note sim = serve_simulates [OF represents_init, of "rs @ ?qs"]
  have len: "length (fst (serve log_handle rs [])) = length rs" by (rule length_serve)
  have "fst (serve log_handle (rs @ ?qs) []) = fst (serve log_handle rs []) @
       [Reply 200 (JObj [(''version'', JInt (int n))]), Reply 200 d, Reply 200 d]"
    by (simp add: serve_append Let_def case_prod_beta n nth_append)
  with assms(1) have "map2 hide_falsy (rs @ ?qs) (fst (serve log_handle (rs @ ?qs) [])) =
      map2 hide_falsy rs (fst (serve log_handle rs [])) @
       [Reply 200 (JObj [(''version'', JInt (int n))]),
        Reply 404 (JObj [(''error'', JStr ''Version not found'')]),
        Reply 404 (JObj [(''error'', JStr ''No versions found'')])]"
    by (simp add: zip_append [OF len [symmetric]] del: serve.simps)
  moreover have "snd (serve log_handle (rs @ ?qs) []) = snd (serve log_handle rs []) @ [d]"
    by (simp add: serve_append Let_def case_prod_beta)
  ultimately show ?thesis
    using sim serve_simulates [OF represents_init, of rs]
    by (simp add: represents_def n nth_append)
qed

lemma mvcc_falsy_document_hidden_witness:
  "fst (serve mvcc_handle ([PostVersion (JInt 5)] @ [PostVersion (JObj []), GetVersion 2, GetLatest])
     mvcc_init) =
     [Reply 200 (JObj [(''version'', JInt 1)]),
      Reply 200 (JObj [(''version'', JInt 2)]),
      Reply 404 (JObj [(''error'', JStr ''Version not found'')]),
      Reply 404 (JObj [(''error'', JStr ''No versions found'')])]"
proof -
  have "\<not> truthy (JObj [])" and "2 = length (filter is_post [PostVersion (JInt 5)]) + 1"
    by simp_all
  note * = mvcc_falsy_document_hidden [OF this]
  have "fst (serve mvcc_handle [PostVersion (JInt 5)] mvcc_init)
      = [Reply 200 (JObj [(''version'', JInt 1)])]"
    by (simp add: create_version_view_free create_version_free mvcc_init_def)
  with * show ?thesis by simp
qed

end
