(* ===== verification/Task_Distributor.thy ===== *)
theory Task_Distributor
  imports C4D_Prelude "HOL-Library.Sublist"
begin

text \<open>
  The task distributor of \<open>components/task-distributor/src/main.py\<close>: the class
  \<open>TaskDistributor\<close> with its dictionaries and its lock, the thread that polls failure
  probabilities, and the HTTP views.
\<close>

section \<open>State\<close>

record task =
  task_data :: json
  task_status :: string
  task_node :: pykey

record distributor =
  tasks :: "(int, task) dict"
  node_assignments :: "(pykey, int option) dict"
  node_status :: "(pykey, string) dict"
  node_failure_rates :: json
  task_counter :: int
  td_locked :: bool

definition td_init :: distributor where
  "td_init = \<lparr>tasks = [], node_assignments = [], node_status = [], node_failure_rates = JObj [],
     task_counter = 0, td_locked = False\<rparr>"

abbreviation td_with_lock :: "(distributor, 'a) py \<Rightarrow> (distributor, 'a) py" where
  "td_with_lock \<equiv> with_lock td_locked (\<lambda>b s. s\<lparr>td_locked := b\<rparr>)"

interpretation td: py_lock td_locked "\<lambda>b s. s\<lparr>td_locked := b\<rparr>"
  by unfold_locales auto

section \<open>Methods\<close>

definition get_next_task_id :: "(distributor, int) py" where
  "get_next_task_id = td_with_lock
     (py_seq (py_modify (\<lambda>s. s\<lparr>task_counter := task_counter s + 1\<rparr>)) (py_get task_counter))"

text \<open>
  One round of \<open>update_failure_probabilities\<close>.  Only a failure to connect is caught: any other
  error, an undecodable body among them, ends the polling thread.
\<close>

fun poll_rates :: "http \<Rightarrow> (distributor, unit) py" where
  "poll_rates (HttpResponse code body) =
     (if code = 200 then
        (case body of
           Some rates \<Rightarrow> py_modify (\<lambda>s. s\<lparr>node_failure_rates := rates\<rparr>)
         | None \<Rightarrow> py_raise RequestException)
      else py_return ())"
| "poll_rates HttpConnectionError = py_return ()"
| "poll_rates HttpOtherError = py_raise RequestException"

definition register_node :: "json \<Rightarrow> json \<Rightarrow> (distributor, unit) py" where
  "register_node node_id node_url = td_with_lock
     (py_bind (py_lift (py_key node_id)) (\<lambda>n.
      py_seq (py_modify (\<lambda>s. s\<lparr>node_assignments := dict_set n None (node_assignments s)\<rparr>))
             (py_modify (\<lambda>s. s\<lparr>node_status := dict_set n ''available'' (node_status s)\<rparr>))))"

text \<open>\<open>self.tasks[task_id][\<dots>] = \<dots>\<close>: the task must exist.\<close>

definition update_task :: "int \<Rightarrow> (task \<Rightarrow> task) \<Rightarrow> (distributor, unit) py" where
  "update_task task_id f = (\<lambda>s. case dict_get (tasks s) task_id of
       None \<Rightarrow> (Raise (KeyError (str_of_int task_id)), s)
     | Some t \<Rightarrow> (Return (), s\<lparr>tasks := dict_set task_id (f t) (tasks s)\<rparr>))"

definition unregister_node :: "pykey \<Rightarrow> (distributor, unit) py" where
  "unregister_node node_id = td_with_lock
     (py_seq
       (py_bind (py_get node_assignments) (\<lambda>assignments.
          case dict_get assignments node_id of
            None \<Rightarrow> py_return ()
          | Some assigned \<Rightarrow>
              py_seq
                (case assigned of
                   None \<Rightarrow> py_return ()
                 | Some task_id \<Rightarrow>
                     if task_id \<noteq> 0 then
                       py_seq (update_task task_id (\<lambda>t. t\<lparr>task_status := ''failed''\<rparr>))
                              (update_task task_id (\<lambda>t. t\<lparr>task_node := KNone\<rparr>))
                     else py_return ())
                (py_modify (\<lambda>s. s\<lparr>node_assignments := dict_del node_id (node_assignments s)\<rparr>))))
       (py_bind (py_get node_status) (\<lambda>status.
          if dict_has status node_id
          then py_modify (\<lambda>s. s\<lparr>node_status := dict_del node_id (node_status s)\<rparr>)
          else py_return ())))"

text \<open>
  \<open>node_id in self.node_failure_rates\<close> and \<open>self.node_failure_rates.get(node_id, 0.0)\<close>: the rates
  are whatever JSON value the server sent.
\<close>

fun rates_has :: "json \<Rightarrow> pykey \<Rightarrow> bool result" where
  "rates_has (JObj kvs) n = Inr (case n of KStr k \<Rightarrow> k \<in> set (dict_keys kvs) | _ \<Rightarrow> False)"
| "rates_has (JArr xs) n = Inr (list_ex (\<lambda>x. py_key x = Inr n) xs)"
| "rates_has (JStr t) n = (case n of KStr k \<Rightarrow> Inr (sublist k t) | _ \<Rightarrow> Inl TypeError)"
| "rates_has _ n = Inl TypeError"

fun all_rated :: "json \<Rightarrow> pykey list \<Rightarrow> bool result" where
  "all_rated rates [] = Inr True"
| "all_rated rates (n # ns) =
     res_bind (rates_has rates n) (\<lambda>b. if b then all_rated rates ns else Inr False)"

definition node_weight :: "json \<Rightarrow> pykey \<Rightarrow> pyfloat result" where
  "node_weight rates n = (case rates of
       JObj kvs \<Rightarrow>
         res_bind (case n of
                     KStr k \<Rightarrow> (case dict_get kvs k of None \<Rightarrow> Inr (Fin 0) | Some v \<Rightarrow> py_number v)
                   | _ \<Rightarrow> Inr (Fin 0))
           (\<lambda>rate. Inr (pf_sub (Fin 1) rate))
     | _ \<Rightarrow> Inl (AttributeError ''get''))"

definition sum_weights :: "pyfloat list \<Rightarrow> pyfloat" where
  "sum_weights ws = foldl pf_add (Fin 0) ws"

definition normalize_weights :: "pyfloat list \<Rightarrow> pyfloat \<Rightarrow> pyfloat list" where
  "normalize_weights ws total_weight = map (\<lambda>w. pf_div_pos w total_weight) ws"

text \<open>
  The module \<open>random\<close>: \<open>random.choices(nodes, weights=ws, k=1)[0]\<close> takes the node at the position
  \<open>pick_weighted ws\<close> and \<open>random.choice(nodes)\<close> the one at position \<open>pick (len(nodes))\<close>.  The name
  \<open>random\<close> is looked up among the names the module binds.
\<close>

record rng =
  pick :: "nat \<Rightarrow> nat"
  pick_weighted :: "pyfloat list \<Rightarrow> nat result"

definition td_globals :: "string list" where
  "td_globals = [''os'', ''threading'', ''time'', ''requests'', ''Flask'', ''request'', ''jsonify'',
     ''app'', ''TaskDistributor'', ''C4D_SERVER_URL'', ''task_distributor'',
     ''update_failure_probabilities_thread'', ''register_node_endpoint'',
     ''unregister_node_endpoint'', ''create_task_endpoint'', ''get_task_status_endpoint'']"

definition random_choice :: "string list \<Rightarrow> rng \<Rightarrow> pykey list \<Rightarrow> pykey result" where
  "random_choice names rnd nodes =
     (if ''random'' \<in> set names then Inr (nodes ! pick rnd (length nodes))
      else Inl (NameError ''random''))"

definition random_choices ::
  "string list \<Rightarrow> rng \<Rightarrow> pykey list \<Rightarrow> pyfloat list \<Rightarrow> pykey result" where
  "random_choices names rnd nodes ws =
     (if ''random'' \<in> set names then
        res_bind (pick_weighted rnd ws) (\<lambda>i. Inr (nodes ! i))
      else Inl (NameError ''random''))"

definition available_nodes :: "distributor \<Rightarrow> pykey list" where
  "available_nodes s = map fst (filter (\<lambda>(n, status). status = ''available'') (node_status s))"

definition choose_node :: "string list \<Rightarrow> rng \<Rightarrow> json \<Rightarrow> pykey list \<Rightarrow> pykey result" where
  "choose_node names rnd rates nodes =
     res_bind (all_rated rates nodes) (\<lambda>all_known.
       if all_known then
         res_bind (res_mapM (node_weight rates) nodes) (\<lambda>weights.
           let total_weight = sum_weights weights in
             if pf_less (Fin 0) total_weight
             then random_choices names rnd nodes (normalize_weights weights total_weight)
             else random_choice names rnd nodes)
       else random_choice names rnd nodes)"

text \<open>No node is the value \<open>None\<close>.\<close>

definition get_available_node :: "string list \<Rightarrow> rng \<Rightarrow> (distributor, pykey) py" where
  "get_available_node names rnd = td_with_lock
     (py_bind (py_get available_nodes) (\<lambda>nodes.
        if nodes = [] then py_return KNone
        else py_bind (py_get node_failure_rates) (\<lambda>rates.
               py_lift (choose_node names rnd rates nodes))))"

definition assign_task_to_node :: "int \<Rightarrow> pykey \<Rightarrow> (distributor, unit) py" where
  "assign_task_to_node task_id node_id = td_with_lock
     (py_seq (update_task task_id (\<lambda>t. t\<lparr>task_node := node_id\<rparr>))
     (py_seq (py_modify (\<lambda>s. s\<lparr>node_assignments :=
                dict_set node_id (Some task_id) (node_assignments s)\<rparr>))
             (py_modify (\<lambda>s. s\<lparr>node_status := dict_set node_id ''busy'' (node_status s)\<rparr>))))"

definition store_task :: "int \<Rightarrow> json \<Rightarrow> (distributor, int) py" where
  "store_task task_id data = td_with_lock (py_seq
     (py_modify (\<lambda>s. s\<lparr>tasks := dict_set task_id
        \<lparr>task_data = data, task_status = ''pending'', task_node = KNone\<rparr> (tasks s)\<rparr>))
     (py_return task_id))"

definition create_task :: "json \<Rightarrow> (distributor, int) py" where
  "create_task data = py_bind get_next_task_id (\<lambda>task_id. store_task task_id data)"

definition get_task_status :: "int \<Rightarrow> (distributor, string option) py" where
  "get_task_status task_id = td_with_lock
     (py_get (\<lambda>s. map_option task_status (dict_get (tasks s) task_id)))"

definition update_task_status :: "int \<Rightarrow> string \<Rightarrow> (distributor, unit) py" where
  "update_task_status task_id status = td_with_lock
     (py_bind (py_get tasks) (\<lambda>ts.
        if dict_has ts task_id then update_task task_id (\<lambda>t. t\<lparr>task_status := status\<rparr>)
        else py_return ()))"

definition get_node_for_task :: "string list \<Rightarrow> rng \<Rightarrow> int \<Rightarrow> (distributor, pykey) py" where
  "get_node_for_task names rnd task_id = td_with_lock
     (py_bind (py_get (\<lambda>s. dict_get (tasks s) task_id)) (\<lambda>task.
        case task of
          None \<Rightarrow> py_return KNone
        | Some t \<Rightarrow>
            py_bind (py_get node_status) (\<lambda>status.
              if key_truthy (task_node t) \<and> dict_get status (task_node t) = Some ''available''
              then py_return (task_node t)
              else get_available_node names rnd)))"

section \<open>Views\<close>

text \<open>A node id as \<open>jsonify\<close> writes it back, a number up to the equality of keys.\<close>

fun key_json :: "pykey \<Rightarrow> json" where
  "key_json KNone = JNull"
| "key_json (KNum q) = JFloat (Fin q)"
| "key_json (KInf b) = JFloat (if b then PInf else NInf)"
| "key_json KNaN = JFloat NaN"
| "key_json (KStr s) = JStr s"

definition register_node_view :: "json \<Rightarrow> (distributor, nat \<times> json) py" where
  "register_node_view data =
     py_bind (py_lift (json_index data ''node_id'')) (\<lambda>node_id.
     py_bind (py_lift (json_index data ''node_url'')) (\<lambda>node_url.
     py_seq (register_node node_id node_url)
       (py_return (200, JObj [(''message'', JStr ''Node registered''), (''node_id'', node_id)]))))"

definition unregister_node_view :: "string \<Rightarrow> (distributor, nat \<times> json) py" where
  "unregister_node_view node_id =
     py_seq (unregister_node (KStr node_id))
       (py_return (200, JObj [(''message'', JStr (''Node '' @ node_id @ '' unregistered''))]))"

definition create_task_view :: "string list \<Rightarrow> rng \<Rightarrow> json \<Rightarrow> (distributor, nat \<times> json) py" where
  "create_task_view names rnd data =
     py_bind (create_task data) (\<lambda>task_id.
     py_bind (get_node_for_task names rnd task_id) (\<lambda>node_id.
       if key_truthy node_id then
         py_seq (assign_task_to_node task_id node_id)
         (py_seq (update_task_status task_id ''running'')
           (py_return (200, JObj [(''message'', JStr ''Task created and assigned''),
              (''task_id'', JInt task_id), (''node_id'', key_json node_id)])))
       else py_return (503, JObj [(''message'', JStr ''Task created but no node available''),
              (''task_id'', JInt task_id)])))"

definition get_task_status_view :: "string \<Rightarrow> (distributor, nat \<times> json) py" where
  "get_task_status_view task_id =
     py_bind (py_lift (py_int (JStr task_id))) (\<lambda>n.
     py_bind (get_task_status n) (\<lambda>status.
       case status of
         Some st \<Rightarrow>
           if st \<noteq> [] then py_return (200, JObj [(''task_id'', JStr task_id), (''status'', JStr st)])
           else py_return (404, JObj [(''error'', JStr ''Task not found'')])
       | None \<Rightarrow> py_return (404, JObj [(''error'', JStr ''Task not found'')])))"

section \<open>What each method does when the lock is free\<close>

lemma update_task_apply [py_simps]:
  "dict_get (tasks s) t = None \<Longrightarrow> update_task t f s = (Raise (KeyError (str_of_int t)), s)"
  "dict_get (tasks s) t = Some tk \<Longrightarrow>
   update_task t f s = (Return (), s\<lparr>tasks := dict_set t (f tk) (tasks s)\<rparr>)"
  by (simp_all add: update_task_def)

lemma get_next_task_id_free:
  "\<not> td_locked s \<Longrightarrow> get_next_task_id s =
     (Return (task_counter s + 1), s\<lparr>task_counter := task_counter s + 1\<rparr>)"
  by (simp add: get_next_task_id_def with_lock_def py_simps)

lemma store_task_free:
  "\<not> td_locked s \<Longrightarrow> store_task t d s =
     (Return t, s\<lparr>tasks := dict_set t
        \<lparr>task_data = d, task_status = ''pending'', task_node = KNone\<rparr> (tasks s)\<rparr>)"
  by (simp add: store_task_def with_lock_def py_simps)

lemma create_task_free:
  "\<not> td_locked s \<Longrightarrow> create_task d s =
     (Return (task_counter s + 1),
      s\<lparr>task_counter := task_counter s + 1,
        tasks := dict_set (task_counter s + 1)
          \<lparr>task_data = d, task_status = ''pending'', task_node = KNone\<rparr> (tasks s)\<rparr>)"
  by (simp add: create_task_def get_next_task_id_free store_task_free py_simps)

lemma register_node_free:
  "\<not> td_locked s \<Longrightarrow> register_node i u s =
     (case py_key i of
        Inl e \<Rightarrow> (Raise e, s)
      | Inr n \<Rightarrow> (Return (), s\<lparr>node_assignments := dict_set n None (node_assignments s),
                             node_status := dict_set n ''available'' (node_status s)\<rparr>))"
  by (simp add: register_node_def with_lock_def py_simps split: sum.splits)

lemma unregister_unknown_free:
  "\<not> td_locked s \<Longrightarrow> dict_get (node_assignments s) n = None \<Longrightarrow> unregister_node n s =
     (Return (), s\<lparr>node_status := dict_del n (node_status s)\<rparr>)"
  by (cases "dict_get (node_status s) n")
     (simp_all add: unregister_node_def with_lock_def py_simps dict_has_def dict_del_absent)

lemma unregister_idle_free:
  "\<not> td_locked s \<Longrightarrow> dict_get (node_assignments s) n = Some None \<Longrightarrow> unregister_node n s =
     (Return (), s\<lparr>node_assignments := dict_del n (node_assignments s),
                   node_status := dict_del n (node_status s)\<rparr>)"
  by (cases "dict_get (node_status s) n")
     (simp_all add: unregister_node_def with_lock_def py_simps dict_has_def dict_del_absent)

lemma unregister_busy_free:
  "\<not> td_locked s \<Longrightarrow> dict_get (node_assignments s) n = Some (Some t) \<Longrightarrow> t \<noteq> 0 \<Longrightarrow>
   dict_get (tasks s) t = Some tk \<Longrightarrow> unregister_node n s =
     (Return (), s\<lparr>tasks := dict_set t (tk\<lparr>task_status := ''failed'', task_node := KNone\<rparr>) (tasks s),
                   node_assignments := dict_del n (node_assignments s),
                   node_status := dict_del n (node_status s)\<rparr>)"
  by (cases "dict_get (node_status s) n")
     (simp_all add: unregister_node_def with_lock_def py_simps dict_has_def dict_del_absent)

lemma assign_task_free:
  "\<not> td_locked s \<Longrightarrow> assign_task_to_node t n s =
     (case dict_get (tasks s) t of
        None \<Rightarrow> (Raise (KeyError (str_of_int t)), s)
      | Some tk \<Rightarrow> (Return (), s\<lparr>tasks := dict_set t (tk\<lparr>task_node := n\<rparr>) (tasks s),
                      node_assignments := dict_set n (Some t) (node_assignments s),
                      node_status := dict_set n ''busy'' (node_status s)\<rparr>))"
  by (simp add: assign_task_to_node_def with_lock_def py_simps split: option.splits)

lemma update_task_status_free:
  "\<not> td_locked s \<Longrightarrow> update_task_status t st s =
     (Return (), case dict_get (tasks s) t of
        None \<Rightarrow> s
      | Some tk \<Rightarrow> s\<lparr>tasks := dict_set t (tk\<lparr>task_status := st\<rparr>) (tasks s)\<rparr>)"
  by (simp add: update_task_status_def with_lock_def py_simps dict_has_def split: option.splits)

lemma get_task_status_free:
  "\<not> td_locked s \<Longrightarrow> get_task_status t s =
     (Return (map_option task_status (dict_get (tasks s) t)), s)"
  by (simp add: get_task_status_def with_lock_def py_simps)

lemma get_available_node_free:
  "\<not> td_locked s \<Longrightarrow> get_available_node names rnd s =
     ((if available_nodes s = [] then Return KNone
       else case choose_node names rnd (node_failure_rates s) (available_nodes s) of
              Inl e \<Rightarrow> Raise e | Inr n \<Rightarrow> Return n), s)"
  by (simp add: get_available_node_def with_lock_def py_simps available_nodes_def split: sum.splits)

text \<open>
  \<open>get_node_for_task\<close> calls \<open>get_available_node\<close> while it holds the lock, so it returns only for
  an unknown task or one whose node is still available.
\<close>

definition sticky_node :: "distributor \<Rightarrow> task \<Rightarrow> bool" where
  "sticky_node s t \<longleftrightarrow> key_truthy (task_node t) \<and>
     dict_get (node_status s) (task_node t) = Some ''available''"

lemma get_node_for_task_free:
  "\<not> td_locked s \<Longrightarrow> get_node_for_task names rnd t s =
     (case dict_get (tasks s) t of
        None \<Rightarrow> (Return KNone, s)
      | Some tk \<Rightarrow> if sticky_node s tk then (Return (task_node tk), s)
                   else (Blocked, s\<lparr>td_locked := True\<rparr>))"
  by (auto simp: get_node_for_task_def get_available_node_def with_lock_def py_simps
      sticky_node_def split: option.splits)

lemmas td_free = get_next_task_id_free store_task_free create_task_free register_node_free assign_task_free
  update_task_status_free get_task_status_free get_available_node_free get_node_for_task_free

text \<open>While the lock is held no method that needs it returns, and none changes anything.\<close>

lemma td_busy:
  assumes "td_locked s"
  shows "get_next_task_id s = (Blocked, s)" "create_task d s = (Blocked, s)"
    "register_node i u s = (Blocked, s)" "unregister_node n s = (Blocked, s)"
    "assign_task_to_node t n s = (Blocked, s)" "update_task_status t st s = (Blocked, s)"
    "get_task_status t s = (Blocked, s)" "get_available_node names rnd s = (Blocked, s)"
    "get_node_for_task names rnd t s = (Blocked, s)" "store_task t d s = (Blocked, s)"
proof -
  show id: "get_next_task_id s = (Blocked, s)"
    unfolding get_next_task_id_def by (rule td.with_lock_busy [OF assms])
  show "create_task d s = (Blocked, s)"
    unfolding create_task_def by (simp add: id py_simps)
qed (unfold register_node_def unregister_node_def assign_task_to_node_def update_task_status_def
    get_task_status_def get_available_node_def get_node_for_task_def store_task_def,
    (rule td.with_lock_busy [OF assms])+)

section \<open>The invariant\<close>

text \<open>
  The dictionaries have unique keys; the task ids handed out are positive and at most the counter;
  the two node dictionaries agree on which nodes exist, on who is available and who is busy; and a
  busy node works on a task that exists.
\<close>

definition td_wf :: "distributor \<Rightarrow> bool" where
  "td_wf s \<longleftrightarrow>
     distinct (dict_keys (tasks s)) \<and> distinct (dict_keys (node_assignments s)) \<and>
     distinct (dict_keys (node_status s)) \<and> 0 \<le> task_counter s \<and>
     (\<forall>t. dict_get (tasks s) t \<noteq> None \<longrightarrow> 1 \<le> t \<and> t \<le> task_counter s) \<and>
     (\<forall>n. dict_get (node_status s) n =
        map_option (\<lambda>a. if a = None then ''available'' else ''busy'') (dict_get (node_assignments s) n)) \<and>
     (\<forall>n t. dict_get (node_assignments s) n = Some (Some t) \<longrightarrow> dict_get (tasks s) t \<noteq> None)"

lemma td_wf_init: "td_wf td_init"
  by (simp add: td_wf_def td_init_def)

lemma td_wf_lock [simp]: "td_wf (s\<lparr>td_locked := b\<rparr>) = td_wf s"
  by (simp add: td_wf_def)

lemma td_wf_rates [simp]: "td_wf (s\<lparr>node_failure_rates := r\<rparr>) = td_wf s"
  by (simp add: td_wf_def)

lemmas td_keys = dict.distinct_keys_store dict.distinct_keys_remove

lemma td_wf_distinct:
  assumes "td_wf s"
  shows "distinct (dict_keys (tasks s))" "distinct (dict_keys (node_assignments s))"
    "distinct (dict_keys (node_status s))"
  using assms by (simp_all add: td_wf_def)

lemma td_wf_fresh:
  assumes "td_wf s"
  shows "dict_get (tasks s) (task_counter s + 1) = None"
proof -
  from assms have "dict_get (tasks s) (task_counter s + 1) \<noteq> None \<longrightarrow> task_counter s + 1 \<le> task_counter s"
    unfolding td_wf_def by blast
  then show ?thesis by auto
qed

lemma td_wf_counter: "td_wf s \<Longrightarrow> td_wf (s\<lparr>task_counter := task_counter s + 1\<rparr>)"
  by (fastforce simp: td_wf_def)

lemma td_wf_create:
  "td_wf s \<Longrightarrow> td_wf (s\<lparr>task_counter := task_counter s + 1,
     tasks := dict_set (task_counter s + 1) tk (tasks s)\<rparr>)"
  by (fastforce simp: td_wf_def td_keys)

lemma td_wf_register:
  "td_wf s \<Longrightarrow> td_wf (s\<lparr>node_assignments := dict_set n None (node_assignments s),
     node_status := dict_set n ''available'' (node_status s)\<rparr>)"
  by (auto simp: td_wf_def td_keys)

lemma td_wf_task:
  "td_wf s \<Longrightarrow> dict_get (tasks s) t \<noteq> None \<Longrightarrow> td_wf (s\<lparr>tasks := dict_set t tk (tasks s)\<rparr>)"
  by (auto simp: td_wf_def td_keys)

lemma td_wf_assign:
  "td_wf s \<Longrightarrow> dict_get (tasks s) t \<noteq> None \<Longrightarrow>
   td_wf (s\<lparr>node_assignments := dict_set n (Some t) (node_assignments s),
     node_status := dict_set n ''busy'' (node_status s)\<rparr>)"
  by (auto simp: td_wf_def td_keys)

lemma td_wf_drop_node:
  "td_wf s \<Longrightarrow> td_wf (s\<lparr>node_assignments := dict_del n (node_assignments s),
     node_status := dict_del n (node_status s)\<rparr>)"
  by (auto simp: td_wf_def td_keys)

lemma td_wf_unknown_node:
  "td_wf s \<Longrightarrow> dict_get (node_assignments s) n = None \<Longrightarrow> dict_get (node_status s) n = None"
  by (simp add: td_wf_def)

lemma td_wf_assigned:
  "td_wf s \<Longrightarrow> dict_get (node_assignments s) n = Some (Some t) \<Longrightarrow>
   \<exists>tk. dict_get (tasks s) t = Some tk \<and> 1 \<le> t"
  by (fastforce simp: td_wf_def)

text \<open>Under the invariant \<open>unregister_node\<close> never raises.\<close>

lemma unregister_node_wf:
  assumes "td_wf s" and "\<not> td_locked s"
  shows "\<exists>s'. unregister_node n s = (Return (), s') \<and> td_wf s'"
proof (cases "dict_get (node_assignments s) n")
  case None
  with td_wf_unknown_node [OF assms(1)] assms show ?thesis
    by (simp add: unregister_unknown_free dict_del_absent)
next
  case (Some a)
  show ?thesis
  proof (cases a)
    case None
    with Some assms td_wf_drop_node [OF assms(1), of n] show ?thesis
      by (simp add: unregister_idle_free)
  next
    case (Some t)
    with \<open>dict_get (node_assignments s) n = Some a\<close> td_wf_assigned [OF assms(1)] obtain tk
      where a: "dict_get (node_assignments s) n = Some (Some t)"
        and tk: "dict_get (tasks s) t = Some tk" "t \<noteq> 0" by fastforce
    have "td_wf (s\<lparr>tasks := dict_set t (tk\<lparr>task_status := ''failed'', task_node := KNone\<rparr>) (tasks s)\<rparr>)"
      using assms(1) tk(1) by (intro td_wf_task) simp_all
    from td_wf_drop_node [OF this, of n] show ?thesis
      by (simp add: unregister_busy_free [OF assms(2) a tk(2) tk(1)])
  qed
qed

section \<open>Any sequence of method calls\<close>

datatype td_call =
    CallRegister json json
  | CallUnregister pykey
  | CallAvailable rng
  | CallAssign int pykey
  | CallCreate json
  | CallStatus int
  | CallUpdate int string
  | CallNodeFor rng int
  | CallPoll http

definition forget :: "('s, 'a) py \<Rightarrow> 's \<Rightarrow> unit outcome \<times> 's" where
  "forget m = py_bind m (\<lambda>_. py_return ())"

fun td_invoke :: "string list \<Rightarrow> td_call \<Rightarrow> distributor \<Rightarrow> unit outcome \<times> distributor" where
  "td_invoke names (CallRegister i u) = forget (register_node i u)"
| "td_invoke names (CallUnregister n) = forget (unregister_node n)"
| "td_invoke names (CallAvailable rnd) = forget (get_available_node names rnd)"
| "td_invoke names (CallAssign t n) = forget (assign_task_to_node t n)"
| "td_invoke names (CallCreate d) = forget (create_task d)"
| "td_invoke names (CallStatus t) = forget (get_task_status t)"
| "td_invoke names (CallUpdate t st) = forget (update_task_status t st)"
| "td_invoke names (CallNodeFor rnd t) = forget (get_node_for_task names rnd t)"
| "td_invoke names (CallPoll h) = forget (poll_rates h)"

lemma snd_forget [simp]: "snd (forget m s) = snd (m s)"
  by (simp add: forget_def py_bind_def py_return_def split: prod.splits outcome.splits)

lemma poll_rates_wf: "td_wf s \<Longrightarrow> td_wf (snd (poll_rates h s))"
  by (cases h) (auto simp: py_simps split: option.splits)

lemma td_invoke_wf: "td_wf s \<Longrightarrow> td_wf (snd (td_invoke names c s))"
proof (cases "td_locked s")
  case True
  assume "td_wf s"
  with True show ?thesis by (cases c) (simp_all add: td_busy poll_rates_wf)
next
  case False
  assume wf: "td_wf s"
  show ?thesis
  proof (cases c)
    case (CallRegister i u)
    with wf False show ?thesis by (simp add: td_free td_wf_register split: sum.splits)
  next
    case (CallUnregister n)
    from unregister_node_wf [OF wf False, of n] CallUnregister show ?thesis by auto
  next
    case (CallAssign t n)
    show ?thesis
    proof (cases "dict_get (tasks s) t")
      case (Some tk)
      have "td_wf (s\<lparr>tasks := dict_set t (tk\<lparr>task_node := n\<rparr>) (tasks s)\<rparr>)"
        using wf Some by (intro td_wf_task) simp_all
      from td_wf_assign [OF this, of t n] show ?thesis
        using CallAssign False Some by (simp add: td_free)
    qed (use CallAssign False wf in \<open>simp add: td_free\<close>)
  next
    case (CallCreate d)
    with wf False show ?thesis by (simp add: td_free td_wf_create)
  next
    case (CallUpdate t st)
    with wf False show ?thesis by (auto simp: td_free td_wf_task split: option.splits)
  qed (use wf False in \<open>auto simp: td_free poll_rates_wf split: option.splits\<close>)
qed

interpretation td_calls: request_server "td_invoke names" td_wf for names
  by unfold_locales (rule td_invoke_wf)

section \<open>The HTTP server\<close>

text \<open>
  The requests of the routes, and the rounds of the polling thread between them.  \<open>PostTask\<close> comes
  with the random numbers its handler would draw.
\<close>

datatype td_event =
    PostNode json
  | DeleteNode string
  | PostTask rng json
  | GetStatus string
  | PollRound http

fun td_handle :: "string list \<Rightarrow> td_event \<Rightarrow> distributor \<Rightarrow> reply option \<times> distributor" where
  "td_handle names (PostNode data) s = apfst Some (run_view (register_node_view data) s)"
| "td_handle names (DeleteNode n) s = apfst Some (run_view (unregister_node_view n) s)"
| "td_handle names (PostTask rnd data) s = apfst Some (run_view (create_task_view names rnd data) s)"
| "td_handle names (GetStatus t) s = apfst Some (run_view (get_task_status_view t) s)"
| "td_handle names (PollRound h) s = (None, snd (poll_rates h s))"

text \<open>Posting a task when the lock is free: the new task is recorded, then the handler blocks.\<close>

lemma create_task_view_free:
  assumes "\<not> td_locked s"
  shows "create_task_view names rnd d s =
     (Blocked, s\<lparr>task_counter := task_counter s + 1,
        tasks := dict_set (task_counter s + 1)
          \<lparr>task_data = d, task_status = ''pending'', task_node = KNone\<rparr> (tasks s),
        td_locked := True\<rparr>)"
  by (simp add: create_task_view_def py_simps create_task_free [OF assms] get_node_for_task_free
      assms sticky_node_def key_truthy_def)

text \<open>
  What a request gets while the lock is held for ever: it hangs, but for one that fails before its view
  asks for the lock, in reading the fields of its body or the number in its path.
\<close>

definition early_error :: "td_event \<Rightarrow> exn option" where
  "early_error q = (case q of
       PostNode data \<Rightarrow> (case res_bind (json_index data ''node_id'') (\<lambda>_. json_index data ''node_url'') of
           Inl e \<Rightarrow> Some e | Inr _ \<Rightarrow> None)
     | GetStatus t \<Rightarrow> (case py_int (JStr t) of Inl e \<Rightarrow> Some e | Inr _ \<Rightarrow> None)
     | _ \<Rightarrow> None)"

definition stuck_reply :: "td_event \<Rightarrow> reply option" where
  "stuck_reply q = (case q of
       PollRound h \<Rightarrow> None
     | _ \<Rightarrow> Some (case early_error q of None \<Rightarrow> Hang | Some e \<Rightarrow> Crash e))"

text \<open>The state but for the polled rates.\<close>

definition same_tables :: "distributor \<Rightarrow> distributor \<Rightarrow> bool" where
  "same_tables s t \<longleftrightarrow> t\<lparr>node_failure_rates := node_failure_rates s\<rparr> = s"

lemma poll_rates_tables: "same_tables s (snd (poll_rates h s))"
  by (cases h) (auto simp: py_simps same_tables_def split: option.splits)

lemma same_tables_refl [simp]: "same_tables s s"
  by (simp add: same_tables_def)

lemma same_tables_trans: "same_tables s t \<Longrightarrow> same_tables t u \<Longrightarrow> same_tables s u"
  by (cases s; cases t; cases u) (auto simp: same_tables_def)

lemma same_tables_locked: "same_tables s t \<Longrightarrow> td_locked t = td_locked s"
  by (cases s; cases t) (auto simp: same_tables_def)

lemma register_node_view_busy:
  "td_locked s \<Longrightarrow> register_node_view data s =
     ((case early_error (PostNode data) of None \<Rightarrow> Blocked | Some e \<Rightarrow> Raise e), s)"
  by (cases "json_index data ''node_id''"; cases "json_index data ''node_url''")
     (simp_all add: early_error_def register_node_view_def py_simps td_busy)

lemma get_task_status_view_busy:
  "td_locked s \<Longrightarrow> get_task_status_view t s =
     ((case early_error (GetStatus t) of None \<Rightarrow> Blocked | Some e \<Rightarrow> Raise e), s)"
  by (cases "py_int (JStr t)")
     (simp_all add: early_error_def get_task_status_view_def py_simps td_busy del: py_int.simps)

lemma td_handle_busy:
  assumes "td_locked s"
  shows "fst (td_handle names q s) = stuck_reply q \<and> same_tables s (snd (td_handle names q s))"
proof (cases q)
  case (PostNode data)
  with register_node_view_busy [OF assms, of data] show ?thesis
    by (simp add: run_view_def stuck_reply_def split: option.splits)
next
  case (GetStatus t)
  with get_task_status_view_busy [OF assms, of t] show ?thesis
    by (simp add: run_view_def stuck_reply_def split: option.splits)
qed (use assms in \<open>simp_all add: run_view_def unregister_node_view_def create_task_view_def py_simps
      td_busy stuck_reply_def early_error_def poll_rates_tables\<close>)

lemma serve_busy:
  "td_locked s \<Longrightarrow> fst (serve (td_handle names) qs s) = map stuck_reply qs \<and>
     same_tables s (snd (serve (td_handle names) qs s))"
proof (induction qs arbitrary: s)
  case Nil
  then show ?case by simp
next
  case (Cons q qs)
  note step = td_handle_busy [OF Cons.prems, of names q]
  then have "td_locked (snd (td_handle names q s))"
    using Cons.prems same_tables_locked by blast
  from Cons.IH [OF this] step show ?case
    by (auto simp: Let_def case_prod_beta intro: same_tables_trans)
qed

section \<open>Choosing a node\<close>

text \<open>What the \<open>random\<close> module promises: the drawn positions are positions of the list.\<close>

definition rng_ok :: "rng \<Rightarrow> bool" where
  "rng_ok rnd \<longleftrightarrow> (\<forall>n. 0 < n \<longrightarrow> pick rnd n < n) \<and>
     (\<forall>ws i. pick_weighted rnd ws = Inr i \<longrightarrow> i < length ws)"

lemma random_choice_in:
  "rng_ok rnd \<Longrightarrow> nodes \<noteq> [] \<Longrightarrow> random_choice names rnd nodes = Inr n \<Longrightarrow> n \<in> set nodes"
  by (auto simp: random_choice_def rng_ok_def split: if_splits)

lemma random_choices_in:
  "rng_ok rnd \<Longrightarrow> length ws = length nodes \<Longrightarrow> random_choices names rnd nodes ws = Inr n \<Longrightarrow>
   n \<in> set nodes"
  by (auto simp: random_choices_def rng_ok_def res_bind_eq_Inr split: if_splits) (metis nth_mem)

lemma choose_node_in:
  assumes "rng_ok rnd" "nodes \<noteq> []" "choose_node names rnd rates nodes = Inr n"
  shows "n \<in> set nodes"
proof -
  from assms(3) consider "random_choice names rnd nodes = Inr n"
    | ws t where "res_mapM (node_weight rates) nodes = Inr ws"
        "random_choices names rnd nodes (normalize_weights ws t) = Inr n"
    by (auto simp: choose_node_def res_bind_eq_Inr Let_def split: if_splits)
  then show ?thesis
  proof cases
    case 1
    with assms show ?thesis by (blast intro: random_choice_in)
  next
    case (2 ws t)
    then have "length (normalize_weights ws t) = length nodes"
      by (auto simp: normalize_weights_def res_mapM_Inr_iff dest: list_all2_lengthD)
    with 2 assms(1) show ?thesis by (blast intro: random_choices_in)
  qed
qed

lemma available_nodes_status:
  "distinct (dict_keys (node_status s)) \<Longrightarrow> n \<in> set (available_nodes s) \<longleftrightarrow>
   dict_get (node_status s) n = Some ''available''"
  by (force simp: available_nodes_def map_of_eq_Some_iff)

lemma choose_node_no_random:
  "''random'' \<notin> set names \<Longrightarrow> \<exists>e. choose_node names rnd rates nodes = Inl e"
  by (cases "all_rated rates nodes"; cases "res_mapM (node_weight rates) nodes")
     (auto simp: choose_node_def random_choice_def random_choices_def Let_def)

text \<open>Rates the server is documented to send: a number for each node id.\<close>

definition numeric_rates :: "json \<Rightarrow> bool" where
  "numeric_rates rates \<longleftrightarrow>
     (\<exists>kvs. rates = JObj kvs \<and> (\<forall>k v. dict_get kvs k = Some v \<longrightarrow> (\<exists>x. py_number v = Inr x)))"

lemma numeric_all_rated: "numeric_rates rates \<Longrightarrow> \<exists>b. all_rated rates nodes = Inr b"
  by (induction nodes) (auto simp: numeric_rates_def)

lemma numeric_weights: "numeric_rates rates \<Longrightarrow> \<exists>ws. res_mapM (node_weight rates) nodes = Inr ws"
proof (induction nodes)
  case (Cons n ns)
  then obtain ws where "res_mapM (node_weight rates) ns = Inr ws" by blast
  moreover from Cons.prems have "\<exists>w. node_weight rates n = Inr w"
    by (fastforce simp: numeric_rates_def node_weight_def res_bind_def
        split: pykey.splits option.splits sum.splits)
  ultimately show ?case by auto
qed simp

lemma choose_node_name_error:
  assumes "''random'' \<notin> set names" "numeric_rates rates"
  shows "choose_node names rnd rates nodes = Inl (NameError ''random'')"
  using numeric_all_rated [OF assms(2), of nodes] numeric_weights [OF assms(2), of nodes] assms(1)
  by (auto simp: choose_node_def random_choice_def random_choices_def Let_def)

section \<open>Weights\<close>

lemma sum_weights_Fin: "foldl pf_add (Fin a) (map (\<lambda>k. Fin (f k)) ks) = Fin (a + sum_list (map f ks))"
  by (induction ks arbitrary: a) (simp_all add: add.assoc)

lemma sum_list_divide: "sum_list (map (\<lambda>k. f k / c) ks) = sum_list (map f ks) / (c :: rat)"
  by (induction ks) (simp_all add: add_divide_distrib)

lemma node_weights_Fin:
  assumes "\<And>k. k \<in> set ks \<Longrightarrow> dict_get kvs k = Some (JFloat (Fin (rate k)))"
  shows "res_mapM (node_weight (JObj kvs)) (map KStr ks) = Inr (map (\<lambda>k. Fin (1 - rate k)) ks)"
  using assms by (induction ks) (auto simp: node_weight_def pf_sub_def)

section \<open>Properties\<close>

text \<open>C30: Every sequence of method calls, with any arguments and any random draws, from the fresh
  distributor, keeps the dictionaries consistent: unique keys, task ids between one and the counter,
  a node is in both node dictionaries or in neither, it is available exactly when it has no task, and
  the task a node works on exists.\<close>

theorem td_calls_keep_invariant:
  "td_wf (snd (serve (td_invoke names) calls td_init))"
  by (rule td_calls.serve_good [OF td_wf_init])

text \<open>C1: POST /tasks never returns: from any state with the lock free, whatever nodes are available
  and even if \<open>random\<close> were imported, the handler records the pending task and then waits for the
  lock it holds.  From then on no request that reaches a view is served: each hangs like the first one, but one that
  is malformed (a body without a node's id or URL, a task number that is not a number) still gets its
  server error, before its view asks for the lock; and the tables never change again.\<close>

theorem post_task_deadlocks:
  assumes "\<not> td_locked s"
  shows "let (replies, s') = serve (td_handle names) (PostTask rnd d # qs) s in
     replies = Some Hang # map stuck_reply qs \<and> td_locked s' \<and>
     same_tables (s\<lparr>task_counter := task_counter s + 1,
        tasks := dict_set (task_counter s + 1)
          \<lparr>task_data = d, task_status = ''pending'', task_node = KNone\<rparr> (tasks s),
        td_locked := True\<rparr>) s'"
proof -
  let ?s = "s\<lparr>task_counter := task_counter s + 1,
        tasks := dict_set (task_counter s + 1)
          \<lparr>task_data = d, task_status = ''pending'', task_node = KNone\<rparr> (tasks s),
        td_locked := True\<rparr>"
  have first: "td_handle names (PostTask rnd d) s = (Some Hang, ?s)"
    by (simp add: create_task_view_free [OF assms] run_view_def)
  have "td_locked ?s" by simp
  note rest = serve_busy [OF this, of names qs]
  then have "td_locked (snd (serve (td_handle names) qs ?s))"
    using same_tables_locked by fastforce
  with first rest show ?thesis
    by (simp add: Let_def case_prod_beta)
qed

theorem post_task_deadlocks_witness:
  "fst (serve (td_handle td_globals)
      [PostNode (JObj [(''node_id'', JStr ''n1''), (''node_url'', JStr ''u'')]),
       PostTask \<lparr>pick = \<lambda>_. 0, pick_weighted = \<lambda>_. Inr 0\<rparr> (JInt 1), GetStatus ''1'', GetStatus ''x''] td_init)
   = [Some (Reply 200 (JObj [(''message'', JStr ''Node registered''), (''node_id'', JStr ''n1'')])),
      Some Hang, Some Hang, Some (Crash ValueError)]"
proof -
  let ?rnd = "\<lparr>pick = \<lambda>_. 0, pick_weighted = \<lambda>_. Inr 0\<rparr> :: rng"
  let ?post = "PostNode (JObj [(''node_id'', JStr ''n1''), (''node_url'', JStr ''u'')])"
  define s where "s = td_init\<lparr>node_assignments := [(KStr ''n1'', None)],
    node_status := [(KStr ''n1'', ''available'')]\<rparr>"
  have free: "\<not> td_locked s" "\<not> td_locked td_init" by (simp_all add: s_def td_init_def)
  have post: "td_handle td_globals ?post td_init =
     (Some (Reply 200 (JObj [(''message'', JStr ''Node registered''), (''node_id'', JStr ''n1'')])), s)"
    by (simp add: register_node_view_def py_simps register_node_free free(2) run_view_def)
       (simp add: s_def td_init_def)
  have read: "py_int (JStr ''1'') = Inr 1" "py_int (JStr ''x'') = Inl ValueError"
    by (simp_all add: int_of_str_def strip_def is_space_def digit_val_def)
  have "fst (serve (td_handle td_globals) [PostTask ?rnd (JInt 1), GetStatus ''1'', GetStatus ''x''] s) =
      [Some Hang, Some Hang, Some (Crash ValueError)]"
    using post_task_deadlocks [OF free(1), of td_globals ?rnd "JInt 1" "[GetStatus ''1'', GetStatus ''x'']"] read
    by (simp add: case_prod_beta stuck_reply_def early_error_def del: serve.simps td_handle.simps py_int.simps)
  with post show ?thesis by (simp add: Let_def case_prod_beta del: td_handle.simps)
qed

text \<open>C34: Unregistering a node that works on a task returns normally in every consistent state: the node
  leaves both node dictionaries, its task is marked failed and has no node, and every other node,
  assignment and task is as before.  The task is not handed to another node.\<close>

theorem unregister_fails_task:
  assumes "td_wf s" "\<not> td_locked s" "dict_get (node_assignments s) n = Some (Some t)"
  shows "\<exists>tk s'. dict_get (tasks s) t = Some tk \<and> unregister_node n s = (Return (), s') \<and>
     dict_get (node_assignments s') = (dict_get (node_assignments s))(n := None) \<and>
     dict_get (node_status s') = (dict_get (node_status s))(n := None) \<and>
     dict_get (tasks s') = (dict_get (tasks s))
       (t \<mapsto> tk\<lparr>task_status := ''failed'', task_node := KNone\<rparr>) \<and>
     task_counter s' = task_counter s \<and> \<not> td_locked s'"
proof -
  obtain tk where tk: "dict_get (tasks s) t = Some tk" "t \<noteq> 0"
    using td_wf_assigned [OF assms(1,3)] by fastforce
  show ?thesis
    by (rule exI [of _ tk], rule exI [of _ "snd (unregister_node n s)"])
       (simp add: unregister_busy_free [OF assms(2,3) tk(2,1)] tk(1) fun_eq_iff assms(2))
qed

theorem unregister_fails_task_witness:
  "\<exists>s'. unregister_node (KStr ''n1'')
       (td_init\<lparr>tasks := [(1, \<lparr>task_data = JNull, task_status = ''running'', task_node = KStr ''n1''\<rparr>)],
          node_assignments := [(KStr ''n1'', Some 1)], node_status := [(KStr ''n1'', ''busy'')],
          task_counter := 1\<rparr>) = (Return (), s') \<and>
     dict_get (tasks s') 1 = Some \<lparr>task_data = JNull, task_status = ''failed'', task_node = KNone\<rparr>"
proof -
  let ?s = "td_init\<lparr>tasks := [(1, \<lparr>task_data = JNull, task_status = ''running'', task_node = KStr ''n1''\<rparr>)],
          node_assignments := [(KStr ''n1'', Some 1)], node_status := [(KStr ''n1'', ''busy'')],
          task_counter := 1\<rparr>"
  have "td_wf ?s" "\<not> td_locked ?s" "dict_get (node_assignments ?s) (KStr ''n1'') = Some (Some 1)"
    by (simp_all add: td_wf_def td_init_def)
  from unregister_fails_task [OF this] show ?thesis by auto
qed

text \<open>A created task gets the next number, which no task had; it is stored pending and unassigned
  and no other task changes.\<close>

lemma create_task_fresh:
  assumes "td_wf s" "\<not> td_locked s"
  shows "\<exists>s'. create_task d s = (Return (task_counter s + 1), s') \<and>
     dict_get (tasks s) (task_counter s + 1) = None \<and>
     dict_get (tasks s') = (dict_get (tasks s)) (task_counter s + 1 \<mapsto>
        \<lparr>task_data = d, task_status = ''pending'', task_node = KNone\<rparr>) \<and>
     task_counter s' = task_counter s + 1 \<and> td_wf s' \<and> \<not> td_locked s'"
  using td_wf_create [OF assms(1)] td_wf_fresh [OF assms(1)] assms(2)
  by (auto simp: create_task_free fun_eq_iff)

lemma create_task_fresh_witness:
  "\<exists>s'. create_task (JStr ''job'') td_init = (Return 1, s') \<and> td_wf s'"
  using create_task_fresh [OF td_wf_init, of "JStr ''job''"] by (auto simp: td_init_def)

text \<open>The node search never succeeds as the file stands: with the names the module binds,
  \<open>get_available_node\<close> returns no node if none is available and raises otherwise, a \<open>NameError\<close>
  for \<open>random\<close> when the polled rates are numbers.  With \<open>random\<close> bound it would return an available
  node.\<close>

theorem get_available_node_result:
  assumes "\<not> td_locked s" "td_wf s" "rng_ok rnd"
  shows "(available_nodes s = [] \<longrightarrow> get_available_node names rnd s = (Return KNone, s)) \<and>
     (available_nodes s \<noteq> [] \<longrightarrow> (\<exists>e. get_available_node td_globals rnd s = (Raise e, s) \<and>
        (numeric_rates (node_failure_rates s) \<longrightarrow> e = NameError ''random''))) \<and>
     (\<forall>n s'. get_available_node names rnd s = (Return n, s') \<and> available_nodes s \<noteq> [] \<longrightarrow>
        dict_get (node_status s) n = Some ''available'' \<and>
        dict_get (node_assignments s) n = Some None \<and> s' = s)"
proof -
  have no: "''random'' \<notin> set td_globals" by (simp add: td_globals_def)
  have "available_nodes s \<noteq> [] \<longrightarrow> (\<exists>e. get_available_node td_globals rnd s = (Raise e, s) \<and>
        (numeric_rates (node_failure_rates s) \<longrightarrow> e = NameError ''random''))"
    using choose_node_no_random [OF no, of rnd "node_failure_rates s" "available_nodes s"]
      choose_node_name_error [OF no, of "node_failure_rates s" rnd "available_nodes s"]
    by (auto simp: get_available_node_free [OF assms(1)])
  moreover have "dict_get (node_status s) n = Some ''available'' \<and>
        dict_get (node_assignments s) n = Some None \<and> s' = s"
    if "get_available_node names rnd s = (Return n, s') \<and> available_nodes s \<noteq> []" for n s'
  proof -
    from that have "choose_node names rnd (node_failure_rates s) (available_nodes s) = Inr n" "s' = s"
      by (auto simp: get_available_node_free [OF assms(1)] split: sum.splits)
    then have "dict_get (node_status s) n = Some ''available''"
      using choose_node_in [OF assms(3)] that available_nodes_status [OF td_wf_distinct(3) [OF assms(2)]]
      by blast
    with \<open>s' = s\<close> assms(2) show ?thesis by (auto simp: td_wf_def split: if_splits)
  qed
  ultimately show ?thesis by (simp add: get_available_node_free [OF assms(1)])
qed

theorem get_available_node_result_witness:
  "\<exists>e. get_available_node td_globals \<lparr>pick = \<lambda>_. 0, pick_weighted = \<lambda>ws. Inl ValueError\<rparr>
     (td_init\<lparr>node_assignments := [(KStr ''n1'', None)], node_status := [(KStr ''n1'', ''available'')]\<rparr>)
     = (Raise e, td_init\<lparr>node_assignments := [(KStr ''n1'', None)],
                        node_status := [(KStr ''n1'', ''available'')]\<rparr>)"
proof -
  let ?s = "td_init\<lparr>node_assignments := [(KStr ''n1'', None)], node_status := [(KStr ''n1'', ''available'')]\<rparr>"
  let ?rnd = "\<lparr>pick = \<lambda>_. 0, pick_weighted = \<lambda>ws. Inl ValueError\<rparr> :: rng"
  have "\<not> td_locked ?s" "td_wf ?s" "rng_ok ?rnd"
    by (simp_all add: td_wf_def td_init_def rng_ok_def)
  from get_available_node_result [OF this, of td_globals] show ?thesis
    by (auto simp: available_nodes_def)
qed

text \<open>The weights given to \<open>random.choices\<close> (in exact arithmetic): with a rate for every available
  node they sum to one, and a node with the lower failure rate has the higher weight.\<close>

lemma normalized_weights:
  fixes rate :: "string \<Rightarrow> rat"
  assumes rates: "\<And>k. k \<in> set ks \<Longrightarrow> dict_get kvs k = Some (JFloat (Fin (rate k)))"
    and tot: "tot = sum_list (map (\<lambda>k. 1 - rate k) ks)" and pos: "0 < tot"
  shows "\<exists>ws. res_mapM (node_weight (JObj kvs)) (map KStr ks) = Inr ws \<and>
     pf_less (Fin 0) (sum_weights ws) \<and>
     sum_weights (normalize_weights ws (sum_weights ws)) = Fin 1 \<and>
     (\<forall>i < length ks. \<forall>j < length ks. rate (ks ! i) < rate (ks ! j) \<longrightarrow>
        pf_less (normalize_weights ws (sum_weights ws) ! j) (normalize_weights ws (sum_weights ws) ! i))"
proof -
  let ?ws = "map (\<lambda>k. Fin (1 - rate k)) ks"
  have sum: "sum_weights ?ws = Fin tot"
    by (simp add: sum_weights_def sum_weights_Fin tot)
  have norm: "normalize_weights ?ws (Fin tot) = map (\<lambda>k. Fin ((1 - rate k) / tot)) ks"
    by (simp add: normalize_weights_def)
  have "sum_list (map (\<lambda>k. (1 - rate k) / tot) ks) = tot / tot"
    by (simp add: tot sum_list_divide)
  then have "sum_weights (map (\<lambda>k. Fin ((1 - rate k) / tot)) ks) = Fin 1"
    using pos by (simp add: sum_weights_def sum_weights_Fin)
  with sum norm pos node_weights_Fin [of ks kvs rate, OF rates] show ?thesis
    by (auto simp: divide_strict_right_mono)
qed

lemma normalized_weights_witness:
  "\<exists>ws. res_mapM (node_weight (JObj [(''a'', JFloat (Fin (1/4))), (''b'', JFloat (Fin (3/4)))]))
      (map KStr [''a'', ''b'']) = Inr ws \<and>
    sum_weights (normalize_weights ws (sum_weights ws)) = Fin 1"
proof -
  let ?rate = "\<lambda>k. if k = ''a'' then 1/4 else 3/4 :: rat"
  let ?kvs = "[(''a'', JFloat (Fin (1/4))), (''b'', JFloat (Fin (3/4)))]"
  have "dict_get ?kvs k = Some (JFloat (Fin (?rate k)))" if "k \<in> set [''a'', ''b'']" for k
    using that by auto
  from normalized_weights [of "[''a'', ''b'']" ?kvs ?rate 1, OF this] show ?thesis by auto
qed

end
