(* ===== verification/Td_Threads.thy ===== *)
theory Td_Threads
  imports Task_Distributor
begin

text \<open>
  The task distributor as it runs: the web server gives every request a thread of its own, and the thread
  that polls the failure probabilities runs beside them.  A step of a request takes the lock, runs one
  critical section and releases it; between two sections of \<open>POST /tasks\<close> any other thread may run.  The
  polling thread takes no lock.  The sections are the methods of \<open>Task_Distributor\<close>.
\<close>

section \<open>Threads\<close>

datatype td_pc =
    RegisterCall json json          \<comment> \<open>about to enter \<open>register_node\<close>\<close>
  | UnregisterCall string
  | NextId json
  | StoreTask int json              \<comment> \<open>has its number\<close>
  | FindNode int
  | Reentered int                   \<comment> \<open>holds the lock in \<open>get_node_for_task\<close>, wants it in \<open>get_available_node\<close>\<close>
  | AssignNode int pykey
  | MarkRunning int pykey
  | ReadStatus string int
  | Answered reply

text \<open>Before its first critical section a view only reads its own request.\<close>

fun td_arrive :: "td_event \<Rightarrow> td_pc option" where
  "td_arrive (PostNode data) = Some (case json_index data ''node_id'' of
       Inl e \<Rightarrow> Answered (Crash e)
     | Inr node_id \<Rightarrow> (case json_index data ''node_url'' of
           Inl e \<Rightarrow> Answered (Crash e)
         | Inr node_url \<Rightarrow> RegisterCall node_id node_url))"
| "td_arrive (DeleteNode n) = Some (UnregisterCall n)"
| "td_arrive (PostTask rnd data) = Some (NextId data)"
| "td_arrive (GetStatus text) = Some (case py_int (JStr text) of
       Inl e \<Rightarrow> Answered (Crash e)
     | Inr n \<Rightarrow> ReadStatus text n)"
| "td_arrive (PollRound h) = None"

text \<open>A call that has to wait for the lock leaves the thread where it is.\<close>

definition section_step ::
  "(distributor, 'a) py \<Rightarrow> ('a \<Rightarrow> td_pc) \<Rightarrow> td_pc \<Rightarrow> distributor \<Rightarrow> td_pc \<times> distributor" where
  "section_step m continue here d = (case m d of
       (Return x, d') \<Rightarrow> (continue x, d')
     | (Raise e, d') \<Rightarrow> (Answered (Crash e), d')
     | (Blocked, d') \<Rightarrow> (here, d'))"

text \<open>
  The node search takes the lock, and if it has to search among the available nodes it asks for the lock
  again: from then on the thread waits for itself.
\<close>

fun td_advance :: "string list \<Rightarrow> rng \<Rightarrow> td_pc \<Rightarrow> distributor \<Rightarrow> td_pc \<times> distributor" where
  "td_advance names rnd (RegisterCall i u) = section_step (register_node i u)
     (\<lambda>_. Answered (Reply 200 (JObj [(''message'', JStr ''Node registered''), (''node_id'', i)]))) (RegisterCall i u)"
| "td_advance names rnd (UnregisterCall n) = section_step (unregister_node (KStr n))
     (\<lambda>_. Answered (Reply 200 (JObj [(''message'', JStr (''Node '' @ n @ '' unregistered''))]))) (UnregisterCall n)"
| "td_advance names rnd (NextId data) = section_step get_next_task_id (\<lambda>t. StoreTask t data) (NextId data)"
| "td_advance names rnd (StoreTask t data) = section_step (store_task t data) FindNode (StoreTask t data)"
| "td_advance names rnd (FindNode t) = (\<lambda>d. section_step (get_node_for_task names rnd t)
     (\<lambda>n. if key_truthy n then AssignNode t n
          else Answered (Reply 503 (JObj [(''message'', JStr ''Task created but no node available''),
                 (''task_id'', JInt t)])))
     (if td_locked d then FindNode t else Reentered t) d)"
| "td_advance names rnd (Reentered t) = Pair (Reentered t)"
| "td_advance names rnd (AssignNode t n) =
     section_step (assign_task_to_node t n) (\<lambda>_. MarkRunning t n) (AssignNode t n)"
| "td_advance names rnd (MarkRunning t n) = section_step (update_task_status t ''running'')
     (\<lambda>_. Answered (Reply 200 (JObj [(''message'', JStr ''Task created and assigned''),
              (''task_id'', JInt t), (''node_id'', key_json n)]))) (MarkRunning t n)"
| "td_advance names rnd (ReadStatus text t) = section_step (get_task_status t)
     (\<lambda>st. Answered (if st = None \<or> st = Some [] then Reply 404 (JObj [(''error'', JStr ''Task not found'')])
           else Reply 200 (JObj [(''task_id'', JStr text), (''status'', JStr (the st))]))) (ReadStatus text t)"
| "td_advance names rnd (Answered r) = Pair (Answered r)"

text \<open>
  The running server: \<open>threads\<close> holds every request received with the place its thread has reached, in
  order of arrival; the poller is alive until an error it does not catch.
\<close>

record td_run =
  dist :: distributor
  threads :: "(td_event \<times> td_pc) list"
  polling :: bool
  server_url :: string

definition td_start :: "environ \<Rightarrow> td_run" where
  "td_start env = \<lparr>dist = td_init, threads = [], polling = True,
     server_url = getenv env ''C4D_SERVER_URL'' ''http://c4d-server:8091''\<rparr>"

inductive td_step :: "string list \<Rightarrow> td_run \<Rightarrow> td_run \<Rightarrow> bool" for names where
  arrive: "td_arrive q = Some p \<Longrightarrow> td_step names s (s\<lparr>threads := threads s @ [(q, p)]\<rparr>)"
| run: "i < length (threads s) \<Longrightarrow> threads s ! i = (q, p) \<Longrightarrow>
    td_advance names rnd p (dist s) = (p', d) \<Longrightarrow>
    td_step names s (s\<lparr>dist := d, threads := (threads s)[i := (q, p')]\<rparr>)"
| poll: "polling s \<Longrightarrow> poll_rates h (dist s) = (Return (), d) \<Longrightarrow> td_step names s (s\<lparr>dist := d\<rparr>)"
| poll_dies: "polling s \<Longrightarrow> poll_rates h (dist s) = (Raise e, d) \<Longrightarrow>
    td_step names s (s\<lparr>dist := d, polling := False\<rparr>)"

inductive td_reachable :: "string list \<Rightarrow> environ \<Rightarrow> td_run \<Rightarrow> bool" for names env where
  start: "td_reachable names env (td_start env)"
| step: "td_reachable names env s \<Longrightarrow> td_step names s t \<Longrightarrow> td_reachable names env t"

section \<open>One section\<close>

text \<open>While the lock is held every thread stays where it is.\<close>

lemma td_advance_locked: "td_locked d \<Longrightarrow> td_advance names rnd p d = (p, d)"
  by (cases p) (simp_all add: section_step_def td_busy)

lemma section_step_apply [py_simps]:
  "m d = (Return x, d') \<Longrightarrow> section_step m k here d = (k x, d')"
  "m d = (Raise e, d') \<Longrightarrow> section_step m k here d = (Answered (Crash e), d')"
  "m d = (Blocked, d') \<Longrightarrow> section_step m k here d = (here, d')"
  by (simp_all add: section_step_def)

text \<open>The task a thread of \<open>POST /tasks\<close> works for.\<close>

fun pc_task :: "td_pc \<Rightarrow> int option" where
  "pc_task (StoreTask t data) = Some t"
| "pc_task (FindNode t) = Some t"
| "pc_task (Reentered t) = Some t"
| "pc_task (AssignNode t n) = Some t"
| "pc_task (MarkRunning t n) = Some t"
| "pc_task _ = None"

text \<open>No task is with a node.\<close>

definition unplaced :: "distributor \<Rightarrow> bool" where
  "unplaced d \<longleftrightarrow>
     (\<forall>t tk. dict_get (tasks d) t = Some tk \<longrightarrow> task_status tk = ''pending'' \<and> task_node tk = KNone) \<and>
     (\<forall>n a. dict_get (node_assignments d) n = Some a \<longrightarrow> a = None)"

definition pc_ok :: "distributor \<Rightarrow> td_pc \<Rightarrow> bool" where
  "pc_ok d p \<longleftrightarrow> (case p of
       StoreTask t data \<Rightarrow> t \<le> task_counter d \<and> 1 \<le> t \<and> dict_get (tasks d) t = None
     | FindNode t \<Rightarrow> dict_get (tasks d) t \<noteq> None
     | Reentered t \<Rightarrow> dict_get (tasks d) t \<noteq> None \<and> td_locked d
     | AssignNode t n \<Rightarrow> False
     | MarkRunning t n \<Rightarrow> False
     | _ \<Rightarrow> True)"

text \<open>The thread of a request is at one of the request's own sections; posting a task never gets past the
  search for a node.\<close>

fun at_section :: "td_event \<Rightarrow> td_pc \<Rightarrow> bool" where
  "at_section (PostTask rnd data) p \<longleftrightarrow>
     p = NextId data \<or> (\<exists>t. p = StoreTask t data \<or> p = FindNode t \<or> p = Reentered t)"
| "at_section q p \<longleftrightarrow> pc_task p = None \<and> (\<forall>data. p \<noteq> NextId data)"

lemma td_wf_store:
  assumes "td_wf d" "1 \<le> t" "t \<le> task_counter d"
  shows "td_wf (d\<lparr>tasks := dict_set t tk (tasks d)\<rparr>)"
  using assms by (auto simp: td_wf_def td_keys)

lemma unplaced_unregister:
  assumes "td_wf d" "unplaced d" "\<not> td_locked d"
  shows "\<exists>d'. unregister_node n d = (Return (), d') \<and> td_wf d' \<and> unplaced d' \<and> tasks d' = tasks d \<and>
     task_counter d' = task_counter d \<and> td_locked d' = td_locked d"
proof (cases "dict_get (node_assignments d) n")
  case None
  with td_wf_unknown_node [OF assms(1)] assms show ?thesis
    by (simp add: unregister_unknown_free dict_del_absent)
next
  case (Some a)
  with assms(2) have "a = None" by (simp add: unplaced_def)
  with Some assms td_wf_drop_node [OF assms(1), of n] show ?thesis
    by (simp add: unregister_idle_free unplaced_def)
qed

lemma unplaced_register:
  "unplaced d \<Longrightarrow> unplaced (d\<lparr>node_assignments := dict_set n None (node_assignments d), node_status := m\<rparr>)"
  by (auto simp: unplaced_def split: if_splits)

lemma unplaced_store:
  "unplaced d \<Longrightarrow> unplaced (d\<lparr>tasks := dict_set t
     \<lparr>task_data = data, task_status = ''pending'', task_node = KNone\<rparr> (tasks d)\<rparr>)"
  by (auto simp: unplaced_def split: if_splits)

lemma unplaced_frame [simp]:
  "unplaced (d\<lparr>task_counter := c\<rparr>) = unplaced d" "unplaced (d\<lparr>td_locked := b\<rparr>) = unplaced d"
  "unplaced (d\<lparr>node_failure_rates := r\<rparr>) = unplaced d"
  by (simp_all add: unplaced_def)

lemma at_section_advance:
  "at_section q (RegisterCall i u) \<Longrightarrow> at_section q (Answered r)"
  "at_section q (UnregisterCall n) \<Longrightarrow> at_section q (Answered r)"
  "at_section q (ReadStatus txt m) \<Longrightarrow> at_section q (Answered r)"
  "at_section q (NextId data) \<Longrightarrow> at_section q (StoreTask t data)"
  "at_section q (StoreTask t data) \<Longrightarrow> at_section q (FindNode t)"
  "at_section q (FindNode t) \<Longrightarrow> at_section q (Reentered t)"
  by (cases q; simp)+

text \<open>What one section does when the lock is free.\<close>

lemma advance_effect:
  assumes "td_wf d" "unplaced d" "pc_ok d p" "\<not> td_locked d" "td_advance names rnd p d = (p', d')"
  shows "td_wf d' \<and> unplaced d' \<and> pc_ok d' p' \<and> (\<forall>q. at_section q p \<longrightarrow> at_section q p') \<and> task_counter d \<le> task_counter d' \<and>
     (\<forall>t. pc_task p \<noteq> Some t \<longrightarrow> dict_get (tasks d') t = dict_get (tasks d) t) \<and>
     (pc_task p' = pc_task p \<or> pc_task p = None \<and> pc_task p' = Some (task_counter d + 1) \<and>
        task_counter d' = task_counter d + 1) \<and>
     (td_locked d' \<longleftrightarrow> (\<exists>t. p' = Reentered t))"
proof (cases p)
  case (RegisterCall i u)
  with assms show ?thesis
    by (auto simp: td_free td_wf_register unplaced_register section_step_def pc_ok_def at_section_advance split: sum.splits)
next
  case (UnregisterCall n)
  with unplaced_unregister [OF assms(1,2,4), of "KStr n"] assms show ?thesis
    by (auto simp: section_step_def pc_ok_def at_section_advance)
next
  case (NextId data)
  with assms td_wf_counter [OF assms(1)] td_wf_fresh [OF assms(1)] show ?thesis
    by (auto simp: td_free py_simps pc_ok_def at_section_advance) (simp add: td_wf_def)
next
  case (StoreTask t data)
  with assms td_wf_store [OF assms(1), of t] show ?thesis
    by (auto simp: td_free py_simps pc_ok_def at_section_advance unplaced_store)
next
  case (FindNode t)
  then obtain tk where tk: "dict_get (tasks d) t = Some tk" using assms(3) by (auto simp: pc_ok_def)
  with assms(2) have "\<not> sticky_node d tk" by (auto simp: sticky_node_def unplaced_def key_truthy_def)
  with FindNode tk assms show ?thesis
    by (auto simp: td_free py_simps pc_ok_def at_section_advance)
qed (use assms in \<open>auto simp: pc_ok_def at_section_advance td_free py_simps\<close>)

section \<open>The invariant of the running server\<close>

abbreviation waits_for_itself :: "td_pc \<Rightarrow> bool" where
  "waits_for_itself p \<equiv> \<exists>t. p = Reentered t"

text \<open>
  The tables are consistent and no task is with a node; every thread is at a section of its request and
  what the thread has to find there is so; no two threads work for the same task; and the lock is held
  exactly by a thread that waits for itself.
\<close>

definition threads_ok :: "distributor \<Rightarrow> (td_event \<times> td_pc) list \<Rightarrow> bool" where
  "threads_ok d ths \<longleftrightarrow>
     (\<forall>i < length ths. pc_ok d (snd (ths ! i)) \<and> at_section (fst (ths ! i)) (snd (ths ! i)) \<and>
        (\<forall>t. pc_task (snd (ths ! i)) = Some t \<longrightarrow> t \<le> task_counter d)) \<and>
     (\<forall>i < length ths. \<forall>j < length ths. \<forall>t. pc_task (snd (ths ! i)) = Some t \<longrightarrow>
        pc_task (snd (ths ! j)) = Some t \<longrightarrow> i = j) \<and>
     (\<forall>i < length ths. \<forall>j < length ths. waits_for_itself (snd (ths ! i)) \<longrightarrow>
        waits_for_itself (snd (ths ! j)) \<longrightarrow> i = j) \<and>
     (td_locked d \<longleftrightarrow> (\<exists>i < length ths. waits_for_itself (snd (ths ! i))))"

definition td_run_ok :: "td_run \<Rightarrow> bool" where
  "td_run_ok s \<longleftrightarrow> td_wf (dist s) \<and> unplaced (dist s) \<and> threads_ok (dist s) (threads s)"

lemma td_run_ok_start: "td_run_ok (td_start env)"
  by (simp add: td_run_ok_def threads_ok_def td_start_def td_wf_init)
     (simp add: td_init_def unplaced_def)

lemma arrive_ok:
  "td_arrive q = Some p \<Longrightarrow> pc_ok d p \<and> at_section q p \<and> pc_task p = None \<and> \<not> waits_for_itself p"
  by (cases q) (auto simp: pc_ok_def split: sum.splits)

lemma threads_ok_arrive:
  assumes "threads_ok d ths" "td_arrive q = Some p"
  shows "threads_ok d (ths @ [(q, p)])"
  using assms(1) arrive_ok [OF assms(2), of d]
  by (auto simp: threads_ok_def nth_append less_Suc_eq)

lemma pc_ok_other:
  assumes "pc_ok d r" "\<not> td_locked d" "pc_task r = None \<or> pc_task r \<noteq> pc_task p"
    and "\<forall>t. pc_task p \<noteq> Some t \<longrightarrow> dict_get (tasks d') t = dict_get (tasks d) t"
    and "task_counter d \<le> task_counter d'"
  shows "pc_ok d' r"
  using assms by (cases r) (auto simp: pc_ok_def)

text \<open>One thread moves on: what it needs, and what the others must not lose.\<close>

lemma threads_ok_update:
  assumes ok: "threads_ok d ths" and i: "i < length ths"
    and own: "pc_ok d' p'" "at_section q p'" "\<forall>t. pc_task p' = Some t \<longrightarrow> t \<le> task_counter d'"
    and others: "\<And>j. j < length ths \<Longrightarrow> j \<noteq> i \<Longrightarrow> pc_ok d' (snd (ths ! j)) \<and> \<not> waits_for_itself (snd (ths ! j)) \<and>
      (\<forall>t. pc_task (snd (ths ! j)) = Some t \<longrightarrow> t \<le> task_counter d' \<and> pc_task p' \<noteq> Some t)"
    and lock: "td_locked d' \<longleftrightarrow> waits_for_itself p'"
  shows "threads_ok d' (ths[i := (q, p')])"
  unfolding threads_ok_def
proof (intro conjI allI impI)
  fix j assume "j < length (ths[i := (q, p')])"
  then have "pc_ok d' (snd (ths[i := (q, p')] ! j)) \<and>
      at_section (fst (ths[i := (q, p')] ! j)) (snd (ths[i := (q, p')] ! j)) \<and>
      (\<forall>t. pc_task (snd (ths[i := (q, p')] ! j)) = Some t \<longrightarrow> t \<le> task_counter d')"
    using ok own others [of j] by (cases "j = i") (simp_all add: threads_ok_def)
  then show "pc_ok d' (snd (ths[i := (q, p')] ! j))"
    "at_section (fst (ths[i := (q, p')] ! j)) (snd (ths[i := (q, p')] ! j))"
    "pc_task (snd (ths[i := (q, p')] ! j)) = Some t \<Longrightarrow> t \<le> task_counter d'" for t
    by blast+
next
  fix j k t assume jk: "j < length (ths[i := (q, p')])" "k < length (ths[i := (q, p')])"
    "pc_task (snd (ths[i := (q, p')] ! j)) = Some t" "pc_task (snd (ths[i := (q, p')] ! k)) = Some t"
  have old: "pc_task (snd (ths ! l)) = Some t \<and> pc_task p' \<noteq> Some t"
    if "l < length (ths[i := (q, p')])" "l \<noteq> i" "pc_task (snd (ths[i := (q, p')] ! l)) = Some t" for l
    using others [of l] that by simp
  have new: "pc_task p' = Some t" if "pc_task (snd (ths[i := (q, p')] ! i)) = Some t" using i that by simp
  show "j = k"
  proof (cases "j = i \<or> k = i")
    case True
    with jk old new show ?thesis by metis
  next
    case False
    with old jk ok show ?thesis unfolding threads_ok_def by (metis length_list_update)
  qed
next
  fix j k assume jk: "j < length (ths[i := (q, p')])" "k < length (ths[i := (q, p')])"
    "waits_for_itself (snd (ths[i := (q, p')] ! j))" "waits_for_itself (snd (ths[i := (q, p')] ! k))"
  have "l = i" if "l < length (ths[i := (q, p')])" "waits_for_itself (snd (ths[i := (q, p')] ! l))" for l
    using others [of l] that by (cases "l = i") simp_all
  from this [OF jk(1,3)] this [OF jk(2,4)] show "j = k" by simp
next
  show "td_locked d' = (\<exists>j < length (ths[i := (q, p')]). waits_for_itself (snd (ths[i := (q, p')] ! j)))"
    using lock others i by (fastforce simp: nth_list_update split: if_splits)
qed

lemma threads_ok_run:
  assumes ok: "td_wf d" "unplaced d" "threads_ok d ths" and i: "i < length ths" "ths ! i = (q, p)"
    and adv: "td_advance names rnd p d = (p', d')"
  shows "td_wf d' \<and> unplaced d' \<and> threads_ok d' (ths[i := (q, p')])"
proof (cases "td_locked d")
  case True
  with adv have "p' = p" "d' = d" by (simp_all add: td_advance_locked)
  with ok i show ?thesis by (metis list_update_id)
next
  case False
  have p: "pc_ok d p" "at_section q p" "\<And>t. pc_task p = Some t \<Longrightarrow> t \<le> task_counter d"
    using ok(3) i by (auto simp: threads_ok_def)
  note eff = advance_effect [OF ok(1,2) p(1) False adv]
  have "threads_ok d' (ths[i := (q, p')])"
  proof (rule threads_ok_update [OF ok(3) i(1)])
    have "t \<le> task_counter d'" if "pc_task p' = Some t" for t
      using eff p(3) [of t] that by (cases "pc_task p' = pc_task p") auto
    then show "\<forall>t. pc_task p' = Some t \<longrightarrow> t \<le> task_counter d'" by blast
  next
    fix j assume j: "j < length ths" "j \<noteq> i"
    have apart: "pc_task p \<noteq> Some t \<and> t \<le> task_counter d" if "pc_task (snd (ths ! j)) = Some t" for t
      using ok(3) j that i by (auto simp: threads_ok_def)
    have "pc_ok d' (snd (ths ! j))"
    proof (rule pc_ok_other [where d = d and p = p])
      show "pc_ok d (snd (ths ! j))" using ok(3) j by (simp add: threads_ok_def)
      show "pc_task (snd (ths ! j)) = None \<or> pc_task (snd (ths ! j)) \<noteq> pc_task p"
        using apart by (cases "pc_task (snd (ths ! j))") auto
    qed (use eff False in auto)
    moreover have "t \<le> task_counter d' \<and> pc_task p' \<noteq> Some t" if "pc_task (snd (ths ! j)) = Some t" for t
      using apart [OF that] eff by auto
    ultimately show "pc_ok d' (snd (ths ! j)) \<and> \<not> waits_for_itself (snd (ths ! j)) \<and>
        (\<forall>t. pc_task (snd (ths ! j)) = Some t \<longrightarrow> t \<le> task_counter d' \<and> pc_task p' \<noteq> Some t)"
      using ok(3) False j(1) by (auto simp: threads_ok_def)
  qed (use eff p(2) in auto)
  with eff show ?thesis by blast
qed

lemma poll_rates_frame:
  "poll_rates h d = (r, d') \<Longrightarrow> \<exists>rates. d' = d\<lparr>node_failure_rates := rates\<rparr>"
  by (cases h) (auto simp: py_simps intro: exI [of _ "node_failure_rates d"] split: option.splits if_splits)

lemma threads_ok_rates [simp]: "threads_ok (d\<lparr>node_failure_rates := r\<rparr>) ths = threads_ok d ths"
  by (simp add: threads_ok_def pc_ok_def cong: td_pc.case_cong)

lemma td_run_ok_step: "td_step names s t \<Longrightarrow> td_run_ok s \<Longrightarrow> td_run_ok t"
proof (induction rule: td_step.induct)
  case (arrive q p s)
  then show ?case by (simp add: td_run_ok_def threads_ok_arrive)
next
  case (run i s q p rnd p' d)
  with threads_ok_run [of "dist s" "threads s" i q p names rnd p' d] show ?case by (simp add: td_run_ok_def)
qed (auto simp: td_run_ok_def dest!: poll_rates_frame)

lemma reachable_td_run_ok: "td_reachable names env s \<Longrightarrow> td_run_ok s"
  by (induction rule: td_reachable.induct) (auto intro: td_run_ok_start td_run_ok_step)

section \<open>Runs\<close>

lemma reach_arrive:
  "td_reachable names env s \<Longrightarrow> td_arrive q = Some p \<Longrightarrow>
   td_reachable names env (s\<lparr>threads := threads s @ [(q, p)]\<rparr>)"
  by (blast intro: td_reachable.step td_step.arrive)

lemma reach_run:
  "td_reachable names env s \<Longrightarrow> i < length (threads s) \<Longrightarrow> threads s ! i = (q, p) \<Longrightarrow>
   td_advance names rnd p (dist s) = (p', d) \<Longrightarrow>
   td_reachable names env (s\<lparr>dist := d, threads := (threads s)[i := (q, p')]\<rparr>)"
  by (blast intro: td_reachable.step td_step.run)

lemma reach_steps:
  "(td_step names)\<^sup>*\<^sup>* s t \<Longrightarrow> td_reachable names env s \<Longrightarrow> td_reachable names env t"
  by (induction rule: rtranclp_induct) (auto intro: td_reachable.step)

text \<open>A thread of \<open>POST /tasks\<close> that keeps running ends up waiting for itself.\<close>

lemma find_node_locks:
  assumes "td_reachable names env s" "\<not> td_locked (dist s)" "i < length (threads s)" "threads s ! i = (q, FindNode t)"
  shows "\<exists>u. td_step names s u \<and> td_locked (dist u)"
proof -
  have ok: "td_wf (dist s)" "unplaced (dist s)" "pc_ok (dist s) (FindNode t)"
    using reachable_td_run_ok [OF assms(1)] assms(3,4) by (auto simp: td_run_ok_def threads_ok_def)
  then obtain tk where tk: "dict_get (tasks (dist s)) t = Some tk" by (auto simp: pc_ok_def)
  with ok(2) have "\<not> sticky_node (dist s) tk" by (auto simp: sticky_node_def unplaced_def key_truthy_def)
  then have "td_advance names rnd (FindNode t) (dist s) = (Reentered t, (dist s)\<lparr>td_locked := True\<rparr>)" for rnd
    using assms(2) tk by (simp add: td_free py_simps)
  from td_step.run [OF assms(3,4) this] show ?thesis by auto
qed

lemma store_task_locks:
  assumes "td_reachable names env s" "\<not> td_locked (dist s)" "i < length (threads s)" "threads s ! i = (q, StoreTask t data)"
  shows "\<exists>u. (td_step names)\<^sup>*\<^sup>* s u \<and> td_locked (dist u)"
proof -
  obtain d where d: "\<And>rnd. td_advance names rnd (StoreTask t data) (dist s) = (FindNode t, d)" "\<not> td_locked d"
    using assms(2) by (simp add: td_free py_simps)
  let ?u = "s\<lparr>dist := d, threads := (threads s)[i := (q, FindNode t)]\<rparr>"
  have "td_step names s ?u" using td_step.run [OF assms(3,4) d(1)] .
  moreover have "\<exists>v. td_step names ?u v \<and> td_locked (dist v)"
    using find_node_locks [OF reach_run [OF assms(1,3,4) d(1)], of i q t] assms(3) d(2) by simp
  ultimately show ?thesis by (blast intro: converse_rtranclp_into_rtranclp)
qed

lemma next_id_locks:
  assumes "td_reachable names env s" "\<not> td_locked (dist s)" "i < length (threads s)" "threads s ! i = (q, NextId data)"
  shows "\<exists>u. (td_step names)\<^sup>*\<^sup>* s u \<and> td_locked (dist u)"
proof -
  obtain t d where d: "\<And>rnd. td_advance names rnd (NextId data) (dist s) = (StoreTask t data, d)" "\<not> td_locked d"
    using assms(2) by (simp add: td_free py_simps)
  let ?u = "s\<lparr>dist := d, threads := (threads s)[i := (q, StoreTask t data)]\<rparr>"
  have "td_step names s ?u" using td_step.run [OF assms(3,4) d(1)] .
  moreover have "\<exists>v. (td_step names)\<^sup>*\<^sup>* ?u v \<and> td_locked (dist v)"
    using store_task_locks [OF reach_run [OF assms(1,3,4) d(1)], of i q t data] assms(3) d(2) by simp
  ultimately show ?thesis by (blast intro: converse_rtranclp_into_rtranclp)
qed

lemma thread_place:
  assumes "td_reachable names env s" "(q, p) \<in> set (threads s)"
  shows "at_section q p" "pc_ok (dist s) p"
  using reachable_td_run_ok [OF assms(1)] assms(2) by (fastforce simp: td_run_ok_def threads_ok_def in_set_conv_nth)+

lemma posted_task_locks:
  assumes "td_reachable names env s" "(PostTask rnd data, p) \<in> set (threads s)"
  shows "\<exists>u. (td_step names)\<^sup>*\<^sup>* s u \<and> td_locked (dist u)"
proof (cases "td_locked (dist s)")
  case False
  from assms(2) obtain i where i: "i < length (threads s)" "threads s ! i = (PostTask rnd data, p)"
    by (auto simp: in_set_conv_nth)
  from thread_place(1) [OF assms] consider "p = NextId data" | t where "p = StoreTask t data" | t where "p = FindNode t"
    | t where "p = Reentered t" by auto
  then show ?thesis
  proof cases
    case 3
    with find_node_locks [OF assms(1) False i(1)] i(2) show ?thesis by blast
  next
    case 4
    with thread_place(2) [OF assms] False show ?thesis by (simp add: pc_ok_def)
  qed (use next_id_locks [OF assms(1) False i(1)] store_task_locks [OF assms(1) False i(1)] i(2) in blast)+
qed blast

lemma same_tables_rates [simp]: "same_tables d (d\<lparr>node_failure_rates := r\<rparr>)"
  by (simp add: same_tables_def)

lemma locked_step:
  assumes "td_step names s t" "td_locked (dist s)"
  shows "same_tables (dist s) (dist t) \<and>
     (\<exists>new. threads t = threads s @ new \<and> (\<forall>(q, p) \<in> set new. td_arrive q = Some p))"
  using assms
proof (cases rule: td_step.cases)
  case (run i q p rnd p' d)
  then have "p' = p" "d = dist s" using assms(2) by (simp_all add: td_advance_locked)
  moreover from run(3) have "(threads s)[i := (q, p)] = threads s" by (metis list_update_id)
  ultimately have "t = s" using run(1) by simp
  then show ?thesis by simp
qed (auto dest!: poll_rates_frame)

lemma locked_steps:
  "(td_step names)\<^sup>*\<^sup>* s t \<Longrightarrow> td_locked (dist s) \<Longrightarrow> same_tables (dist s) (dist t) \<and>
     (\<exists>new. threads t = threads s @ new \<and> (\<forall>(q, p) \<in> set new. td_arrive q = Some p))"
proof (induction rule: rtranclp_induct)
  case base
  then show ?case by simp
next
  case (step t u)
  then have t: "same_tables (dist s) (dist t)" "td_locked (dist t)" using same_tables_locked by blast+
  from step obtain new where new: "threads t = threads s @ new" "\<forall>(q, p) \<in> set new. td_arrive q = Some p" by blast
  from locked_step [OF step(2) t(2)] obtain more where more: "same_tables (dist t) (dist u)"
    "threads u = threads t @ more" "\<forall>(q, p) \<in> set more. td_arrive q = Some p" by blast
  have "threads u = threads s @ (new @ more)" "\<forall>(q, p) \<in> set (new @ more). td_arrive q = Some p"
    using new more(2,3) by auto
  with same_tables_trans [OF t(1) more(1)] show ?case by blast
qed

text \<open>The run of the witnesses: one task is posted and its thread runs.\<close>

lemma stuck_run:
  "\<exists>s. td_reachable names env s \<and> threads s = [(PostTask rnd (JInt 7), Reentered 1)] \<and> td_locked (dist s) \<and>
     dict_get (tasks (dist s)) 1 = Some \<lparr>task_data = JInt 7, task_status = ''pending'', task_node = KNone\<rparr>"
proof -
  let ?q = "PostTask rnd (JInt 7)"
  let ?tk = "\<lparr>task_data = JInt 7, task_status = ''pending'', task_node = KNone\<rparr>"
  let ?d1 = "td_init\<lparr>task_counter := 1\<rparr>"
  let ?d2 = "?d1\<lparr>tasks := [(1, ?tk)]\<rparr>"
  have free: "\<not> td_locked td_init" "\<not> td_locked ?d1" "\<not> td_locked ?d2" by (simp_all add: td_init_def)
  have a1: "td_advance names rnd (NextId (JInt 7)) td_init = (StoreTask 1 (JInt 7), ?d1)"
    using free(1) by (simp add: td_free py_simps) (simp add: td_init_def)
  have a2: "td_advance names rnd (StoreTask 1 (JInt 7)) ?d1 = (FindNode 1, ?d2)"
    using free(2) by (simp add: td_free py_simps) (simp add: td_init_def)
  have a3: "td_advance names rnd (FindNode 1) ?d2 = (Reentered 1, ?d2\<lparr>td_locked := True\<rparr>)"
    using free(3) by (simp add: td_free py_simps sticky_node_def key_truthy_def)
  let ?s0 = "(td_start env)\<lparr>threads := [(?q, NextId (JInt 7))]\<rparr>"
  have "td_reachable names env ?s0"
    using reach_arrive [OF td_reachable.start, of ?q] by (simp add: td_start_def)
  from reach_run [OF this, of 0 ?q _ rnd, simplified, OF refl] a1
  have "td_reachable names env (?s0\<lparr>dist := ?d1, threads := [(?q, StoreTask 1 (JInt 7))]\<rparr>)"
    by (simp add: td_start_def)
  from reach_run [OF this, of 0 ?q _ rnd, simplified, OF refl] a2
  have "td_reachable names env (?s0\<lparr>dist := ?d2, threads := [(?q, FindNode 1)]\<rparr>)" by simp
  from reach_run [OF this, of 0 ?q _ rnd, simplified, OF refl] a3
  have "td_reachable names env (?s0\<lparr>dist := ?d2\<lparr>td_locked := True\<rparr>, threads := [(?q, Reentered 1)]\<rparr>)" by simp
  then show ?thesis
    by (intro exI [of _ "?s0\<lparr>dist := ?d2\<lparr>td_locked := True\<rparr>, threads := [(?q, Reentered 1)]\<rparr>"]) simp
qed

section \<open>Properties\<close>

text \<open>C8: Whatever order the threads run in, the tables stay consistent, no two requests get the same task
  number, and at most one thread has the lock between two steps, namely one that waits for itself.\<close>

theorem threads_keep_tables:
  assumes "td_reachable names env s"
  shows "td_wf (dist s) \<and>
     (\<forall>i < length (threads s). \<forall>j < length (threads s). \<forall>t.
        pc_task (snd (threads s ! i)) = Some t \<and> pc_task (snd (threads s ! j)) = Some t \<longrightarrow> i = j) \<and>
     (td_locked (dist s) \<longleftrightarrow> (\<exists>!i. i < length (threads s) \<and> (\<exists>t. snd (threads s ! i) = Reentered t)))"
proof -
  have ok: "td_wf (dist s)" "threads_ok (dist s) (threads s)"
    using reachable_td_run_ok [OF assms] by (simp_all add: td_run_ok_def)
  then have "td_locked (dist s) \<longleftrightarrow> (\<exists>!i. i < length (threads s) \<and> (\<exists>t. snd (threads s ! i) = Reentered t))"
    unfolding threads_ok_def by metis
  with ok show ?thesis unfolding threads_ok_def by blast
qed

theorem threads_keep_tables_witness:
  "\<exists>s. td_reachable [''random''] [] s \<and> td_wf (dist s) \<and>
     (\<exists>!i. i < length (threads s) \<and> (\<exists>t. snd (threads s ! i) = Reentered t))"
proof -
  obtain s where s: "td_reachable [''random''] [] s" "td_locked (dist s)"
    using stuck_run [of "[''random'']" "[]" "\<lparr>pick = \<lambda>_. 0, pick_weighted = \<lambda>_. Inr 0\<rparr>"] by blast
  with threads_keep_tables [OF s(1)] show ?thesis by blast
qed

text \<open>C7: No task is ever given to a node: in every interleaving all tasks are pending without a node, all
  nodes are available, and no \<open>POST /tasks\<close> has been answered.\<close>

theorem no_task_ever_placed:
  assumes "td_reachable names env s"
  shows "(\<forall>t tk. dict_get (tasks (dist s)) t = Some tk \<longrightarrow> task_status tk = ''pending'' \<and> task_node tk = KNone) \<and>
     (\<forall>n st. dict_get (node_status (dist s)) n = Some st \<longrightarrow>
        st = ''available'' \<and> dict_get (node_assignments (dist s)) n = Some None) \<and>
     (\<forall>rnd data p r. (PostTask rnd data, p) \<in> set (threads s) \<longrightarrow> p \<noteq> Answered r)"
proof -
  have ok: "td_wf (dist s)" "unplaced (dist s)" "threads_ok (dist s) (threads s)"
    using reachable_td_run_ok [OF assms] by (simp_all add: td_run_ok_def)
  have "p \<noteq> Answered r" if "(PostTask rnd data, p) \<in> set (threads s)" for rnd data p r
    using ok(3) that by (fastforce simp: threads_ok_def in_set_conv_nth)
  with ok(1,2) show ?thesis by (auto simp: unplaced_def td_wf_def)
qed

theorem no_task_ever_placed_witness:
  "\<exists>s rnd p. td_reachable [''random''] [] s \<and> (PostTask rnd (JInt 7), p) \<in> set (threads s) \<and>
     (\<forall>r. p \<noteq> Answered r) \<and> (\<exists>tk. dict_get (tasks (dist s)) 1 = Some tk \<and> task_node tk = KNone)"
proof -
  let ?rnd = "\<lparr>pick = \<lambda>_. 0, pick_weighted = \<lambda>_. Inr 0\<rparr> :: rng"
  obtain s where s: "td_reachable [''random''] [] s" "threads s = [(PostTask ?rnd (JInt 7), Reentered 1)]"
      "dict_get (tasks (dist s)) 1 = Some \<lparr>task_data = JInt 7, task_status = ''pending'', task_node = KNone\<rparr>"
    using stuck_run [of "[''random'']" "[]" ?rnd] by blast
  then have "(PostTask ?rnd (JInt 7), Reentered 1) \<in> set (threads s)" by simp
  with no_task_ever_placed [OF s(1)] s(1,3) show ?thesis by blast
qed

text \<open>C27: Until a task is posted the lock is free between steps and one step answers any waiting request;
  once one is posted the server can stop, and after it has stopped nothing changes but the polled rates:
  every thread stays where it is and new requests stay before their first section.\<close>

theorem post_stops_server:
  assumes "td_reachable names env s"
  shows "((\<forall>(q, p) \<in> set (threads s). \<forall>rnd data. q \<noteq> PostTask rnd data) \<longrightarrow> \<not> td_locked (dist s) \<and>
        (\<forall>(q, p) \<in> set (threads s). \<exists>r d. td_advance names rnd p (dist s) = (Answered r, d))) \<and>
     ((\<exists>rnd data p. (PostTask rnd data, p) \<in> set (threads s)) \<longrightarrow>
        (\<exists>u. (td_step names)\<^sup>*\<^sup>* s u \<and> td_locked (dist u))) \<and>
     (td_locked (dist s) \<longrightarrow> (\<forall>u. (td_step names)\<^sup>*\<^sup>* s u \<longrightarrow> same_tables (dist s) (dist u) \<and>
        (\<exists>new. threads u = threads s @ new \<and> (\<forall>(q, p) \<in> set new. td_arrive q = Some p))))"
proof (intro conjI impI)
  note ok = reachable_td_run_ok [OF assms]
  then have run: "td_wf (dist s)" "unplaced (dist s)" "threads_ok (dist s) (threads s)"
    by (simp_all add: td_run_ok_def)
  show "\<exists>u. (td_step names)\<^sup>*\<^sup>* s u \<and> td_locked (dist u)"
    if "\<exists>rnd data p. (PostTask rnd data, p) \<in> set (threads s)"
    using posted_task_locks [OF assms] that by blast
  show "\<forall>u. (td_step names)\<^sup>*\<^sup>* s u \<longrightarrow> same_tables (dist s) (dist u) \<and>
        (\<exists>new. threads u = threads s @ new \<and> (\<forall>(q, p) \<in> set new. td_arrive q = Some p))"
    if "td_locked (dist s)"
    using locked_steps that by blast
  assume none: "\<forall>(q, p) \<in> set (threads s). \<forall>rnd data. q \<noteq> PostTask rnd data"
  have idle: "pc_task p = None \<and> (\<forall>data. p \<noteq> NextId data)" if "(q, p) \<in> set (threads s)" for q p
    using thread_place(1) [OF assms that] none that by (cases q) auto
  show free: "\<not> td_locked (dist s)"
  proof
    assume "td_locked (dist s)"
    with run(3) obtain i t where "i < length (threads s)" "snd (threads s ! i) = Reentered t"
      by (auto simp: threads_ok_def)
    then have "(fst (threads s ! i), Reentered t) \<in> set (threads s)" by (metis nth_mem prod.collapse)
    from idle [OF this] show False by simp
  qed
  show "\<forall>(q, p) \<in> set (threads s). \<exists>r d. td_advance names rnd p (dist s) = (Answered r, d)"
  proof clarify
    fix q p assume "(q, p) \<in> set (threads s)"
    from idle [OF this] show "\<exists>r d. td_advance names rnd p (dist s) = (Answered r, d)"
    proof (cases p)
      case (UnregisterCall n)
      with unplaced_unregister [OF run(1,2) free, of "KStr n"] show ?thesis
        by (auto simp: section_step_def)
    qed (use free in \<open>auto simp: td_free section_step_def split: sum.splits\<close>)
  qed
qed

theorem post_stops_server_witness:
  "\<exists>s u. td_reachable td_globals [] s \<and> \<not> td_locked (dist s) \<and> (td_step td_globals)\<^sup>*\<^sup>* s u \<and> td_locked (dist u)"
proof -
  let ?q = "PostTask \<lparr>pick = \<lambda>_. 0, pick_weighted = \<lambda>_. Inr 0\<rparr> (JInt 7)"
  let ?s = "(td_start [])\<lparr>threads := [(?q, NextId (JInt 7))]\<rparr>"
  have "td_reachable td_globals [] ?s"
    using reach_arrive [OF td_reachable.start, of ?q] by (simp add: td_start_def)
  moreover from post_stops_server [OF this] obtain u where "(td_step td_globals)\<^sup>*\<^sup>* ?s u" "td_locked (dist u)"
    by auto
  moreover have "\<not> td_locked (dist ?s)" by (simp add: td_start_def td_init_def)
  ultimately show ?thesis by blast
qed

end
