(* ===== verification/Monitor_Agent.thy ===== *)
theory Monitor_Agent
  imports C4D_Prelude "HOL-Library.Multiset"
begin

text \<open>
  The Python monitoring agent of \<open>components/monitor/python_test/main.py\<close>: the class \<open>Monitor\<close>
  (metrics, the buffer of communication logs and its lock, the two threads) and the HTTP views of
  the agent.  What is not in the repository is a parameter: the operating system's \<open>kill\<close> (\<open>Blocked\<close> when it ends the agent itself), the
  answers of other hosts, \<open>psutil\<close>'s samples, the clock.
\<close>

section \<open>State\<close>

type_synonym record_dict = "(string, json) dict"

record monitor =
  stop_event :: bool
  ram_usage :: pyfloat
  cpu_usage :: pyfloat
  compute_engine_status :: string
  mon_metrics :: "(string, json list) dict"
  is_standby :: bool
  mon_status :: string
  dist_env_vars :: "(string \<times> string option) list"
  ccl_logs :: "record_dict list"
  ccl_locked :: bool
  threads_started :: bool

text \<open>\<open>below_quarter\<close> is the outcome of \<open>random.random() < 0.25\<close>.\<close>

definition monitor_init :: "environ \<Rightarrow> bool \<Rightarrow> monitor" where
  "monitor_init env below_quarter =
     \<lparr>stop_event = False, ram_usage = Fin 0, cpu_usage = Fin 0,
      compute_engine_status = ''unknown'', mon_metrics = [], is_standby = below_quarter,
      mon_status = (if \<not> below_quarter then ''active'' else ''standby''),
      dist_env_vars = map (\<lambda>k. (k, dict_get env k))
        [''MASTER_ADDR'', ''MASTER_PORT'', ''WORLD_SIZE'', ''RANK'', ''TASK_ID''],
      ccl_logs = [], ccl_locked = False, threads_started = False\<rparr>"

abbreviation ccl_with_lock :: "(monitor, 'a) py \<Rightarrow> (monitor, 'a) py" where
  "ccl_with_lock \<equiv> with_lock ccl_locked (\<lambda>b s. s\<lparr>ccl_locked := b\<rparr>)"

interpretation ccl: py_lock ccl_locked "\<lambda>b s. s\<lparr>ccl_locked := b\<rparr>"
  by unfold_locales auto

section \<open>Methods\<close>

text \<open>
  One round of the sampling thread: \<open>None\<close> for the status file means it does not exist.  The result
  says whether the loop goes on.
\<close>

definition update_metrics_round :: "pyfloat \<Rightarrow> pyfloat \<Rightarrow> string option \<Rightarrow> (monitor, bool) py" where
  "update_metrics_round ram cpu file =
     py_bind (py_get stop_event) (\<lambda>stopped.
       if stopped then py_return False
       else py_seq (py_modify (\<lambda>s. s\<lparr>ram_usage := ram\<rparr>))
           (py_seq (py_modify (\<lambda>s. s\<lparr>cpu_usage := cpu\<rparr>))
           (py_seq (py_modify (\<lambda>s. s\<lparr>compute_engine_status :=
                      (case file of Some text \<Rightarrow> strip text | None \<Rightarrow> ''unknown'')\<rparr>))
                   (py_return True))))"

definition append_metric :: "string \<Rightarrow> json \<Rightarrow> (monitor, unit) py" where
  "append_metric key v =
     py_seq (py_bind (py_get mon_metrics) (\<lambda>m.
               if dict_has m key then py_return ()
               else py_modify (\<lambda>s. s\<lparr>mon_metrics := dict_set key [] (mon_metrics s)\<rparr>)))
            (py_modify (\<lambda>s. s\<lparr>mon_metrics :=
               dict_set key (the (dict_get (mon_metrics s) key) @ [v]) (mon_metrics s)\<rparr>))"

definition append_ccl_log :: "record_dict \<Rightarrow> (monitor, unit) py" where
  "append_ccl_log log_data = ccl_with_lock (py_modify (\<lambda>s. s\<lparr>ccl_logs := ccl_logs s @ [log_data]\<rparr>))"

definition get_ccl_logs :: "(monitor, record_dict list) py" where
  "get_ccl_logs = ccl_with_lock (py_get ccl_logs)"

definition clear_ccl_logs :: "(monitor, unit) py" where
  "clear_ccl_logs = ccl_with_lock (py_modify (\<lambda>s. s\<lparr>ccl_logs := []\<rparr>))"

text \<open>Grouping by operation type; the type is any JSON value, used as a dictionary key.\<close>

definition log_index :: "record_dict \<Rightarrow> string \<Rightarrow> json result" where
  "log_index l k = (case dict_get l k of None \<Rightarrow> Inl (KeyError k) | Some v \<Rightarrow> Inr v)"

definition op_key :: "record_dict \<Rightarrow> pykey result" where
  "op_key l = res_bind (log_index l ''opType'') py_key"

type_synonym grouped = "(pykey, record_dict list) dict"

fun group_logs :: "record_dict list \<Rightarrow> grouped \<Rightarrow> grouped result" where
  "group_logs [] g = Inr g"
| "group_logs (l # ls) g =
     res_bind (op_key l) (\<lambda>k.
       let g' = (if dict_has g k then g else dict_set k [] g)
       in group_logs ls (dict_set k (the (dict_get g' k) @ [l]) g'))"

text \<open>
  What the agent gets from outside: its environment, the names keys have in a JSON object, the answers of
  other agents, and \<open>os.kill\<close> with \<open>SIGUSR2\<close>, for which the agent has no handler: the call returns or raises,
  or is \<open>Blocked\<close>, when it ends the agent's own process.
\<close>

record agent_env =
  environ :: environ
  key_name :: "pykey \<Rightarrow> string"
  fetch_pid :: "json \<Rightarrow> http"
  os_kill :: "int \<Rightarrow> unit outcome"
  exn_text :: "exn \<Rightarrow> string"
  json_text :: "json \<Rightarrow> string"
  own_pid :: int

definition metrics_payload :: "agent_env \<Rightarrow> pyfloat \<Rightarrow> grouped \<Rightarrow> monitor \<Rightarrow> json" where
  "metrics_payload E latency g s =
     JObj [(''node_id'', JStr (getenv (environ E) ''TASK_ID'' ''unknown'')),
           (''metrics'', JObj
              ([(''cpu_usage'', JArr [JFloat (cpu_usage s)]),
                (''ram_usage'', JArr [JFloat (ram_usage s)]),
                (''latency'', JArr [JFloat latency])] @
               (if g \<noteq> [] then
                  [(''ccl_operations'', JObj (map (\<lambda>(k, ls). (key_name E k, JArr (map JObj ls))) g))]
                else [])))]"

text \<open>
  One round of the sending thread when no other thread runs in between; \<open>post\<close> is the server's
  answer with the time it took.  The result is the latency the next round reports.  A raised
  exception ends the thread.
\<close>

definition send_metrics_round ::
  "agent_env \<Rightarrow> (json \<Rightarrow> http \<times> pyfloat) \<Rightarrow> pyfloat \<Rightarrow> (monitor, pyfloat) py" where
  "send_metrics_round E post latency =
     py_bind get_ccl_logs (\<lambda>logs.
       if logs = [] then py_return latency
       else
         py_bind (py_lift (group_logs logs [])) (\<lambda>g.
         py_bind (py_get (metrics_payload E latency g)) (\<lambda>payload.
           case post payload of
             (HttpResponse code body, elapsed) \<Rightarrow>
               if code = 200 then py_seq clear_ccl_logs (py_return elapsed) else py_return elapsed
           | (_, _) \<Rightarrow> py_return latency)))"

definition register_payload :: "agent_env \<Rightarrow> monitor \<Rightarrow> json" where
  "register_payload E s =
     (let task_id = getenv (environ E) ''TASK_ID'' ''unknown'';
          namespace = getenv (environ E) ''NAMESPACE'' ''unknown''
      in JObj [(''node_id'', JStr task_id),
               (''node_url'', JStr (''http://'' @ task_id @ ''.'' @ namespace @ '':8081'')),
               (''node_status'', JStr (mon_status s))])"

text \<open>\<open>register_with_server\<close> posts it and prints what came of it: the result is whether the node was
  registered.\<close>

definition register_with_server :: "agent_env \<Rightarrow> (json \<Rightarrow> http) \<Rightarrow> (monitor, bool) py" where
  "register_with_server E post =
     py_bind (py_get (register_payload E)) (\<lambda>payload.
       case post payload of
         HttpResponse code body \<Rightarrow> py_return (code = 200)
       | _ \<Rightarrow> py_return False)"

text \<open>
  The sending thread starts with a request outside any \<open>try\<close>: its duration is the first latency.
\<close>

definition first_latency :: "http \<times> pyfloat \<Rightarrow> pyfloat result" where
  "first_latency r = (case r of
       (HttpResponse code body, elapsed) \<Rightarrow> Inr elapsed
     | (_, _) \<Rightarrow> Inl RequestException)"

text \<open>
  Attribute lookup: the methods of the class, the attributes \<open>__init__\<close> sets, and the two thread
  attributes once \<open>start\<close> has run.
\<close>

definition monitor_attributes :: "string list" where
  "monitor_attributes =
     [''update_metrics'', ''append_metric'', ''send_metrics_to_server'', ''register_with_server'',
      ''append_ccl_log'', ''get_ccl_logs'', ''clear_ccl_logs'', ''start'', ''stop'',
      ''stop_event'', ''ram_usage'', ''cpu_usage'', ''compute_engine_status'', ''metrics'',
      ''c4d_server_url'', ''is_standby'', ''node_status'', ''dist_env_vars'', ''ccl_logs'', ''ccl_lock'']"

definition monitor_attr :: "string \<Rightarrow> (monitor, unit) py" where
  "monitor_attr name = (\<lambda>s.
     if name \<in> set monitor_attributes \<or>
        threads_started s \<and> name \<in> {''monitor_thread'', ''metrics_sender_thread''}
     then (Return (), s) else (Raise (AttributeError name), s))"

definition start_monitor :: "(monitor, unit) py" where
  "start_monitor = py_modify (\<lambda>s. s\<lparr>threads_started := True\<rparr>)"

text \<open>\<open>stop\<close> waits for the two threads; both leave their loops once \<open>stop_event\<close> is set.\<close>

definition stop_monitor :: "(monitor, unit) py" where
  "stop_monitor =
     py_seq (py_modify (\<lambda>s. s\<lparr>stop_event := True\<rparr>))
    (py_seq (monitor_attr ''monitor_thread'')
            (monitor_attr ''metrics_sender_thread''))"

section \<open>Views\<close>

fun convert_ints :: "(string \<times> string) list \<Rightarrow> record_dict \<Rightarrow> record_dict result" where
  "convert_ints [] d = Inr d"
| "convert_ints ((src, dst) # fs) d =
     res_bind (log_index d src) (\<lambda>v.
     res_bind (py_int v) (\<lambda>n. convert_ints fs (dict_set dst (JInt n) d)))"

definition p2p_fields :: "(string \<times> string) list" where
  "p2p_fields = [(''remoteRank'', ''remote_rank''), (''context_rank'', ''context_rank''),
     (''context_size'', ''context_size''), (''bytes'', ''bytes''), (''startTime'', ''startTime''),
     (''endTime'', ''endTime'')]"

definition collective_fields :: "(string \<times> string) list" where
  "collective_fields = [(''count'', ''count''), (''rootRank'', ''root_rank''),
     (''context_rank'', ''context_rank''), (''context_size'', ''context_size''),
     (''startTime'', ''startTime''), (''endTime'', ''endTime'')]"

definition is_p2p :: "json \<Rightarrow> bool" where
  "is_p2p op = (op \<in> {JStr ''send'', JStr ''recv''})"

definition drop_nulls :: "record_dict \<Rightarrow> record_dict" where
  "drop_nulls d = filter (\<lambda>(k, v). v \<noteq> JNull) d"

text \<open>
  The record a POST to \<open>/log_ccl\<close> stores, and whether the warning is printed.  The framework hands
  out the same decoded body each time, so \<open>request.json\<close> is the dictionary the conversions wrote to.
\<close>

definition ccl_record :: "pyfloat \<Rightarrow> json \<Rightarrow> (record_dict \<times> bool) result" where
  "ccl_record now body =
     res_bind (json_index body ''opType'') (\<lambda>op.
     case body of
       JObj data \<Rightarrow>
         res_bind (convert_ints (if is_p2p op then p2p_fields else collective_fields) data) (\<lambda>d.
         res_bind (log_index d ''finished'') (\<lambda>fin.
           let d' = dict_set ''finished'' (JBool (truthy fin)) d;
               kept = drop_nulls d'
           in Inr (dict_set ''timestamp'' (JFloat now) kept, length kept \<noteq> length d')))
     | _ \<Rightarrow> Inl TypeError)"

definition log_ccl :: "pyfloat \<Rightarrow> json \<Rightarrow> (monitor, nat \<times> json) py" where
  "log_ccl now body =
     py_bind (py_lift (ccl_record now body)) (\<lambda>(d, warned).
       py_seq (append_ccl_log d) (py_return (200, JStr ''OK'')))"

definition get_metrics_view :: "(monitor, nat \<times> json) py" where
  "get_metrics_view = py_get (\<lambda>s. (200, JObj [(''ram_usage'', JFloat (ram_usage s)),
     (''cpu_usage'', JFloat (cpu_usage s)), (''compute_engine_status'', JStr (compute_engine_status s))]))"

definition get_env_view :: "agent_env \<Rightarrow> (monitor, nat \<times> json) py" where
  "get_env_view E = py_return (200, JObj (map (\<lambda>(k, v). (k, JStr v)) (environ E)))"

definition get_dist_env_view :: "(monitor, nat \<times> json) py" where
  "get_dist_env_view = py_get (\<lambda>s. (200, JObj (map (\<lambda>(k, v).
     (k, case v of None \<Rightarrow> JNull | Some x \<Rightarrow> JStr x)) (dist_env_vars s))))"

definition log_training_time :: "json \<Rightarrow> (monitor, nat \<times> json) py" where
  "log_training_time data =
     py_bind (py_lift (json_get data ''iteration_time'')) (\<lambda>training_time.
     py_bind (py_lift (json_get data ''iteration'')) (\<lambda>iteration.
       if training_time \<noteq> JNull then
         py_seq (append_metric ''training_time'' training_time)
           (py_return (200, JObj [(''message'', JStr ''Training time logged''), (''iteration'', iteration)]))
       else py_return (400, JObj [(''error'', JStr ''Invalid data'')])))"

text \<open>\<open>get_node_pid\<close>: a JSON error of \<open>requests\<close> is one of its request exceptions, and is caught.\<close>

definition get_node_pid :: "agent_env \<Rightarrow> json \<Rightarrow> int option result" where
  "get_node_pid E node_id = (case fetch_pid E node_id of
       HttpResponse code body \<Rightarrow>
         if code = 200 then
           (case body of
              None \<Rightarrow> Inr None
            | Some b \<Rightarrow> res_bind (json_get b ''pid'') (\<lambda>p. res_bind (py_int p) (\<lambda>n. Inr (Some n))))
         else Inr None
     | _ \<Rightarrow> Inr None)"

text \<open>\<open>os.kill\<close> of the local system, which wants an integer.\<close>

definition send_signal :: "agent_env \<Rightarrow> int option \<Rightarrow> unit outcome" where
  "send_signal E p = (case p of None \<Rightarrow> Raise TypeError | Some n \<Rightarrow> os_kill E n)"

text \<open>The body of the \<open>try\<close>, and the view: an agent that ends itself never answers.\<close>

definition offload_signal :: "agent_env \<Rightarrow> json \<Rightarrow> unit outcome" where
  "offload_signal E target = (case get_node_pid E target of
       Inl e \<Rightarrow> Raise e
     | Inr node_pid \<Rightarrow> send_signal E node_pid)"

definition offload_task :: "agent_env \<Rightarrow> json \<Rightarrow> (monitor, nat \<times> json) py" where
  "offload_task E data =
     py_bind (py_lift (json_get data ''target_node_id'')) (\<lambda>target.
     py_bind (py_lift (json_get data ''checkpoint_path'')) (\<lambda>path.
       if \<not> truthy target \<or> \<not> truthy path
       then py_return (400, JObj [(''error'', JStr ''Invalid offload request'')])
       else (case offload_signal E target of
               Return _ \<Rightarrow> py_return (200, JObj [(''message'',
                           JStr (''Offload signal sent to node '' @ json_text E target))])
             | Raise e \<Rightarrow> py_return (500, JObj [(''error'', JStr (exn_text E e))])
             | Blocked \<Rightarrow> (\<lambda>s. (Blocked, s)))))"

definition activate_node :: "(monitor, nat \<times> json) py" where
  "activate_node =
     py_seq (py_modify (\<lambda>s. s\<lparr>is_standby := False\<rparr>))
    (py_seq (py_modify (\<lambda>s. s\<lparr>mon_status := ''active''\<rparr>))
    (py_seq (monitor_attr ''register'')
    (py_seq start_monitor
      (py_return (200, JObj [(''message'', JStr ''Node activated and ready to participate.'')])))))"

definition remove_node :: "(monitor, nat \<times> json) py" where
  "remove_node = py_seq stop_monitor
     (py_return (200, JObj [(''message'', JStr ''Node removed from training.'')]))"

definition get_pid_view :: "agent_env \<Rightarrow> (monitor, nat \<times> json) py" where
  "get_pid_view E = py_return (200, JObj [(''pid'', JInt (own_pid E))])"

text \<open>The handler of SIGTERM.\<close>

definition shutdown_handler :: "(monitor, unit) py" where
  "shutdown_handler = py_seq stop_monitor (py_raise SystemExit)"

text \<open>Module start: the agent registers and, unless it is a standby, starts its threads.\<close>

definition agent_start :: "environ \<Rightarrow> bool \<Rightarrow> monitor" where
  "agent_start env below_quarter =
     (let m = monitor_init env below_quarter
      in if \<not> is_standby m then snd (start_monitor m) else m)"

datatype agent_request =
    GetMetrics
  | GetEnv
  | LogCcl pyfloat json
  | GetDistEnv
  | LogTrainingTime json
  | Offload json
  | Activate
  | Remove
  | GetPid

fun agent_handle :: "agent_env \<Rightarrow> agent_request \<Rightarrow> monitor \<Rightarrow> reply \<times> monitor" where
  "agent_handle E GetMetrics = run_view get_metrics_view"
| "agent_handle E GetEnv = run_view (get_env_view E)"
| "agent_handle E (LogCcl now body) = run_view (log_ccl now body)"
| "agent_handle E GetDistEnv = run_view get_dist_env_view"
| "agent_handle E (LogTrainingTime data) = run_view (log_training_time data)"
| "agent_handle E (Offload data) = run_view (offload_task E data)"
| "agent_handle E Activate = run_view activate_node"
| "agent_handle E Remove = run_view remove_node"
| "agent_handle E GetPid = run_view (get_pid_view E)"

section \<open>What the operations do\<close>

lemma append_ccl_log_free:
  "\<not> ccl_locked s \<Longrightarrow> append_ccl_log l s = (Return (), s\<lparr>ccl_logs := ccl_logs s @ [l]\<rparr>)"
  by (simp add: append_ccl_log_def with_lock_def py_simps)

lemma get_ccl_logs_free: "\<not> ccl_locked s \<Longrightarrow> get_ccl_logs s = (Return (ccl_logs s), s)"
  by (simp add: get_ccl_logs_def with_lock_def py_simps)

lemma clear_ccl_logs_free: "\<not> ccl_locked s \<Longrightarrow> clear_ccl_logs s = (Return (), s\<lparr>ccl_logs := []\<rparr>)"
  by (simp add: clear_ccl_logs_def with_lock_def py_simps)

lemmas ccl_free = append_ccl_log_free get_ccl_logs_free clear_ccl_logs_free

text \<open>The lock is free between requests: no view leaves it held.\<close>

lemma log_ccl_free:
  "\<not> ccl_locked s \<Longrightarrow> log_ccl now body s =
     (case ccl_record now body of
        Inl e \<Rightarrow> (Raise e, s)
      | Inr (d, w) \<Rightarrow> (Return (200, JStr ''OK''), s\<lparr>ccl_logs := ccl_logs s @ [d]\<rparr>))"
  by (cases "ccl_record now body") (auto simp: log_ccl_def py_simps ccl_free split: prod.splits)

lemma append_metric_apply:
  "append_metric k v s = (Return (), s\<lparr>mon_metrics := dict_set k
     ((case dict_get (mon_metrics s) k of None \<Rightarrow> [] | Some vs \<Rightarrow> vs) @ [v]) (mon_metrics s)\<rparr>)"
  by (simp add: append_metric_def py_simps dict_has_def split: option.splits)

lemma stop_monitor_apply:
  "stop_monitor s =
     (if threads_started s then (Return (), s\<lparr>stop_event := True\<rparr>)
      else (Raise (AttributeError ''monitor_thread''), s\<lparr>stop_event := True\<rparr>))"
  by (simp add: stop_monitor_def py_simps monitor_attr_def monitor_attributes_def)

lemma activate_node_apply:
  "activate_node s = (Raise (AttributeError ''register''), s\<lparr>is_standby := False, mon_status := ''active''\<rparr>)"
  by (simp add: activate_node_def py_simps monitor_attr_def monitor_attributes_def)

lemma offload_task_state: "snd (offload_task E data s) = s"
  by (cases "json_get data ''target_node_id''"; cases "json_get data ''checkpoint_path''")
     (auto simp: offload_task_def py_simps split: outcome.splits)

lemma offload_task_lock: "ccl_locked (snd (run_view (offload_task E data) s)) = ccl_locked s"
  by (simp add: run_view_def case_prod_beta offload_task_state)

lemma log_training_time_apply:
  "log_training_time data s =
     (case json_get data ''iteration_time'' of
        Inl e \<Rightarrow> (Raise e, s)
      | Inr t \<Rightarrow> (case json_get data ''iteration'' of
           Inl e \<Rightarrow> (Raise e, s)
         | Inr i \<Rightarrow>
             if t \<noteq> JNull then
               (Return (200, JObj [(''message'', JStr ''Training time logged''), (''iteration'', i)]),
                snd (append_metric ''training_time'' t s))
             else (Return (400, JObj [(''error'', JStr ''Invalid data'')]), s)))"
  by (auto simp: log_training_time_def py_simps append_metric_apply split: sum.splits)

lemma agent_handle_lock: "\<not> ccl_locked s \<Longrightarrow> \<not> ccl_locked (snd (agent_handle E r s))"
  by (cases r)
     (auto simp: run_view_def get_metrics_view_def get_env_view_def get_dist_env_view_def
       get_pid_view_def py_simps log_ccl_free log_training_time_apply append_metric_apply
       offload_task_state activate_node_apply remove_node_def py_seq_def py_bind_def
       stop_monitor_apply case_prod_beta split: sum.splits prod.splits)

interpretation agent: request_server "agent_handle E" "\<lambda>s. \<not> ccl_locked s" for E
  by unfold_locales (rule agent_handle_lock)

section \<open>An agent whose threads were not started\<close>

definition idle_agent :: "monitor \<Rightarrow> bool" where
  "idle_agent s \<longleftrightarrow> \<not> threads_started s \<and> ram_usage s = Fin 0 \<and> cpu_usage s = Fin 0 \<and> compute_engine_status s = ''unknown''"

definition idle_reply :: "agent_request \<Rightarrow> reply \<Rightarrow> bool" where
  "idle_reply q a \<longleftrightarrow> (q = Activate \<longrightarrow> a = Crash (AttributeError ''register'')) \<and>
     (q = Remove \<longrightarrow> a = Crash (AttributeError ''monitor_thread'')) \<and>
     (q = GetMetrics \<longrightarrow> a = Reply 200 (JObj [(''ram_usage'', JFloat (Fin 0)),
        (''cpu_usage'', JFloat (Fin 0)), (''compute_engine_status'', JStr ''unknown'')]))"

lemma append_ccl_log_frame:
  "\<exists>r l b. append_ccl_log d s = (r, s\<lparr>ccl_logs := l, ccl_locked := b\<rparr>)"
proof (cases "ccl_locked s")
  case True
  then have "append_ccl_log d s = (Blocked, s\<lparr>ccl_logs := ccl_logs s, ccl_locked := True\<rparr>)"
    by (simp add: append_ccl_log_def with_lock_def)
  then show ?thesis by blast
next
  case False
  then have "append_ccl_log d s = (Return (), s\<lparr>ccl_logs := ccl_logs s @ [d], ccl_locked := False\<rparr>)"
    by (simp add: append_ccl_log_free)
  then show ?thesis by blast
qed

lemma log_ccl_frame:
  "\<exists>r l b. log_ccl now body s = (r, s\<lparr>ccl_logs := l, ccl_locked := b\<rparr>)"
proof (cases "ccl_record now body")
  case (Inl e)
  then show ?thesis by (auto simp: log_ccl_def py_simps intro!: exI [of _ "ccl_logs s"] exI [of _ "ccl_locked s"])
next
  case (Inr p)
  obtain d w where p: "p = (d, w)" by force
  obtain r l b where "append_ccl_log d s = (r, s\<lparr>ccl_logs := l, ccl_locked := b\<rparr>)"
    using append_ccl_log_frame by blast
  with Inr p show ?thesis by (cases r) (auto simp: log_ccl_def py_simps)
qed

lemma idle_step:
  assumes "idle_agent s"
  shows "idle_agent (snd (agent_handle E q s)) \<and> idle_reply q (fst (agent_handle E q s)) \<and>
     mon_status (snd (agent_handle E q s)) = (if q = Activate then ''active'' else mon_status s) \<and>
     (is_standby (snd (agent_handle E q s)) \<longleftrightarrow> is_standby s \<and> q \<noteq> Activate) \<and>
     (stop_event (snd (agent_handle E q s)) \<longleftrightarrow> stop_event s \<or> q = Remove)"
proof (cases q)
  case (LogCcl now body)
  obtain r l b where "log_ccl now body s = (r, s\<lparr>ccl_logs := l, ccl_locked := b\<rparr>)" using log_ccl_frame by blast
  with LogCcl assms show ?thesis by (simp add: idle_agent_def idle_reply_def run_view_def)
next
  case (LogTrainingTime data)
  with assms show ?thesis
    by (auto simp: idle_agent_def idle_reply_def run_view_def log_training_time_apply append_metric_apply split: sum.splits)
qed (use assms in \<open>auto simp: idle_agent_def idle_reply_def run_view_def get_metrics_view_def get_env_view_def
    get_dist_env_view_def get_pid_view_def py_simps offload_task_state activate_node_apply remove_node_def
    stop_monitor_apply case_prod_beta\<close>)

lemma idle_serve:
  assumes "idle_agent s"
  shows "idle_agent (snd (serve (agent_handle E) qs s)) \<and>
     mon_status (snd (serve (agent_handle E) qs s)) = (if Activate \<in> set qs then ''active'' else mon_status s) \<and>
     (is_standby (snd (serve (agent_handle E) qs s)) \<longleftrightarrow> is_standby s \<and> Activate \<notin> set qs) \<and>
     (stop_event (snd (serve (agent_handle E) qs s)) \<longleftrightarrow> stop_event s \<or> Remove \<in> set qs) \<and>
     list_all2 idle_reply qs (fst (serve (agent_handle E) qs s))"
  using assms
proof (induction qs arbitrary: s)
  case (Cons q qs)
  note step = idle_step [OF Cons.prems, of E q]
  from Cons.IH [of "snd (agent_handle E q s)"] step show ?case
    by (auto simp: Let_def case_prod_beta simp del: agent_handle.simps)
qed simp

section \<open>Converting a record\<close>

lemma convert_ints_frame:
  "convert_ints fs d = Inr d' \<Longrightarrow> k \<notin> snd ` set fs \<Longrightarrow> dict_get d' k = dict_get d k"
  by (induction fs d arbitrary: d' rule: convert_ints.induct) (auto simp: res_bind_eq_Inr)

lemma convert_ints_distinct:
  "convert_ints fs d = Inr d' \<Longrightarrow> distinct (dict_keys d) \<Longrightarrow> distinct (dict_keys d')"
  by (induction fs d arbitrary: d' rule: convert_ints.induct)
     (auto simp: res_bind_eq_Inr dict.distinct_keys_store)

text \<open>
  A target is written from its source, as the body had it, when no earlier conversion wrote the
  source and no later one writes the target.
\<close>

lemma convert_ints_field:
  assumes "convert_ints (fs @ (src, dst) # gs) d = Inr d'"
    and "src \<notin> snd ` set fs" "dst \<notin> snd ` set gs"
  shows "\<exists>v n. dict_get d src = Some v \<and> py_int v = Inr n \<and> dict_get d' dst = Some (JInt n)"
  using assms
proof (induction fs arbitrary: d)
  case Nil
  then obtain v n where v: "dict_get d src = Some v" "py_int v = Inr n"
      and rest: "convert_ints gs (dict_set dst (JInt n) d) = Inr d'"
    by (auto simp: res_bind_eq_Inr log_index_def split: option.splits)
  with Nil.prems(3) show ?case by (auto dest: convert_ints_frame)
next
  case (Cons f fs)
  obtain a b where f: "f = (a, b)" by force
  from Cons.prems(1) f obtain m where "convert_ints (fs @ (src, dst) # gs) (dict_set b (JInt m) d) = Inr d'"
    by (auto simp: res_bind_eq_Inr)
  from Cons.IH [OF this] Cons.prems(2,3) f show ?case by (auto split: if_splits)
qed

lemma drop_nulls_get:
  "distinct (dict_keys d) \<Longrightarrow>
   dict_get (drop_nulls d) k = (case dict_get d k of Some JNull \<Rightarrow> None | x \<Rightarrow> x)"
proof (induction d)
  case (Cons x d)
  obtain a v where x: "x = (a, v)" by force
  from Cons.prems x have "dict_get d a = None" by (simp add: map_of_eq_None_iff)
  with Cons x show ?case by (auto simp: drop_nulls_def split: option.splits json.splits)
qed (simp add: drop_nulls_def)

lemma convert_ints_fields:
  assumes "convert_ints fs d = Inr d'" and "distinct (map snd fs)"
    and order: "\<And>i. i < length fs \<Longrightarrow> fst (fs ! i) \<notin> snd ` set (take i fs)"
    and "(src, dst) \<in> set fs"
  shows "\<exists>v n. dict_get d src = Some v \<and> py_int v = Inr n \<and> dict_get d' dst = Some (JInt n)"
proof -
  from assms(4) obtain i where i: "i < length fs" "fs ! i = (src, dst)"
    by (auto simp: in_set_conv_nth)
  then have split: "fs = take i fs @ (src, dst) # drop (Suc i) fs"
    using id_take_nth_drop by fastforce
  have "src \<notin> snd ` set (take i fs)" using order [OF i(1)] i(2) by simp
  moreover have "dst \<notin> snd ` set (drop (Suc i) fs)"
  proof -
    from assms(2) have "distinct (map snd (take i fs @ (src, dst) # drop (Suc i) fs))"
      by (subst (asm) split)
    then show ?thesis by auto
  qed
  ultimately show ?thesis
    using convert_ints_field [of "take i fs" src dst "drop (Suc i) fs" d d'] assms(1) split by simp
qed

definition ccl_fields :: "json \<Rightarrow> (string \<times> string) list" where
  "ccl_fields op = (if is_p2p op then p2p_fields else collective_fields)"

lemma ccl_fields_ok:
  shows "distinct (map snd (ccl_fields op))"
    and "''finished'' \<notin> snd ` set (ccl_fields op)" "''timestamp'' \<notin> snd ` set (ccl_fields op)"
  by (simp_all add: ccl_fields_def p2p_fields_def collective_fields_def)

lemma ccl_fields_order:
  assumes "i < length (ccl_fields op)"
  shows "fst (ccl_fields op ! i) \<notin> snd ` set (take i (ccl_fields op))"
proof -
  from assms have "i \<in> {0, 1, 2, 3, 4, 5}"
    by (auto simp: ccl_fields_def p2p_fields_def collective_fields_def split: if_splits)
  then show ?thesis
    by (elim insertE emptyE; simp add: ccl_fields_def p2p_fields_def collective_fields_def)
qed

lemma ccl_record_spec:
  assumes "ccl_record now (JObj data) = Inr (rec, w)" "distinct (dict_keys data)"
  shows "\<exists>op fin. dict_get data ''opType'' = Some op \<and> dict_get data ''finished'' = Some fin \<and>
     (\<forall>(src, dst) \<in> set (ccl_fields op). \<exists>v n. dict_get data src = Some v \<and> py_int v = Inr n \<and>
        dict_get rec dst = Some (JInt n)) \<and>
     dict_get rec ''finished'' = Some (JBool (truthy fin)) \<and>
     dict_get rec ''timestamp'' = Some (JFloat now) \<and>
     (\<forall>k. k \<notin> snd ` set (ccl_fields op) \<union> {''finished'', ''timestamp''} \<longrightarrow>
        dict_get rec k = (case dict_get data k of Some JNull \<Rightarrow> None | x \<Rightarrow> x))"
proof -
  from assms(1) obtain op d fin where op: "dict_get data ''opType'' = Some op"
      and d: "convert_ints (ccl_fields op) data = Inr d"
      and fin: "dict_get d ''finished'' = Some fin"
      and rec: "rec = dict_set ''timestamp'' (JFloat now) (drop_nulls (dict_set ''finished'' (JBool (truthy fin)) d))"
    by (auto simp: ccl_record_def res_bind_eq_Inr log_index_def Let_def ccl_fields_def
        split: option.splits if_splits)
  have dist: "distinct (dict_keys (dict_set ''finished'' (JBool (truthy fin)) d))"
    by (intro dict.distinct_keys_store convert_ints_distinct [OF d assms(2)])
  have get: "dict_get rec k = (if k = ''timestamp'' then Some (JFloat now)
      else if k = ''finished'' then Some (JBool (truthy fin))
      else case dict_get d k of Some JNull \<Rightarrow> None | x \<Rightarrow> x)" for k
    unfolding rec by (simp add: drop_nulls_get [OF dist])
  have frame: "k \<notin> snd ` set (ccl_fields op) \<Longrightarrow> dict_get d k = dict_get data k" for k
    by (rule convert_ints_frame [OF d])
  have fields: "\<exists>v n. dict_get data src = Some v \<and> py_int v = Inr n \<and> dict_get rec dst = Some (JInt n)"
    if "(src, dst) \<in> set (ccl_fields op)" for src dst
  proof -
    from that have "dst \<noteq> ''finished''" "dst \<noteq> ''timestamp''"
      using ccl_fields_ok(2,3) [of op] by force+
    then show ?thesis
      using convert_ints_fields [OF d ccl_fields_ok(1) ccl_fields_order that] get by fastforce
  qed
  have "dict_get data ''finished'' = Some fin"
    using fin frame ccl_fields_ok(2) by metis
  moreover have "dict_get rec k = (case dict_get data k of Some JNull \<Rightarrow> None | x \<Rightarrow> x)"
    if "k \<notin> snd ` set (ccl_fields op) \<union> {''finished'', ''timestamp''}" for k
    using that frame [of k] by (simp add: get)
  moreover have "dict_get rec ''finished'' = Some (JBool (truthy fin))"
    "dict_get rec ''timestamp'' = Some (JFloat now)"
    by (simp_all add: get)
  ultimately show ?thesis using op fields by blast
qed

section \<open>Grouping\<close>

lemma dict_get_group_step:
  "dict_get (dict_set k (the (dict_get (if dict_has g k then g else dict_set k [] g) k) @ [l])
       (if dict_has g k then g else dict_set k [] g)) j =
   (if j = k then Some ((case dict_get g k of None \<Rightarrow> [] | Some xs \<Rightarrow> xs) @ [l]) else dict_get g j)"
  by (auto simp: dict_has_def)

lemma group_logs_get:
  "group_logs ls g = Inr g' \<Longrightarrow>
   dict_get g' k = (let new = filter (\<lambda>l. op_key l = Inr k) ls in
     if new = [] then dict_get g k
     else Some ((case dict_get g k of None \<Rightarrow> [] | Some xs \<Rightarrow> xs) @ new))"
proof (induction ls arbitrary: g)
  case Nil
  then show ?case by simp
next
  case (Cons l ls)
  from Cons.prems obtain j where j: "op_key l = Inr j" by (auto simp: res_bind_eq_Inr)
  let ?h = "if dict_has g j then g else dict_set j [] g"
  let ?g = "dict_set j (the (dict_get ?h j) @ [l]) ?h"
  from Cons.prems j have "group_logs ls ?g = Inr g'" by (simp add: Let_def)
  from Cons.IH [OF this] j show ?case
    by (auto simp: dict_get_group_step Let_def dict_has_def split: option.splits)
qed

lemma group_logs_total:
  "(\<forall>l \<in> set ls. \<exists>k. op_key l = Inr k) \<Longrightarrow> \<exists>g'. group_logs ls g = Inr g'"
  by (induction ls arbitrary: g) (auto simp: Let_def)

lemma group_logs_error:
  "l \<in> set ls \<Longrightarrow> op_key l = Inl e \<Longrightarrow> \<exists>e'. group_logs ls g = Inl e'"
proof (induction ls arbitrary: g)
  case (Cons a ls)
  then show ?case by (cases "op_key a") (auto simp: Let_def)
qed simp

lemma group_logs_distinct:
  "group_logs ls g = Inr g' \<Longrightarrow> distinct (dict_keys g) \<Longrightarrow> distinct (dict_keys g')"
proof (induction ls arbitrary: g)
  case (Cons l ls)
  from Cons.prems(1) obtain j where j: "op_key l = Inr j" by (auto simp: res_bind_eq_Inr)
  let ?h = "if dict_has g j then g else dict_set j [] g"
  from Cons.prems j have "group_logs ls (dict_set j (the (dict_get ?h j) @ [l]) ?h) = Inr g'"
    by (simp add: Let_def)
  from Cons.IH [OF this] Cons.prems(2) show ?case by (simp add: dict.distinct_keys_store)
qed simp

lemma mset_dict_set:
  "distinct (dict_keys g) \<Longrightarrow>
   mset (concat (map snd (dict_set k (xs @ [l]) g))) +
     mset (case dict_get g k of None \<Rightarrow> [] | Some ys \<Rightarrow> ys) =
   mset (concat (map snd g)) + mset (xs @ [l])"
  by (induction g) (auto simp: map_of_eq_None_iff split: option.splits)

lemma group_logs_mset:
  "group_logs ls g = Inr g' \<Longrightarrow> distinct (dict_keys g) \<Longrightarrow>
   mset (concat (map snd g')) = mset (concat (map snd g)) + mset ls"
proof (induction ls arbitrary: g)
  case (Cons l ls)
  from Cons.prems(1) obtain j where j: "op_key l = Inr j" by (auto simp: res_bind_eq_Inr)
  let ?h = "if dict_has g j then g else dict_set j [] g"
  have dist: "distinct (dict_keys ?h)" using Cons.prems(2) by (simp add: dict.distinct_keys_store)
  have h: "dict_get ?h j = Some (case dict_get g j of None \<Rightarrow> [] | Some xs \<Rightarrow> xs)"
    by (auto simp: dict_has_def)
  have hm: "mset (concat (map snd ?h)) = mset (concat (map snd g))"
    by (auto simp: dict_has_def dict_set_fresh)
  from Cons.prems j have "group_logs ls (dict_set j (the (dict_get ?h j) @ [l]) ?h) = Inr g'"
    by (simp add: Let_def)
  from Cons.IH [OF this] dist mset_dict_set [OF dist, of j "the (dict_get ?h j)" l] h hm
  show ?case by (simp add: dict.distinct_keys_store)
qed simp

text \<open>A concrete environment for the witnesses: no other host answers, no signal can be sent.\<close>

definition sample_agent :: "environ \<Rightarrow> agent_env" where
  "sample_agent env = \<lparr>environ = env, key_name = (\<lambda>_. []), fetch_pid = (\<lambda>_. HttpConnectionError),
     os_kill = (\<lambda>_. Raise OSError), exn_text = (\<lambda>_. []), json_text = (\<lambda>_. []), own_pid = 1\<rparr>"

section \<open>Properties\<close>

text \<open>C18: A POST to /log_ccl either stores exactly one record and answers 200, or stores nothing and
  raises.  The stored record has every numeric field of its kind of operation as an integer, read from
  the field of the body it comes from, the truth of \<open>finished\<close>, the time of arrival, the body's other
  fields except those that are null, and nothing else.\<close>

theorem log_ccl_stores_typed_record:
  assumes "\<not> ccl_locked s" and "distinct (dict_keys data)"
  shows "(\<exists>e. agent_handle E (LogCcl now (JObj data)) s = (Crash e, s)) \<or>
     (\<exists>rec op fin. agent_handle E (LogCcl now (JObj data)) s =
          (Reply 200 (JStr ''OK''), s\<lparr>ccl_logs := ccl_logs s @ [rec]\<rparr>) \<and>
        dict_get data ''opType'' = Some op \<and> dict_get data ''finished'' = Some fin \<and>
        (\<forall>(src, dst) \<in> set (if is_p2p op then p2p_fields else collective_fields).
           \<exists>v n. dict_get data src = Some v \<and> py_int v = Inr n \<and> dict_get rec dst = Some (JInt n)) \<and>
        dict_get rec ''finished'' = Some (JBool (truthy fin)) \<and>
        dict_get rec ''timestamp'' = Some (JFloat now) \<and>
        (\<forall>k. k \<notin> snd ` set (if is_p2p op then p2p_fields else collective_fields)
               \<union> {''finished'', ''timestamp''} \<longrightarrow>
           dict_get rec k = (case dict_get data k of Some JNull \<Rightarrow> None | x \<Rightarrow> x)))"
proof (cases "ccl_record now (JObj data)")
  case (Inl e)
  then show ?thesis by (simp add: run_view_def log_ccl_free [OF assms(1)])
next
  case (Inr r)
  obtain rec w where r: "r = (rec, w)" by force
  have "agent_handle E (LogCcl now (JObj data)) s =
      (Reply 200 (JStr ''OK''), s\<lparr>ccl_logs := ccl_logs s @ [rec]\<rparr>)"
    by (simp add: run_view_def log_ccl_free [OF assms(1)] Inr r)
  with ccl_record_spec [OF Inr [unfolded r] assms(2)] show ?thesis
    unfolding ccl_fields_def by blast
qed

theorem log_ccl_stores_typed_record_witness:
  "\<exists>rec. snd (agent_handle (sample_agent []) (LogCcl (Fin 5) (JObj
       [(''opType'', JStr ''send''), (''remoteRank'', JStr ''3''), (''context_rank'', JInt 1),
        (''context_size'', JInt 4), (''bytes'', JFloat (Fin (9/2))), (''startTime'', JInt 10),
        (''endTime'', JBool False), (''filename'', JNull), (''finished'', JInt 0)])) (agent_start [] False))
     = (agent_start [] False)\<lparr>ccl_logs := [rec]\<rparr> \<and>
     dict_get rec ''remote_rank'' = Some (JInt 3) \<and> dict_get rec ''bytes'' = Some (JInt 4) \<and>
     dict_get rec ''filename'' = None"
proof -
  let ?data = "[(''opType'', JStr ''send''), (''remoteRank'', JStr ''3''), (''context_rank'', JInt 1),
        (''context_size'', JInt 4), (''bytes'', JFloat (Fin (9/2))), (''startTime'', JInt 10),
        (''endTime'', JBool False), (''filename'', JNull), (''finished'', JInt 0)]"
  let ?s = "agent_start [] False"
  have three: "int_of_str ''3'' = Some 3"
    by (simp add: int_of_str_def strip_def is_space_def digit_val_def)
  have half: "py_int (JFloat (Fin (9/2))) = Inr 4"
    using floor_unique [of 4 "9/2 :: rat"] by (simp add: trunc_rat_def)
  have free: "\<not> ccl_locked ?s" "ccl_logs ?s = []"
    by (simp_all add: agent_start_def monitor_init_def start_monitor_def py_simps)
  have dist: "distinct (dict_keys ?data)" by simp
  have "\<exists>r. ccl_record (Fin 5) (JObj ?data) = Inr r"
    by (simp add: ccl_record_def is_p2p_def p2p_fields_def log_index_def three half Let_def
        del: py_int.simps(4))
  then obtain r where "ccl_record (Fin 5) (JObj ?data) = Inr r" ..
  then have ok: "\<nexists>e. agent_handle (sample_agent []) (LogCcl (Fin 5) (JObj ?data)) ?s = (Crash e, ?s)"
    by (auto simp: run_view_def log_ccl_free [OF free(1)] split: prod.splits)
  from log_ccl_stores_typed_record [OF free(1) dist, of "sample_agent []" "Fin 5"] ok
  obtain rec where rec: "agent_handle (sample_agent []) (LogCcl (Fin 5) (JObj ?data)) ?s =
        (Reply 200 (JStr ''OK''), ?s\<lparr>ccl_logs := ccl_logs ?s @ [rec]\<rparr>)"
      and fields: "\<forall>(src, dst) \<in> set p2p_fields. \<exists>v n. dict_get ?data src = Some v \<and> py_int v = Inr n \<and>
        dict_get rec dst = Some (JInt n)"
      and others: "\<forall>k. k \<notin> snd ` set p2p_fields \<union> {''finished'', ''timestamp''} \<longrightarrow>
        dict_get rec k = (case dict_get ?data k of Some JNull \<Rightarrow> None | x \<Rightarrow> x)"
    by (auto simp: is_p2p_def)
  have "dict_get rec ''remote_rank'' = Some (JInt 3)" "dict_get rec ''bytes'' = Some (JInt 4)"
    using fields three half by (auto simp: p2p_fields_def simp del: py_int.simps(4))
  moreover have "dict_get rec ''filename'' = None"
    using others by (simp add: p2p_fields_def)
  ultimately show ?thesis using rec free(2) by auto
qed

text \<open>Grouping the buffered logs loses and invents nothing: when every log has a usable operation
  type the result has, under each type, exactly the logs of that type in the order they were buffered,
  one group per type, and together they are the buffered logs.\<close>

theorem group_logs_partitions:
  assumes "\<forall>l \<in> set ls. \<exists>k. op_key l = Inr k"
  shows "\<exists>g. group_logs ls [] = Inr g \<and> distinct (dict_keys g) \<and>
     (\<forall>k. dict_get g k = (if \<exists>l \<in> set ls. op_key l = Inr k
        then Some (filter (\<lambda>l. op_key l = Inr k) ls) else None)) \<and>
     mset (concat (map snd g)) = mset ls"
proof -
  obtain g where g: "group_logs ls [] = Inr g"
    using group_logs_total [OF assms] by blast
  have "dict_get g k = (if \<exists>l \<in> set ls. op_key l = Inr k
      then Some (filter (\<lambda>l. op_key l = Inr k) ls) else None)" for k
    using group_logs_get [OF g, of k] by (auto simp: Let_def filter_empty_conv)
  with g group_logs_distinct [OF g] group_logs_mset [OF g] show ?thesis by simp
qed

theorem group_logs_partitions_witness:
  "\<exists>g. group_logs [[(''opType'', JStr ''send''), (''n'', JInt 1)], [(''opType'', JStr ''recv'')],
      [(''opType'', JStr ''send''), (''n'', JInt 2)]] [] = Inr g \<and>
    dict_get g (KStr ''send'') = Some [[(''opType'', JStr ''send''), (''n'', JInt 1)],
      [(''opType'', JStr ''send''), (''n'', JInt 2)]]"
proof -
  let ?ls = "[[(''opType'', JStr ''send''), (''n'', JInt 1)], [(''opType'', JStr ''recv'')],
      [(''opType'', JStr ''send''), (''n'', JInt 2)]]"
  have "\<forall>l \<in> set ?ls. \<exists>k. op_key l = Inr k" by (simp add: op_key_def log_index_def)
  from group_logs_partitions [OF this] obtain g where g: "group_logs ?ls [] = Inr g"
    and get: "\<forall>k. dict_get g k = (if \<exists>l \<in> set ?ls. op_key l = Inr k
        then Some (filter (\<lambda>l. op_key l = Inr k) ?ls) else None)" by blast
  from spec [OF get, of "KStr ''send''"] have "dict_get g (KStr ''send'') =
      Some [[(''opType'', JStr ''send''), (''n'', JInt 1)], [(''opType'', JStr ''send''), (''n'', JInt 2)]]"
    by (simp add: op_key_def log_index_def)
  with g show ?thesis by blast
qed

text \<open>C40: A standby agent cannot be activated, whatever requests it gets while it runs: every POST /activate raises, for the
  attribute \<open>register\<close> does not exist, but marks the node active for good; the threads are never started, so
  every POST /remove raises too, having set the stop flag, and GET /metrics answers what the agent was
  initialised with, ever after.\<close>

theorem standby_never_starts:
  assumes "serve (agent_handle E) qs (agent_start env True) = (replies, s)"
  shows "\<not> threads_started s \<and> mon_status s = (if Activate \<in> set qs then ''active'' else ''standby'') \<and>
     (is_standby s \<longleftrightarrow> Activate \<notin> set qs) \<and> (stop_event s \<longleftrightarrow> Remove \<in> set qs) \<and> length replies = length qs \<and>
     (\<forall>i < length qs. (qs ! i = Activate \<longrightarrow> replies ! i = Crash (AttributeError ''register'')) \<and>
        (qs ! i = Remove \<longrightarrow> replies ! i = Crash (AttributeError ''monitor_thread'')) \<and>
        (qs ! i = GetMetrics \<longrightarrow> replies ! i = Reply 200 (JObj [(''ram_usage'', JFloat (Fin 0)),
           (''cpu_usage'', JFloat (Fin 0)), (''compute_engine_status'', JStr ''unknown'')])))"
proof -
  let ?s = "agent_start env True"
  have idle: "idle_agent ?s" "mon_status ?s = ''standby''" "is_standby ?s" "\<not> stop_event ?s"
    by (simp_all add: idle_agent_def agent_start_def monitor_init_def)
  from idle_serve [OF idle(1), of E qs] idle(2-4) show ?thesis
    unfolding assms by (simp add: list_all2_conv_all_nth idle_agent_def idle_reply_def)
qed

theorem standby_never_starts_witness:
  "\<exists>a c s. serve (agent_handle (sample_agent [])) [Activate, Remove, GetMetrics] (agent_start [] True) =
     ([Crash (AttributeError ''register''), a, c], s) \<and> \<not> threads_started s \<and> stop_event s"
proof -
  obtain replies s where run: "serve (agent_handle (sample_agent [])) [Activate, Remove, GetMetrics] (agent_start [] True) =
      (replies, s)" by force
  note run_facts = standby_never_starts [OF run]
  then obtain x y z where "replies = [x, y, z]" by (auto simp: length_Suc_conv numeral_3_eq_3)
  with run run_facts show ?thesis by (simp del: serve.simps agent_handle.simps) auto
qed

text \<open>One round of the sender, when every buffered log has a usable type: nothing is sent or changed
  if the buffer is empty; otherwise the grouped logs are posted once, and the buffer is emptied exactly
  when the server answers 200 -- any other status or a request error keeps the logs for the next round.\<close>

theorem send_round_clears_on_200:
  assumes "\<not> ccl_locked s" and "\<forall>l \<in> set (ccl_logs s). \<exists>k. op_key l = Inr k"
  shows "\<exists>g. group_logs (ccl_logs s) [] = Inr g \<and>
     send_metrics_round E post latency s =
       (if ccl_logs s = [] then (Return latency, s)
        else case post (metrics_payload E latency g s) of
               (HttpResponse code body, elapsed) \<Rightarrow>
                 (Return elapsed, if code = 200 then s\<lparr>ccl_logs := []\<rparr> else s)
             | (_, _) \<Rightarrow> (Return latency, s))"
proof -
  obtain g where "group_logs (ccl_logs s) [] = Inr g"
    using group_logs_total [OF assms(2)] by blast
  then show ?thesis
    by (auto simp: send_metrics_round_def py_simps ccl_free assms(1) split: prod.splits http.splits)
qed

theorem send_round_clears_on_200_witness:
  "send_metrics_round (sample_agent []) (\<lambda>_. (HttpResponse 200 None, Fin 2)) (Fin 1)
     ((agent_start [] False)\<lparr>ccl_logs := [[(''opType'', JStr ''send'')]]\<rparr>)
   = (Return (Fin 2), agent_start [] False)"
proof -
  let ?s = "(agent_start [] False)\<lparr>ccl_logs := [[(''opType'', JStr ''send'')]]\<rparr>"
  have "\<not> ccl_locked ?s" "\<forall>l \<in> set (ccl_logs ?s). \<exists>k. op_key l = Inr k"
    by (simp_all add: agent_start_def monitor_init_def start_monitor_def py_simps op_key_def log_index_def)
  from send_round_clears_on_200 [OF this, of "sample_agent []" "\<lambda>_. (HttpResponse 200 None, Fin 2)" "Fin 1"]
  have "send_metrics_round (sample_agent []) (\<lambda>_. (HttpResponse 200 None, Fin 2)) (Fin 1) ?s
      = (Return (Fin 2), ?s\<lparr>ccl_logs := []\<rparr>)" by auto
  then show ?thesis
    by (simp add: agent_start_def monitor_init_def start_monitor_def py_simps)
qed

text \<open>A body whose operation type is null and whose other fields convert is accepted with 200, but the
  record stored for it has no operation type: from then on, whatever other logs are in the buffer, every
  round of the sender raises and leaves the buffer as it is, so the thread ends and nothing is reported.\<close>

lemma null_type_ends_reporting:
  assumes "\<not> ccl_locked s" "distinct (dict_keys data)" "dict_get data ''opType'' = Some JNull"
    and "agent_handle E (LogCcl now (JObj data)) s = (Reply 200 r, s')"
  shows "\<exists>rec. ccl_logs s' = ccl_logs s @ [rec] \<and> op_key rec = Inl (KeyError ''opType'') \<and>
     (\<forall>more post latency. \<exists>e. send_metrics_round E post latency (s'\<lparr>ccl_logs := ccl_logs s' @ more\<rparr>)
        = (Raise e, s'\<lparr>ccl_logs := ccl_logs s' @ more\<rparr>))"
proof -
  from assms(4) obtain rec w where rec: "ccl_record now (JObj data) = Inr (rec, w)"
      and s': "s' = s\<lparr>ccl_logs := ccl_logs s @ [rec]\<rparr>"
    by (cases "ccl_record now (JObj data)") (auto simp: run_view_def log_ccl_free [OF assms(1)])
  have "''opType'' \<notin> snd ` set (ccl_fields JNull) \<union> {''finished'', ''timestamp''}"
    by (simp add: ccl_fields_def is_p2p_def collective_fields_def)
  with ccl_record_spec [OF rec assms(2)] assms(3) have "dict_get rec ''opType'' = None" by auto
  then have key: "op_key rec = Inl (KeyError ''opType'')" by (simp add: op_key_def log_index_def)
  have "\<exists>e. send_metrics_round E post latency (s'\<lparr>ccl_logs := ccl_logs s' @ more\<rparr>)
        = (Raise e, s'\<lparr>ccl_logs := ccl_logs s' @ more\<rparr>)" for more post latency
  proof -
    have "rec \<in> set (ccl_logs s' @ more)" by (simp add: s')
    then obtain e where "group_logs (ccl_logs s' @ more) [] = Inl e"
      using group_logs_error key by blast
    then show ?thesis
      by (simp add: send_metrics_round_def py_simps ccl_free assms(1) s')
  qed
  with key s' show ?thesis by auto
qed

lemma null_type_ends_reporting_witness:
  "\<exists>s' rec. agent_handle (sample_agent []) (LogCcl (Fin 0) (JObj
       [(''opType'', JNull), (''count'', JInt 1), (''rootRank'', JInt 0), (''context_rank'', JInt 1),
        (''context_size'', JInt 4), (''startTime'', JInt 10), (''endTime'', JInt 0),
        (''finished'', JBool True)])) (agent_start [] False) = (Reply 200 (JStr ''OK''), s') \<and>
     ccl_logs s' = [rec] \<and> op_key rec = Inl (KeyError ''opType'')"
proof -
  let ?data = "[(''opType'', JNull), (''count'', JInt 1), (''rootRank'', JInt 0), (''context_rank'', JInt 1),
        (''context_size'', JInt 4), (''startTime'', JInt 10), (''endTime'', JInt 0),
        (''finished'', JBool True)]"
  let ?s = "agent_start [] False"
  have free: "\<not> ccl_locked ?s" "ccl_logs ?s = []"
    by (simp_all add: agent_start_def monitor_init_def start_monitor_def py_simps)
  have "\<exists>r. ccl_record (Fin 0) (JObj ?data) = Inr r"
    by (simp add: ccl_record_def is_p2p_def collective_fields_def log_index_def Let_def)
  then obtain s' where s': "agent_handle (sample_agent []) (LogCcl (Fin 0) (JObj ?data)) ?s = (Reply 200 (JStr ''OK''), s')"
    by (auto simp: run_view_def log_ccl_free [OF free(1)] split: prod.splits)
  have "distinct (dict_keys ?data)" "dict_get ?data ''opType'' = Some JNull" by simp_all
  from null_type_ends_reporting [OF free(1) this s'] s' free(2) show ?thesis by fastforce
qed

end
