(* ===== verification/Recovery.thy ===== *)
theory Recovery
  imports C4D_Prelude
begin

text \<open>
  The client library of \<open>components/compute-engine/user_code/recovery.py\<close>, which the training
  program uses to talk to the agent of its node.  The HTTP calls are parameters: what the agent
  answers to a GET of a path and to a POST of a payload to a path.  A reporting method returns the
  level of the message it logs, the only trace it leaves.
\<close>

type_synonym http_get = "string \<Rightarrow> http"

type_synonym http_post = "string \<Rightarrow> json \<Rightarrow> http"

datatype log_level = LogInfo | LogError

text \<open>
  \<open>response.raise_for_status()\<close> raises for a client or server error; \<open>response.json()\<close> raises a
  request exception when the body is not JSON.
\<close>

definition raise_for_status :: "http \<Rightarrow> json option result" where
  "raise_for_status r = (case r of
       HttpResponse code body \<Rightarrow>
         if 400 \<le> code \<and> code < 600 then Inl RequestException else Inr body
     | _ \<Rightarrow> Inl RequestException)"

definition json_body :: "json option \<Rightarrow> json result" where
  "json_body b = (case b of None \<Rightarrow> Inl RequestException | Some j \<Rightarrow> Inr j)"

text \<open>\<open>try: \<dots> except requests.RequestException: logger.error(\<dots>)\<close>.\<close>

definition logged :: "json option result \<Rightarrow> log_level result" where
  "logged r = (case r of
       Inr _ \<Rightarrow> Inr LogInfo
     | Inl e \<Rightarrow> if e = RequestException then Inr LogError else Inl e)"

definition fetch_env_vars :: "http_get \<Rightarrow> json result" where
  "fetch_env_vars get = res_bind (raise_for_status (get ''/env'')) json_body"

definition report_event :: "http_post \<Rightarrow> json \<Rightarrow> json \<Rightarrow> log_level result" where
  "report_event post event_type details =
     logged (raise_for_status (post ''/log'' (JObj [(''key'', event_type), (''value'', details)])))"

definition assign_rank :: "http_get \<Rightarrow> string \<Rightarrow> (json \<times> json) result" where
  "assign_rank get node_id =
     res_bind (raise_for_status (get (''/rank/'' @ node_id))) (\<lambda>body.
     res_bind (json_body body) (\<lambda>rank_info.
     res_bind (json_index rank_info ''rank'') (\<lambda>rank.
     res_bind (json_index rank_info ''world_size'') (\<lambda>world_size. Inr (rank, world_size)))))"

definition offload_model_state :: "http_post \<Rightarrow> json \<Rightarrow> json \<Rightarrow> log_level result" where
  "offload_model_state post source_node_id target_node_id =
     logged (raise_for_status (post ''/offload''
       (JObj [(''source_node_id'', source_node_id), (''target_node_id'', target_node_id)])))"

definition notify_offload :: "http_post \<Rightarrow> json \<Rightarrow> json \<Rightarrow> log_level result" where
  "notify_offload post target_node_id checkpoint_path =
     logged (raise_for_status (post ''/offload''
       (JObj [(''target_node_id'', target_node_id), (''checkpoint_path'', checkpoint_path)])))"

section \<open>Which methods can raise\<close>

lemma raise_for_status_Inl: "raise_for_status r = Inl e \<Longrightarrow> e = RequestException"
  by (auto simp: raise_for_status_def split: http.splits if_splits)

lemma logged_never_raises: "\<exists>l. logged (raise_for_status r) = Inr l"
  by (cases "raise_for_status r") (auto simp: logged_def dest: raise_for_status_Inl)

lemma logged_Info_iff:
  "logged (raise_for_status r) = Inr LogInfo \<longleftrightarrow>
   (\<exists>code body. r = HttpResponse code body \<and> \<not> (400 \<le> code \<and> code < 600))"
  by (auto simp: logged_def raise_for_status_def split: http.splits)

section \<open>Properties\<close>

text \<open>The reporting methods never raise, whatever the agent answers or if it cannot be reached, and
  they log success exactly for an answer that is no client or server error; the two fetching methods
  raise a request exception for every failed call and every body that is not JSON.\<close>

theorem recovery_error_policy:
  "(\<exists>l. report_event post t d = Inr l) \<and>
   (\<exists>l. offload_model_state post a b = Inr l) \<and>
   (\<exists>l. notify_offload post a b = Inr l) \<and>
   (report_event post t d = Inr LogInfo \<longleftrightarrow>
      (\<exists>code body. post ''/log'' (JObj [(''key'', t), (''value'', d)]) = HttpResponse code body \<and>
         \<not> (400 \<le> code \<and> code < 600))) \<and>
   (\<forall>e. fetch_env_vars get = Inl e \<longrightarrow> e = RequestException) \<and>
   (\<forall>v. fetch_env_vars get = Inr v \<longleftrightarrow>
      (\<exists>code. get ''/env'' = HttpResponse code (Some v) \<and> \<not> (400 \<le> code \<and> code < 600)))"
proof -
  have "e = RequestException" if "fetch_env_vars get = Inl e" for e
    using that by (auto simp: fetch_env_vars_def res_bind_eq_Inl json_body_def
        dest: raise_for_status_Inl split: option.splits)
  moreover have "fetch_env_vars get = Inr v \<longleftrightarrow>
      (\<exists>code. get ''/env'' = HttpResponse code (Some v) \<and> \<not> (400 \<le> code \<and> code < 600))" for v
    by (auto simp: fetch_env_vars_def res_bind_eq_Inr json_body_def raise_for_status_def
        split: option.splits http.splits if_splits)
  ultimately show ?thesis
    by (simp add: report_event_def offload_model_state_def notify_offload_def logged_never_raises
        logged_Info_iff)
qed

theorem recovery_error_policy_witness:
  "fetch_env_vars (\<lambda>_. HttpResponse 200 (Some (JObj []))) = Inr (JObj []) \<and>
   (\<exists>l. report_event (\<lambda>_ _. HttpConnectionError) JNull JNull = Inr l)"
  using recovery_error_policy [of "\<lambda>_ _. HttpConnectionError" JNull JNull JNull JNull
      "\<lambda>_. HttpResponse 200 (Some (JObj []))"] by simp

end
