(* ===== verification/Lr_Schedule.thy ===== *)
theory Lr_Schedule
  imports C4D_Prelude
begin

text \<open>
  The module constants the training programs share and their learning-rate schedules: linear warm-up,
  then a cosine.  \<open>get_lr\<close> is the one of \<open>compute-engine/user_code/train.py\<close> (and
  \<open>workspace/compute/train.py\<close>), \<open>single_get_lr\<close> the one of \<open>workspace/train_single.py\<close>.  Float
  arithmetic is that of the reals.
\<close>

section \<open>Constants\<close>

definition eval_interval :: int where "eval_interval = 20"
definition log_interval :: int where "log_interval = 1"
definition eval_iters :: nat where "eval_iters = 20"
definition max_iters :: int where "max_iters = 1000"
definition warmup_iters :: int where "warmup_iters = 100"
definition lr_decay_iters :: int where "lr_decay_iters = 1000"
definition min_lr :: real where "min_lr = 1 / 10 ^ 4"

definition learning_rate :: real where "learning_rate = 3 / 10 ^ 4"
definition single_learning_rate :: real where "single_learning_rate = 1 / 10 ^ 3"

lemmas constants = eval_interval_def log_interval_def eval_iters_def max_iters_def warmup_iters_def
  lr_decay_iters_def min_lr_def learning_rate_def single_learning_rate_def

section \<open>Schedules\<close>

definition cosine_coeff :: "real \<Rightarrow> real" where
  "cosine_coeff decay_ratio = 1 / 2 * (1 + cos (pi * decay_ratio))"

definition get_lr :: "int \<Rightarrow> real" where
  "get_lr iter_num =
     (if iter_num < warmup_iters then learning_rate * of_int iter_num / of_int warmup_iters
      else let decay_ratio = of_int (iter_num - warmup_iters) / of_int (max_iters - warmup_iters);
               coeff = cosine_coeff decay_ratio
           in min_lr + coeff * (learning_rate - min_lr))"

definition single_get_lr :: "int \<Rightarrow> real" where
  "single_get_lr iter_num =
     (if iter_num < warmup_iters then single_learning_rate * of_int iter_num / of_int warmup_iters
      else if iter_num > lr_decay_iters then min_lr
      else let decay_ratio = of_int (iter_num - warmup_iters) / of_int (lr_decay_iters - warmup_iters);
               coeff = cosine_coeff decay_ratio
           in min_lr + coeff * (single_learning_rate - min_lr))"

section \<open>The shape of a schedule\<close>

text \<open>
  What the training loop may rely on, whichever schedule it uses: a rate that rises from zero to the
  peak, then falls to the floor at the end.
\<close>

locale lr_schedule =
  fixes lr :: "int \<Rightarrow> real"
    and peak :: real
  assumes at_start: "lr 0 = 0"
    and at_peak: "lr warmup_iters = peak"
    and at_end: "lr max_iters = min_lr"
    and rises: "0 \<le> i \<Longrightarrow> i < j \<Longrightarrow> j \<le> warmup_iters \<Longrightarrow> lr i < lr j"
    and falls: "warmup_iters \<le> i \<Longrightarrow> i < j \<Longrightarrow> j \<le> max_iters \<Longrightarrow> lr j < lr i"
begin

lemma rises_le: "0 \<le> i \<Longrightarrow> i \<le> j \<Longrightarrow> j \<le> warmup_iters \<Longrightarrow> lr i \<le> lr j"
  using rises [of i j] by (cases "i = j") auto

lemma falls_le: "warmup_iters \<le> i \<Longrightarrow> i \<le> j \<Longrightarrow> j \<le> max_iters \<Longrightarrow> lr j \<le> lr i"
  using falls [of i j] by (cases "i = j") auto

lemma bounds:
  assumes "0 \<le> i" "i \<le> max_iters"
  shows "0 \<le> lr i" "lr i \<le> peak" "warmup_iters \<le> i \<Longrightarrow> min_lr \<le> lr i" "0 < i \<Longrightarrow> 0 < lr i"
proof -
  have floor: "min_lr \<le> lr i" if "warmup_iters \<le> i"
    using falls_le [OF that assms(2)] at_end by simp
  then show "warmup_iters \<le> i \<Longrightarrow> min_lr \<le> lr i" .
  show "0 \<le> lr i" "lr i \<le> peak"
    using floor rises_le [of 0 i] rises_le [of i warmup_iters] falls_le [of warmup_iters i] assms
      at_start at_peak by (cases "i < warmup_iters"; force simp: constants)+
  show "0 < lr i" if "0 < i"
    using floor rises [of 0 i] that at_start by (cases "i < warmup_iters"; force simp: constants)
qed

end

lemma cosine_coeff_ends: "cosine_coeff 0 = 1" "cosine_coeff 1 = 0"
  by (simp_all add: cosine_coeff_def)

lemma cosine_coeff_less: "0 \<le> a \<Longrightarrow> a < b \<Longrightarrow> b \<le> 1 \<Longrightarrow> cosine_coeff b < cosine_coeff a"
  using cos_monotone_0_pi [of "pi * a" "pi * b"] by (simp add: cosine_coeff_def)

lemma warmup_less: "i < j \<Longrightarrow> 0 < p \<Longrightarrow>
    p * of_int i / of_int warmup_iters < p * of_int j / (of_int warmup_iters :: real)"
  by (simp add: constants divide_strict_right_mono)

lemma cosine_less:
  assumes "warmup_iters \<le> i" "i < j" "j \<le> max_iters" "min_lr < p"
  shows "min_lr + cosine_coeff (of_int (j - warmup_iters) / of_int (max_iters - warmup_iters)) * (p - min_lr)
    < min_lr + cosine_coeff (of_int (i - warmup_iters) / of_int (max_iters - warmup_iters)) * (p - min_lr)"
proof -
  have "cosine_coeff (of_int (j - warmup_iters) / of_int (max_iters - warmup_iters))
    < cosine_coeff (of_int (i - warmup_iters) / of_int (max_iters - warmup_iters))"
    using assms by (intro cosine_coeff_less) (simp_all add: constants)
  with assms(4) show ?thesis by simp
qed

interpretation schedule: lr_schedule get_lr learning_rate
proof
  show "get_lr 0 = 0" "get_lr warmup_iters = learning_rate" "get_lr max_iters = min_lr"
    by (simp_all add: get_lr_def cosine_coeff_ends constants)
  show "get_lr i < get_lr j" if "0 \<le> i" "i < j" "j \<le> warmup_iters" for i j
    using that warmup_less [of i j learning_rate]
    by (cases "j = warmup_iters") (simp_all add: get_lr_def cosine_coeff_ends constants)
  show "get_lr j < get_lr i" if "warmup_iters \<le> i" "i < j" "j \<le> max_iters" for i j
    using cosine_less [OF that, of learning_rate] that by (simp add: get_lr_def constants)
qed

interpretation single: lr_schedule single_get_lr single_learning_rate
proof
  show "single_get_lr 0 = 0" "single_get_lr warmup_iters = single_learning_rate"
    "single_get_lr max_iters = min_lr"
    by (simp_all add: single_get_lr_def cosine_coeff_ends constants)
  show "single_get_lr i < single_get_lr j" if "0 \<le> i" "i < j" "j \<le> warmup_iters" for i j
    using that warmup_less [of i j single_learning_rate]
    by (cases "j = warmup_iters") (simp_all add: single_get_lr_def cosine_coeff_ends constants)
  show "single_get_lr j < single_get_lr i" if "warmup_iters \<le> i" "i < j" "j \<le> max_iters" for i j
    using cosine_less [OF that, of single_learning_rate] that by (simp add: single_get_lr_def constants)
qed

section \<open>Properties\<close>

text \<open>Over the whole run the learning rate starts at zero, rises strictly to its peak at the end of
  the warm-up, falls strictly to the floor at the last iteration, and is positive and at most the peak
  from the second iteration on.\<close>

theorem lr_shape:
  "get_lr 0 = 0 \<and> get_lr warmup_iters = learning_rate \<and> get_lr max_iters = min_lr \<and>
   (\<forall>i j. 0 \<le> i \<and> i < j \<and> j \<le> warmup_iters \<longrightarrow> get_lr i < get_lr j) \<and>
   (\<forall>i j. warmup_iters \<le> i \<and> i < j \<and> j \<le> max_iters \<longrightarrow> get_lr j < get_lr i) \<and>
   (\<forall>i. 0 < i \<and> i \<le> max_iters \<longrightarrow> 0 < get_lr i \<and> get_lr i \<le> learning_rate)"
  using schedule.at_start schedule.at_peak schedule.at_end schedule.rises schedule.falls schedule.bounds
  by auto

theorem lr_shape_witness:
  "get_lr 50 < get_lr 60 \<and> get_lr 900 < get_lr 500 \<and> 0 < get_lr 1000"
  using lr_shape by (auto simp: constants)

text \<open>The clamped schedule never leaves the range from zero to its peak, however long training goes
  on, and from the first iteration of the decay on never drops below the floor.\<close>

lemma single_lr_bounded:
  assumes "0 \<le> i"
  shows "0 \<le> single_get_lr i \<and> single_get_lr i \<le> single_learning_rate \<and>
     (warmup_iters \<le> i \<longrightarrow> min_lr \<le> single_get_lr i) \<and> (max_iters \<le> i \<longrightarrow> single_get_lr i = min_lr)"
proof (cases "i \<le> max_iters")
  case True
  with single.bounds [OF assms True] single.at_end show ?thesis by auto
next
  case False
  then show ?thesis by (simp add: single_get_lr_def constants)
qed

lemma single_lr_bounded_witness: "single_get_lr 5000 = min_lr"
  using single_lr_bounded [of 5000] by (simp add: max_iters_def)

end
