(* ===== verification/Training.thy ===== *)
theory Training
  imports Recovery Lr_Schedule
begin

text \<open>
  The training program \<open>compute-engine/user_code/train.py\<close>: its signal handlers, the distributed
  setup, the sizes each process works with and the training loop, and beside it the loop of
  \<open>workspace/compute/train.py\<close>, the same but for the report.  What PyTorch does is a record of
  operations on a world (the model, the optimizer, the generators, the cached data, the clock), opening and
  writing a file among them.  What
  the program prints is kept as a list of messages.
\<close>

section \<open>The world\<close>

record ('w, 'b, 'c) torch_ops =
  init_group :: "('w, unit) py"
  destroy_group :: "'w \<Rightarrow> 'w"
  manual_seed :: "int \<Rightarrow> 'w \<Rightarrow> 'w"
  build_model :: "int \<Rightarrow> bool \<Rightarrow> 'w \<Rightarrow> 'w"
  set_lr :: "real \<Rightarrow> 'w \<Rightarrow> 'w"
  load_batch :: "string \<Rightarrow> int \<Rightarrow> ('w, 'b) py"
  forward :: "'b \<Rightarrow> ('w, pyfloat) py"
  backward :: "int \<Rightarrow> 'w \<Rightarrow> 'w"
  clip_grads :: "'w \<Rightarrow> 'w"
  grad_nans :: "'w \<Rightarrow> bool option list"
  opt_step :: "'w \<Rightarrow> 'w"
  zero_grad :: "'w \<Rightarrow> 'w"
  eval_mode :: "'w \<Rightarrow> 'w"
  train_mode :: "'w \<Rightarrow> 'w"
  state_dicts :: "'w \<Rightarrow> 'c"
  open_file :: "('w, unit) py"
  write_file :: "('w, unit) py"
  clock :: "('w, pyfloat) py"

text \<open>A checkpoint: the states of model and optimizer, \<open>iter_num\<close> and \<open>best_val_loss\<close>.\<close>

record 'c checkpoint =
  ck_state :: 'c
  ck_iter :: int
  ck_best :: pyfloat

text \<open>What is at the path of the checkpoint, if anything: a complete file, or one whose writing did not end.\<close>

datatype 'c ckpt_file = Whole "'c checkpoint" | Partial

datatype message =
    TrainLog int pyfloat real
  | SkipLog int
  | ValLog int pyfloat
  | SaveLog int

record ('w, 'c) run =
  world :: 'w
  iter_num :: int
  best_val_loss :: pyfloat
  start_time :: pyfloat
  ckpt_file :: "'c ckpt_file option"
  printed :: "message list"

definition in_world :: "('w, 'a) py \<Rightarrow> (('w, 'c) run, 'a) py" where
  "in_world m = (\<lambda>s. case m (world s) of (r, w) \<Rightarrow> (r, s\<lparr>world := w\<rparr>))"

definition do_world :: "('w \<Rightarrow> 'w) \<Rightarrow> (('w, 'c) run, unit) py" where
  "do_world f = py_modify (\<lambda>s. s\<lparr>world := f (world s)\<rparr>)"

definition say :: "message \<Rightarrow> (('w, 'c) run, unit) py" where
  "say m = py_modify (\<lambda>s. s\<lparr>printed := printed s @ [m]\<rparr>)"

lemma in_world_apply [py_simps]: "m (world s) = (r, w) \<Longrightarrow> in_world m s = (r, s\<lparr>world := w\<rparr>)"
  by (simp add: in_world_def)

lemma do_world_apply [py_simps]: "do_world f s = (Return (), s\<lparr>world := f (world s)\<rparr>)"
  by (simp add: do_world_def py_simps)

lemma say_apply [py_simps]: "say m s = (Return (), s\<lparr>printed := printed s @ [m]\<rparr>)"
  by (simp add: say_def py_simps)

section \<open>Program\<close>

text \<open>\<open>setup_distributed\<close> gives whether the run is distributed, the rank, the size, whether it is the master.\<close>

definition setup_distributed ::
  "('w, 'b, 'c) torch_ops \<Rightarrow> http_get \<Rightarrow> ('w, bool \<times> int \<times> int \<times> bool) py" where
  "setup_distributed E get =
     py_seq (init_group E)
    (py_bind (py_lift (fetch_env_vars get)) (\<lambda>env_vars.
     py_bind (py_lift (res_bind (json_get_default env_vars ''RANK'' (JInt (-1))) py_int)) (\<lambda>rank.
     py_bind (py_lift (res_bind (json_get_default env_vars ''WORLD_SIZE'' (JInt 1)) py_int)) (\<lambda>world_size.
       if rank = -1 then py_return (False, 0, 1, True)
       else let is_master = (rank = 0) in
         py_seq (py_modify (manual_seed E (1337 + rank)))
                (py_return (True, rank, world_size, is_master))))))"

definition floor_div :: "int \<Rightarrow> int \<Rightarrow> int result" where
  "floor_div a b = (if b = 0 then Inl ZeroDivisionError else Inr (a div b))"

definition module_batch_size :: int where "module_batch_size = 8"
definition module_grad_accum :: int where "module_grad_accum = 1"

definition local_sizes :: "bool \<Rightarrow> int \<Rightarrow> (int \<times> int) result" where
  "local_sizes is_distributed world_size =
     (if is_distributed then
        res_bind (floor_div module_batch_size world_size) (\<lambda>b.
        res_bind (floor_div module_grad_accum world_size) (\<lambda>g. Inr (max b 1, max g 1)))
      else Inr (module_batch_size, module_grad_accum))"

text \<open>The gradient clipping of the constants: \<open>grad_clip = 0.5\<close>.\<close>

definition grad_clip :: rat where "grad_clip = 1 / 2"

text \<open>
  The first half of the loop's body, up to the check for NaN gradients.  \<open>None\<close> stands for
  \<open>continue\<close>; otherwise the loss and the rate, for the message.
\<close>

definition gradient_half ::
  "('w, 'b, 'c) torch_ops \<Rightarrow> int \<Rightarrow> int \<Rightarrow> (('w, 'c) run, (pyfloat \<times> real) option) py" where
  "gradient_half E batch_size grad_accum =
     py_bind (py_get iter_num) (\<lambda>it.
     let lr = get_lr it in
     py_seq (do_world (set_lr E lr))
    (py_bind (in_world (load_batch E ''train'' batch_size)) (\<lambda>b.
     py_bind (in_world (forward E b)) (\<lambda>loss.
     py_seq (do_world (backward E grad_accum))
    (py_seq (if grad_clip \<noteq> 0 then do_world (clip_grads E) else py_return ())
    (py_bind (py_get (\<lambda>s. Some True \<notin> set (grad_nans E (world s)))) (\<lambda>valid_gradients.
       if \<not> valid_gradients then
         py_seq (say (SkipLog it)) (py_seq (do_world (zero_grad E)) (py_return None))
       else py_return (Some (loss, lr)))))))))"

primrec val_sum ::
  "('w, 'b, 'c) torch_ops \<Rightarrow> int \<Rightarrow> nat \<Rightarrow> pyfloat \<Rightarrow> (('w, 'c) run, pyfloat) py" where
  "val_sum E batch_size 0 acc = py_return acc"
| "val_sum E batch_size (Suc n) acc =
     py_bind (in_world (load_batch E ''val'' batch_size)) (\<lambda>b.
     py_bind (in_world (forward E b)) (\<lambda>loss. val_sum E batch_size n (pf_add acc loss)))"

text \<open>
  \<open>torch.save\<close> opens the file, which empties it, and then writes it; either can raise, the disk being full
  or the directory missing.  \<open>on_save\<close> is what follows: the report to the agent, or nothing.
\<close>

definition save_checkpoint ::
  "('w, 'b, 'c) torch_ops \<Rightarrow> (('w, 'c) run, unit) py \<Rightarrow> (('w, 'c) run, unit) py" where
  "save_checkpoint E on_save =
     py_bind (py_get (\<lambda>s. \<lparr>ck_state = state_dicts E (world s), ck_iter = iter_num s, ck_best = best_val_loss s\<rparr>)) (\<lambda>c.
     py_seq (in_world (open_file E))
    (py_seq (py_modify (\<lambda>s. s\<lparr>ckpt_file := Some Partial\<rparr>))
    (py_seq (in_world (write_file E))
    (py_seq (py_modify (\<lambda>s. s\<lparr>ckpt_file := Some (Whole c)\<rparr>)) on_save))))"

definition evaluate ::
  "('w, 'b, 'c) torch_ops \<Rightarrow> (('w, 'c) run, unit) py \<Rightarrow> int \<Rightarrow> (('w, 'c) run, unit) py" where
  "evaluate E on_save batch_size =
     py_bind (py_get iter_num) (\<lambda>it.
     py_seq (do_world (eval_mode E))
    (py_bind (val_sum E batch_size eval_iters (Fin 0)) (\<lambda>total.
     let val_loss = pf_div_pos total (Fin (of_nat eval_iters)) in
     py_seq (say (ValLog it val_loss))
    (py_bind (py_get best_val_loss) (\<lambda>best.
     py_seq (if pf_less val_loss best then
               py_seq (py_modify (\<lambda>s. s\<lparr>best_val_loss := val_loss\<rparr>))
                      (if it > 0 then save_checkpoint E on_save else py_return ())
             else py_return ())
            (do_world (train_mode E)))))))"

definition report_training_time ::
  "('w, 'b, 'c) torch_ops \<Rightarrow> http_post \<Rightarrow> (('w, 'c) run, unit) py" where
  "report_training_time E post =
     py_bind (in_world (clock E)) (\<lambda>now.
     py_bind (py_get (\<lambda>s. (iter_num s, start_time s))) (\<lambda>(it, start).
     py_bind (py_lift (report_event post (JStr ''training_time'')
         (JObj [(''iteration_time'', JFloat (pf_sub now start)), (''iteration'', JInt it)]))) (\<lambda>_.
     py_bind (in_world (clock E)) (\<lambda>now'.
     py_seq (py_modify (\<lambda>s. s\<lparr>start_time := now'\<rparr>)) (say (SaveLog it))))))"

text \<open>The second half: the update, the messages, the evaluation, and whether the loop goes on.\<close>

definition update_half ::
  "('w, 'b, 'c) torch_ops \<Rightarrow> (('w, 'c) run, unit) py \<Rightarrow> bool \<Rightarrow> int \<Rightarrow> pyfloat \<Rightarrow> real \<Rightarrow> (('w, 'c) run, bool) py" where
  "update_half E on_save is_master batch_size loss lr =
     py_seq (do_world (opt_step E))
    (py_seq (do_world (zero_grad E))
    (py_bind (py_get iter_num) (\<lambda>it.
     py_seq (if is_master \<and> it mod log_interval = 0 then say (TrainLog it loss lr) else py_return ())
    (py_seq (if is_master \<and> it mod eval_interval = 0 then evaluate E on_save batch_size else py_return ())
    (py_seq (py_modify (\<lambda>s. s\<lparr>iter_num := iter_num s + 1\<rparr>))
            (py_get (\<lambda>s. \<not> iter_num s > max_iters)))))))"

text \<open>One execution of the loop's body: whether the loop goes on.\<close>

definition loop_body ::
  "('w, 'b, 'c) torch_ops \<Rightarrow> (('w, 'c) run, unit) py \<Rightarrow> bool \<Rightarrow> int \<Rightarrow> int \<Rightarrow> (('w, 'c) run, bool) py" where
  "loop_body E on_save is_master batch_size grad_accum =
     py_bind (gradient_half E batch_size grad_accum) (\<lambda>r. case r of
       None \<Rightarrow> py_return True
     | Some (loss, lr) \<Rightarrow> update_half E on_save is_master batch_size loss lr)"

text \<open>\<open>while True\<close>: \<open>None\<close> when the loop never ends.\<close>

partial_function (option) train_loop :: "('s, bool) py \<Rightarrow> 's \<Rightarrow> (unit outcome \<times> 's) option" where
  "train_loop body s =
     (case body s of
        (Return go_on, s') \<Rightarrow> if go_on then train_loop body s' else Some (Return (), s')
      | (Raise e, s') \<Rightarrow> Some (Raise e, s')
      | (Blocked, s') \<Rightarrow> Some (Blocked, s'))"

text \<open>
  \<open>train()\<close>: \<open>meta_vocab\<close> is the size in \<open>meta.pkl\<close> if the file exists.  The state the function is
  called with is the world and the files; its local variables are set before the loop.
\<close>

definition vocab_size_of :: "int option \<Rightarrow> int" where
  "vocab_size_of meta_vocab = (case meta_vocab of Some v \<Rightarrow> v | None \<Rightarrow> 50304)"

definition train_prelude ::
  "('w, 'b, 'c) torch_ops \<Rightarrow> http_get \<Rightarrow> int option \<Rightarrow> (('w, 'c) run, bool \<times> bool \<times> int \<times> int) py" where
  "train_prelude E get meta_vocab =
     py_bind (in_world (setup_distributed E get)) (\<lambda>(is_distributed, rank, world_size, is_master).
     py_bind (py_lift (local_sizes is_distributed world_size)) (\<lambda>(batch_size, grad_accum).
     py_seq (do_world (build_model E (vocab_size_of meta_vocab) is_distributed))
    (py_seq (py_modify (\<lambda>s. s\<lparr>iter_num := 0, best_val_loss := PInf\<rparr>))
    (py_bind (in_world (clock E)) (\<lambda>now.
     py_seq (py_modify (\<lambda>s. s\<lparr>start_time := now\<rparr>))
            (py_return (is_distributed, is_master, batch_size, grad_accum)))))))"

definition train ::
  "('w, 'b, 'c) torch_ops \<Rightarrow> http_get \<Rightarrow> http_post \<Rightarrow> int option \<Rightarrow> ('w, 'c) run
     \<Rightarrow> (unit outcome \<times> ('w, 'c) run) option" where
  "train E get post meta_vocab s =
     (case train_prelude E get meta_vocab s of
        (Return (is_distributed, is_master, batch_size, grad_accum), s') \<Rightarrow>
          (case train_loop (loop_body E (report_training_time E post) is_master batch_size grad_accum) s' of
             Some (Return u, t) \<Rightarrow>
               Some (Return (), if is_distributed then t\<lparr>world := destroy_group E (world t)\<rparr> else t)
           | r \<Rightarrow> r)
      | (Raise e, s') \<Rightarrow> Some (Raise e, s')
      | (Blocked, s') \<Rightarrow> Some (Blocked, s'))"

text \<open>The loop of \<open>workspace/compute/train.py\<close> saves without a report.\<close>

definition compute_loop_body ::
  "('w, 'b, 'c) torch_ops \<Rightarrow> bool \<Rightarrow> int \<Rightarrow> int \<Rightarrow> (('w, 'c) run, bool) py" where
  "compute_loop_body E is_master batch_size grad_accum =
     loop_body E (py_return ()) is_master batch_size grad_accum"

section \<open>Signal handlers\<close>

text \<open>
  \<open>update_env\<close>: \<open>os.environ.update\<close> of what the agent answers, which need not be an object: a list of
  pairs works too.  Assigning to \<open>os.environ\<close> wants strings and a name without \<open>=\<close>.
\<close>

definition set_environ :: "json \<Rightarrow> json \<Rightarrow> ((string, string) dict, unit) py" where
  "set_environ k v = (case (k, v) of
       (JStr a, JStr b) \<Rightarrow>
         if CHR 0x00 \<in> set a \<union> set b \<or> CHR ''='' \<in> set a then py_raise ValueError
         else if a = [] then py_raise OSError
         else py_modify (dict_set a b)
     | _ \<Rightarrow> py_raise TypeError)"

fun unpack_pair :: "json \<Rightarrow> (json \<times> json) result" where
  "unpack_pair (JArr [k, v]) = Inr (k, v)"
| "unpack_pair (JStr [a, b]) = Inr (JStr [a], JStr [b])"
| "unpack_pair (JObj [(a, x), (b, y)]) = Inr (JStr a, JStr b)"
| "unpack_pair (JArr _) = Inl ValueError"
| "unpack_pair (JStr _) = Inl ValueError"
| "unpack_pair (JObj _) = Inl ValueError"
| "unpack_pair _ = Inl TypeError"

primrec set_all :: "(json \<times> json) result list \<Rightarrow> ((string, string) dict, unit) py" where
  "set_all [] = py_return ()"
| "set_all (p # ps) = py_bind (py_lift p) (\<lambda>(k, v). py_seq (set_environ k v) (set_all ps))"

definition update_environ :: "json \<Rightarrow> ((string, string) dict, unit) py" where
  "update_environ v = (case v of
       JObj kvs \<Rightarrow> set_all (map (\<lambda>(k, x). Inr (JStr k, x)) kvs)
     | JArr xs \<Rightarrow> set_all (map unpack_pair xs)
     | JStr s \<Rightarrow> set_all (map (\<lambda>c. unpack_pair (JStr [c])) s)
     | _ \<Rightarrow> py_raise TypeError)"

definition update_env :: "http_get \<Rightarrow> ((string, string) dict, unit) py" where
  "update_env get = py_bind (py_lift (fetch_env_vars get)) update_environ"

text \<open>
  \<open>handle_offload_task\<close> reads the names \<open>rank\<close>, \<open>model\<close> and \<open>optimizer\<close> of its module; \<open>fmt\<close> is
  \<open>str\<close>, \<open>restore\<close> loads a checkpoint file into a model and an optimizer.
\<close>

definition lookup_global :: "(string, 'v) dict \<Rightarrow> string \<Rightarrow> 'v result" where
  "lookup_global g n = (case dict_get g n of None \<Rightarrow> Inl (NameError n) | Some v \<Rightarrow> Inr v)"

definition handle_offload_task ::
  "(string, 'v) dict \<Rightarrow> ('v \<Rightarrow> string) \<Rightarrow> (string \<Rightarrow> bool) \<Rightarrow> (string \<Rightarrow> 'v \<Rightarrow> 'v \<Rightarrow> 'w \<Rightarrow> 'w) \<Rightarrow> ('w, unit) py" where
  "handle_offload_task g fmt isfile restore =
     py_bind (py_lift (lookup_global g ''CHECKPOINT_DIR'')) (\<lambda>ckdir.
     py_bind (py_lift (lookup_global g ''rank'')) (\<lambda>rank.
     let checkpoint_path = path_join (fmt ckdir) (''ckpt_rank'' @ fmt rank @ ''.pt'') in
     if isfile checkpoint_path then
       py_bind (py_lift (lookup_global g ''model'')) (\<lambda>model.
       py_bind (py_lift (lookup_global g ''optimizer'')) (\<lambda>optimizer.
         py_modify (restore checkpoint_path model optimizer)))
     else py_return ()))"

text \<open>The names the module binds; \<open>train\<close> declares only the last two of its own as global.\<close>

definition module_names :: "string list" where
  "module_names =
     [''os'', ''time'', ''math'', ''pickle'', ''nullcontext'', ''signal'', ''np'', ''torch'', ''DDP'',
      ''init_process_group'', ''destroy_process_group'', ''C4DRecovery'', ''GPTConfig'', ''GPT'',
      ''CHECKPOINT_DIR'', ''eval_interval'', ''log_interval'', ''eval_iters'', ''eval_only'',
      ''always_save_checkpoint'', ''init_from'', ''dataset'', ''block_size'', ''n_layer'', ''n_head'',
      ''n_embd'', ''dropout'', ''bias'', ''learning_rate'', ''max_iters'', ''weight_decay'', ''beta1'',
      ''beta2'', ''grad_clip'', ''decay_lr'', ''warmup_iters'', ''lr_decay_iters'', ''min_lr'',
      ''backend'', ''recovery'', ''update_env'', ''handle_offload_task'', ''setup_distributed'',
      ''get_batch'', ''get_lr'', ''train'', ''gradient_accumulation_steps'', ''batch_size'']"

section \<open>Hooks after a save\<close>

fun val_logs :: "message list \<Rightarrow> (int \<times> pyfloat) list" where
  "val_logs [] = []"
| "val_logs (ValLog it v # ms) = (it, v) # val_logs ms"
| "val_logs (m # ms) = val_logs ms"

lemma val_logs_append [simp]: "val_logs (ms @ ns) = val_logs ms @ val_logs ns"
  by (induction ms rule: val_logs.induct) auto

definition same_progress :: "('w, 'c) run \<Rightarrow> ('w, 'c) run \<Rightarrow> bool" where
  "same_progress s t \<longleftrightarrow> iter_num t = iter_num s \<and> best_val_loss t = best_val_loss s \<and>
     ckpt_file t = ckpt_file s \<and> val_logs (printed t) = val_logs (printed s)"

lemma same_progress_refl [simp]: "same_progress s s"
  by (simp add: same_progress_def)

lemma wp_in_world:
  "wp (in_world m) Q X s = wp m (\<lambda>x w. Q x (s\<lparr>world := w\<rparr>)) (\<lambda>w. X (s\<lparr>world := w\<rparr>)) (world s)"
  by (simp add: wp_def in_world_def split: prod.splits outcome.splits)

lemma wp_do_world [py_wp]: "wp (do_world f) Q X s = Q () (s\<lparr>world := f (world s)\<rparr>)"
  by (simp add: do_world_def py_wp)

lemma wp_say [py_wp]: "wp (say m) Q X s = Q () (s\<lparr>printed := printed s @ [m]\<rparr>)"
  by (simp add: say_def py_wp)

text \<open>Nothing is known of an operation of the world but that it changes the world only.\<close>

lemma wp_in_world_any:
  "(\<And>x w. Q x (s\<lparr>world := w\<rparr>)) \<Longrightarrow> (\<And>w. X (s\<lparr>world := w\<rparr>)) \<Longrightarrow> wp (in_world m) Q X s"
  by (auto simp: wp_def in_world_def split: prod.splits outcome.splits)

end
