(* ===== verification/Agent_Client.thy ===== *)
theory Agent_Client
  imports Monitor_Agent Training
begin

text \<open>
  The training program as a client of the agent on its node: the requests of \<open>recovery.py\<close>, answered
  by the routes of the Python agent, and what the setup and the signal handlers of \<open>train.py\<close> make of
  the answers.
\<close>

section \<open>Routes\<close>

definition get_route :: "string \<Rightarrow> agent_request option" where
  "get_route p =
     (if p = ''/metrics'' then Some GetMetrics
      else if p = ''/env'' then Some GetEnv
      else if p = ''/dist_env'' then Some GetDistEnv
      else if p = ''/pid'' then Some GetPid
      else None)"

definition post_route :: "pyfloat \<Rightarrow> json \<Rightarrow> string \<Rightarrow> agent_request option" where
  "post_route now body p =
     (if p = ''/log_ccl'' then Some (LogCcl now body)
      else if p = ''/log_training_time'' then Some (LogTrainingTime body)
      else if p = ''/offload'' then Some (Offload body)
      else if p = ''/activate'' then Some Activate
      else if p = ''/remove'' then Some Remove
      else None)"

text \<open>A path without a route is not found; the wrong method, or \<open>/log_ccl\<close> without a body, is refused.\<close>

definition agent_get :: "agent_env \<Rightarrow> monitor \<Rightarrow> http_get" where
  "agent_get E s p = (case get_route p of
       Some r \<Rightarrow> http_of_reply (fst (agent_handle E r s))
     | None \<Rightarrow> HttpResponse (if p = ''/log_ccl'' then 415
                            else if post_route (Fin 0) JNull p \<noteq> None then 405 else 404) None)"

definition agent_post :: "agent_env \<Rightarrow> pyfloat \<Rightarrow> monitor \<Rightarrow> string \<Rightarrow> json \<Rightarrow> http \<times> monitor" where
  "agent_post E now s p body = (case post_route now body p of
       Some r \<Rightarrow> (case agent_handle E r s of (reply, s') \<Rightarrow> (http_of_reply reply, s'))
     | None \<Rightarrow> (HttpResponse (if get_route p \<noteq> None then 405 else 404) None, s))"

abbreviation agent_answer :: "agent_env \<Rightarrow> pyfloat \<Rightarrow> monitor \<Rightarrow> http_post" where
  "agent_answer E now s \<equiv> \<lambda>p body. fst (agent_post E now s p body)"

lemma agent_get_env:
  "agent_get E s ''/env'' = HttpResponse 200 (Some (JObj (map (\<lambda>(k, v). (k, JStr v)) (environ E))))"
  by (simp add: agent_get_def get_route_def run_view_def get_env_view_def py_simps http_of_reply_def)

lemma fetch_env_vars_agent:
  "fetch_env_vars (agent_get E s) = Inr (JObj (map (\<lambda>(k, v). (k, JStr v)) (environ E)))"
  by (simp add: fetch_env_vars_def agent_get_env raise_for_status_def json_body_def)

lemma no_rank_route: "agent_get E s (''/rank/'' @ node_id) = HttpResponse 404 None"
  by (simp add: agent_get_def get_route_def post_route_def)

lemma offload_reply:
  "fst (agent_handle E (Offload (JObj kvs)) s) =
     (let target = (case map_of kvs ''target_node_id'' of None \<Rightarrow> JNull | Some v \<Rightarrow> v);
          path = (case map_of kvs ''checkpoint_path'' of None \<Rightarrow> JNull | Some v \<Rightarrow> v)
      in if \<not> truthy target \<or> \<not> truthy path
         then Reply 400 (JObj [(''error'', JStr ''Invalid offload request'')])
         else case offload_signal E target of
                Return _ \<Rightarrow> Reply 200 (JObj [(''message'',
                           JStr (''Offload signal sent to node '' @ json_text E target))])
              | Raise e \<Rightarrow> Reply 500 (JObj [(''error'', JStr (exn_text E e))])
              | Blocked \<Rightarrow> Hang)"
  by (auto simp: run_view_def offload_task_def py_simps Let_def split: option.splits outcome.splits)

section \<open>Properties\<close>

text \<open>C15: Against the agent the library can talk to, two of its calls are sure to fail: an event is posted
  to a route that does not exist, and an offload of the model state is refused because it names no
  checkpoint; both log an error and change nothing at the agent, and asking for a rank always raises.
  Fetching the environment gives the agent's.  Notifying an offload never raises, and logs success exactly
  when the target and the path are given, the agent finds the target's process number, and sending the
  signal to that number succeeds without ending the agent itself, which then would not answer.\<close>

theorem recovery_against_agent:
  "report_event (agent_answer E now s) t d = Inr LogError \<and>
   snd (agent_post E now s ''/log'' body) = s \<and>
   offload_model_state (agent_answer E now s) source target = Inr LogError \<and>
   snd (agent_post E now s ''/offload'' body) = s \<and>
   assign_rank (agent_get E s) node_id = Inl RequestException \<and>
   fetch_env_vars (agent_get E s) = Inr (JObj (map (\<lambda>(k, v). (k, JStr v)) (environ E))) \<and>
   notify_offload (agent_answer E now s) target path =
     Inr (if truthy target \<and> truthy path \<and> (\<exists>n. get_node_pid E target = Inr (Some n) \<and> os_kill E n = Return ())
          then LogInfo else LogError)"
proof (intro conjI)
  show "report_event (agent_answer E now s) t d = Inr LogError"
    by (simp add: report_event_def agent_post_def post_route_def get_route_def raise_for_status_def logged_def)
  show "snd (agent_post E now s ''/log'' body) = s"
    by (simp add: agent_post_def post_route_def)
  show "snd (agent_post E now s ''/offload'' body) = s"
    by (simp add: agent_post_def post_route_def run_view_def case_prod_beta offload_task_state)
  show "assign_rank (agent_get E s) node_id = Inl RequestException"
    unfolding assign_rank_def no_rank_route by (simp add: raise_for_status_def)
  show "fetch_env_vars (agent_get E s) = Inr (JObj (map (\<lambda>(k, v). (k, JStr v)) (environ E)))"
    by (rule fetch_env_vars_agent)
  have post: "agent_answer E now s ''/offload'' (JObj kvs) =
      http_of_reply (fst (agent_handle E (Offload (JObj kvs)) s))" for kvs
    by (simp add: agent_post_def post_route_def case_prod_beta del: agent_handle.simps)
  show "offload_model_state (agent_answer E now s) source target = Inr LogError"
    by (simp add: offload_model_state_def post offload_reply http_of_reply_def raise_for_status_def
        logged_def del: agent_handle.simps)
  have "(\<exists>n. get_node_pid E target = Inr (Some n) \<and> os_kill E n = Return ()) \<longleftrightarrow> offload_signal E target = Return ()"
    by (auto simp: offload_signal_def send_signal_def split: sum.splits option.splits)
  then show "notify_offload (agent_answer E now s) target path =
     Inr (if truthy target \<and> truthy path \<and> (\<exists>n. get_node_pid E target = Inr (Some n) \<and> os_kill E n = Return ())
          then LogInfo else LogError)"
    by (cases "offload_signal E target")
       (auto simp: notify_offload_def post offload_reply http_of_reply_def raise_for_status_def
        logged_def Let_def simp del: agent_handle.simps)
qed

text \<open>A number in the environment of the agent, or what the program takes when the name is missing.\<close>

definition env_number :: "agent_env \<Rightarrow> string \<Rightarrow> int \<Rightarrow> int option" where
  "env_number A k d = (case dict_get (environ A) k of None \<Rightarrow> Some d | Some x \<Rightarrow> int_of_str x)"

text \<open>C38: The distributed setup reads its rank and size from the agent's environment, in the decimal form an
  agent's environment has them in, with -1 and 1 for a name that is missing.  A rank other than -1 gives
  that rank and size, makes rank zero the master and seeds with 1337 plus the rank, so that processes of
  different ranks have different seeds; rank -1 gives a single process, whatever the size, and seeds
  nothing.  A rank or size that is not a number raises \<open>ValueError\<close>, also in a single process; an agent that
  does not answer, or with an error, raises a request exception.\<close>

theorem setup_from_agent:
  assumes "init_group E w = (Return (), w')"
  shows "(\<forall>k v d. dict_get (environ A) k = Some (str_of_int v) \<longrightarrow> env_number A k d = Some v) \<and>
     (\<forall>r n. env_number A ''RANK'' (-1) = Some r \<and> env_number A ''WORLD_SIZE'' 1 = Some n \<longrightarrow>
       setup_distributed E (agent_get A s) w =
         (if r = -1 then (Return (False, 0, 1, True), w')
          else (Return (True, r, n, r = 0), manual_seed E (1337 + r) w'))) \<and>
     (env_number A ''RANK'' (-1) = None \<or> env_number A ''WORLD_SIZE'' 1 = None \<longrightarrow>
       setup_distributed E (agent_get A s) w = (Raise ValueError, w')) \<and>
     (\<forall>get. get ''/env'' \<in> {HttpConnectionError, HttpOtherError} \<or>
         (\<exists>code body. get ''/env'' = HttpResponse code body \<and> 400 \<le> code \<and> code < 600) \<longrightarrow>
       setup_distributed E get w = (Raise RequestException, w'))"
proof (intro conjI allI impI)
  show "env_number A k d = Some v" if "dict_get (environ A) k = Some (str_of_int v)" for k v d
    using that by (simp add: env_number_def int_of_str_of_int)
  have number: "res_bind (json_get_default (JObj (map (\<lambda>(k, v). (k, JStr v)) (environ A))) k (JInt d)) py_int =
      (case env_number A k d of None \<Rightarrow> Inl ValueError | Some v \<Rightarrow> Inr v)" for k d
    by (auto simp: env_number_def map_of_map split: option.splits)
  note unfolded = setup_distributed_def py_simps assms fetch_env_vars_agent number Let_def
  show "setup_distributed E (agent_get A s) w =
      (if r = -1 then (Return (False, 0, 1, True), w') else (Return (True, r, n, r = 0), manual_seed E (1337 + r) w'))"
    if "env_number A ''RANK'' (-1) = Some r \<and> env_number A ''WORLD_SIZE'' 1 = Some n" for r n
    using that by (simp add: unfolded del: json_get_default.simps)
  show "setup_distributed E (agent_get A s) w = (Raise ValueError, w')"
    if "env_number A ''RANK'' (-1) = None \<or> env_number A ''WORLD_SIZE'' 1 = None"
    using that by (cases "env_number A ''RANK'' (-1)") (auto simp: unfolded simp del: json_get_default.simps)
  show "setup_distributed E get w = (Raise RequestException, w')"
    if "get ''/env'' \<in> {HttpConnectionError, HttpOtherError} \<or>
         (\<exists>code body. get ''/env'' = HttpResponse code body \<and> 400 \<le> code \<and> code < 600)" for get
    using that assms by (auto simp: setup_distributed_def py_simps fetch_env_vars_def raise_for_status_def)
qed

definition sample_ops :: "(int, unit, unit) torch_ops" where
  "sample_ops = \<lparr>init_group = py_return (), destroy_group = id, manual_seed = (\<lambda>n w. n),
     build_model = (\<lambda>_ _. id), set_lr = (\<lambda>_. id), load_batch = (\<lambda>_ _. py_return ()),
     forward = (\<lambda>_. py_return NaN), backward = (\<lambda>_. id), clip_grads = id, grad_nans = (\<lambda>_. []),
     opt_step = id, zero_grad = id, eval_mode = id, train_mode = id, state_dicts = (\<lambda>_. ()), open_file = py_return (), write_file = py_return (),
     clock = py_return NaN\<rparr>"

theorem setup_from_agent_witness:
  "setup_distributed sample_ops
     (agent_get (sample_agent [(''RANK'', str_of_int 3), (''WORLD_SIZE'', str_of_int 8)]) (agent_start [] False)) 0
   = (Return (True, 3, 8, False), 1340)"
proof -
  have "init_group sample_ops 0 = (Return (), 0)" by (simp add: sample_ops_def py_simps)
  note result = setup_from_agent [OF this, of "sample_agent [(''RANK'', str_of_int 3), (''WORLD_SIZE'', str_of_int 8)]"
      "agent_start [] False"]
  then have "env_number (sample_agent [(''RANK'', str_of_int 3), (''WORLD_SIZE'', str_of_int 8)]) ''RANK'' (-1) = Some 3"
    "env_number (sample_agent [(''RANK'', str_of_int 3), (''WORLD_SIZE'', str_of_int 8)]) ''WORLD_SIZE'' 1 = Some 8"
    by (simp_all add: env_number_def sample_agent_def int_of_str_of_int)
  with result show ?thesis by (simp add: sample_ops_def)
qed

section \<open>The environment\<close>

definition env_name_ok :: "string \<Rightarrow> bool" where
  "env_name_ok k \<longleftrightarrow> k \<noteq> [] \<and> CHR 0x00 \<notin> set k \<and> CHR ''='' \<notin> set k"

lemma set_all_ok:
  "(\<forall>(k, v) \<in> set kvs. env_name_ok k \<and> CHR 0x00 \<notin> set v) \<Longrightarrow>
   set_all (map (\<lambda>(k, x). Inr (JStr k, x)) (map (\<lambda>(k, v). (k, JStr v)) kvs)) env =
     (Return (), fold (\<lambda>(k, v). dict_set k v) kvs env)"
  by (induction kvs arbitrary: env) (auto simp: py_simps set_environ_def env_name_ok_def)

text \<open>The handler of SIGUSR1 overrides the process's environment with the agent's: every name the agent
  has gets the agent's value, every other name keeps its own.  A fetch that fails raises inside the handler
  and changes nothing.\<close>

theorem update_env_overrides:
  assumes "distinct (dict_keys (environ A))"
    and "\<forall>(k, v) \<in> set (environ A). env_name_ok k \<and> CHR 0x00 \<notin> set v"
  shows "(\<exists>new. update_env (agent_get A s) old = (Return (), new) \<and>
       (\<forall>k. dict_get new k = (case dict_get (environ A) k of Some v \<Rightarrow> Some v | None \<Rightarrow> dict_get old k))) \<and>
     update_env (\<lambda>_. HttpConnectionError) old = (Raise RequestException, old)"
proof
  have "update_env (agent_get A s) old = (Return (), fold (\<lambda>(k, v). dict_set k v) (environ A) old)"
    unfolding update_env_def fetch_env_vars_agent using set_all_ok [OF assms(2), of old]
    by (simp add: py_simps update_environ_def)
  then show "\<exists>new. update_env (agent_get A s) old = (Return (), new) \<and>
       (\<forall>k. dict_get new k = (case dict_get (environ A) k of Some v \<Rightarrow> Some v | None \<Rightarrow> dict_get old k))"
    by (auto simp: dict.lookup_stores map_of_rev [OF assms(1)])
  show "update_env (\<lambda>_. HttpConnectionError) old = (Raise RequestException, old)"
    by (simp add: update_env_def fetch_env_vars_def raise_for_status_def py_simps)
qed

theorem update_env_overrides_witness:
  "\<exists>new. update_env (agent_get (sample_agent [(''RANK'', ''2'')]) (agent_start [] False)) [(''RANK'', ''1''), (''A'', ''b'')] =
     (Return (), new) \<and> dict_get new ''RANK'' = Some ''2'' \<and> dict_get new ''A'' = Some ''b''"
proof -
  let ?A = "sample_agent [(''RANK'', ''2'')]"
  have "distinct (dict_keys (environ ?A))"
    "\<forall>(k, v) \<in> set (environ ?A). env_name_ok k \<and> CHR 0x00 \<notin> set v"
    by (simp_all add: sample_agent_def env_name_ok_def)
  from update_env_overrides [OF this, of "agent_start [] False" "[(''RANK'', ''1''), (''A'', ''b'')]"]
  obtain new where "update_env (agent_get ?A (agent_start [] False)) [(''RANK'', ''1''), (''A'', ''b'')] = (Return (), new)"
    and "\<forall>k. dict_get new k = (case dict_get (environ ?A) k of Some v \<Rightarrow> Some v
         | None \<Rightarrow> dict_get [(''RANK'', ''1''), (''A'', ''b'')] k)" by blast
  then show ?thesis by (auto simp: sample_agent_def)
qed

lemma handler_without_rank:
  assumes "''CHECKPOINT_DIR'' \<in> set (dict_keys g)" "''rank'' \<notin> set (dict_keys g)"
  shows "handle_offload_task g fmt isfile restore w = (Raise (NameError ''rank''), w)"
proof -
  have "dict_get g ''CHECKPOINT_DIR'' \<noteq> None" "dict_get g ''rank'' = None"
    using assms by (simp_all only: map_of_eq_None_iff set_map not_not simp_thms)
  then show ?thesis by (auto simp: handle_offload_task_def lookup_global_def py_simps)
qed

lemma module_has_no_rank: "''CHECKPOINT_DIR'' \<in> set module_names" "''rank'' \<notin> set module_names"
  by (simp_all add: module_names_def)

text \<open>C23: The handler of SIGUSR2 never restores a checkpoint: \<open>rank\<close>, \<open>model\<close> and \<open>optimizer\<close> are local
  to \<open>train\<close>, so whatever files exist the handler raises \<open>NameError\<close> on \<open>rank\<close> with nothing changed.  The
  signal therefore only interrupts the training it reaches.\<close>

theorem offload_signal_raises:
  assumes "set (dict_keys g) = set module_names"
  shows "handle_offload_task g fmt isfile restore w = (Raise (NameError ''rank''), w)"
  by (rule handler_without_rank; simp only: assms module_has_no_rank not_False_eq_True)

theorem offload_signal_raises_witness:
  "handle_offload_task (map (\<lambda>n. (n, n)) module_names) id (\<lambda>_. True) (\<lambda>_ _ _ w. w) 0 =
     (Raise (NameError ''rank''), (0 :: int))"
  by (rule offload_signal_raises) (simp add: o_def)

text \<open>The sizes a process trains with: never below one, the module's own for a single process or a world
  of one, at most the module's batch over all processes together as long as there are at most eight, and
  an exception for a world of none.\<close>

lemma local_sizes_bounds:
  "local_sizes False n = Inr (8, 1) \<and> local_sizes True 1 = Inr (8, 1) \<and>
   local_sizes True 0 = Inl ZeroDivisionError \<and>
   (\<forall>n. n \<noteq> 0 \<longrightarrow> (\<exists>b. local_sizes True n = Inr (b, 1) \<and> 1 \<le> b \<and> b \<le> 8 \<and>
      (1 \<le> n \<and> n \<le> 8 \<longrightarrow> b * n \<le> 8 \<and> 8 < b * n + n) \<and> (8 < n \<or> n < 0 \<longrightarrow> b = 1)))"
proof (intro conjI allI impI)
  show "local_sizes False n = Inr (8, 1)" "local_sizes True 1 = Inr (8, 1)"
    "local_sizes True 0 = Inl ZeroDivisionError"
    by (simp_all add: local_sizes_def floor_div_def module_batch_size_def module_grad_accum_def)
  fix n :: int assume n: "n \<noteq> 0"
  have neg: "k div n \<le> 1" if "n < 0" "0 < k" for k
    using that neg_imp_zdiv_neg_iff [of n k] by simp
  consider "n = 1" | "1 < n" | "n < 0" using n by linarith
  then have accum: "max (1 div n) 1 = 1"
    using neg [of 1] neg [of 8] by cases (simp_all add: max_def div_pos_pos_trivial)
  have sizes: "local_sizes True n = Inr (max (8 div n) 1, 1)"
    using n accum by (simp add: local_sizes_def floor_div_def module_batch_size_def module_grad_accum_def)
  show "\<exists>b. local_sizes True n = Inr (b, 1) \<and> 1 \<le> b \<and> b \<le> 8 \<and>
      (1 \<le> n \<and> n \<le> 8 \<longrightarrow> b * n \<le> 8 \<and> 8 < b * n + n) \<and> (8 < n \<or> n < 0 \<longrightarrow> b = 1)"
  proof (cases "1 \<le> n \<and> n \<le> 8")
    case True
    define q where "q = 8 div n"
    have "0 < q" using True by (simp add: q_def pos_imp_zdiv_pos_iff)
    moreover have "q * n + 8 mod n = 8" by (simp add: q_def)
    moreover have "0 \<le> 8 mod n" "8 mod n < n" using True by simp_all
    moreover have "q * 1 \<le> q * n" using \<open>0 < q\<close> True by (intro mult_left_mono) auto
    ultimately have "1 \<le> q" "q \<le> 8" "q * n \<le> 8" "8 < q * n + n" by linarith+
    then show ?thesis
      using sizes True by (intro exI [of _ q]) (simp add: q_def [symmetric] max_def)
  next
    case False
    with n consider "8 < n" | "n < 0" by linarith
    then have "max (8 div n) 1 = (1 :: int)"
      using neg [of 1] neg [of 8] by cases (simp_all add: max_def div_pos_pos_trivial)
    with sizes False show ?thesis by auto
  qed
qed

lemma local_sizes_bounds_witness: "\<exists>b. local_sizes True 3 = Inr (b, 1) \<and> b * 3 \<le> 8"
proof -
  from local_sizes_bounds [of 3] have "\<forall>n. n \<noteq> 0 \<longrightarrow> (\<exists>b. local_sizes True n = Inr (b, 1) \<and> 1 \<le> b \<and> b \<le> 8 \<and>
      (1 \<le> n \<and> n \<le> 8 \<longrightarrow> b * n \<le> 8 \<and> 8 < b * n + n) \<and> (8 < n \<or> n < 0 \<longrightarrow> b = 1))"
    by blast
  from spec [OF this, of 3] show ?thesis by auto
qed

end
