(* ===== verification/Offload_Signals.thy ===== *)
theory Offload_Signals
  imports Agent_Client
begin

text \<open>
  A request to offload a task across nodes.  On every node run an agent (\<open>monitor/python_test/main.py\<close>) and
  a training process (\<open>compute-engine/user_code/train.py\<close>).  \<open>POST /offload\<close> at one agent asks the agent of
  the target for a process number and sends \<open>SIGUSR2\<close> to that number, on its own node.  The parameters of
  the agent's view, the answer of the other host and \<open>os.kill\<close>, are here those of the nodes.
\<close>

section \<open>Nodes\<close>

text \<open>A training process, with the state its handler could change, or the exception that ended it.\<close>

datatype 'w trainer = Training 'w | Stopped exn 'w

text \<open>
  An agent that has ended has no state.  Numbers are those of the agent's namespace of processes: \<open>trainer_pid\<close>
  is \<open>None\<close> when the training is not in it, as in a container of its own.  \<open>elsewhere\<close> is what \<open>os.kill\<close> does
  for a number that is neither the agent's nor the training's: another process may have it, or none.
\<close>

record 'w node =
  agent_pid :: int
  agent_state :: "monitor option"
  trainer_pid :: "int option"
  trainer :: "'w trainer"
  elsewhere :: "int \<Rightarrow> unit result"

type_synonym 'w nodes = "string \<Rightarrow> 'w node option"

fun is_training :: "'w trainer \<Rightarrow> bool" where
  "is_training (Training w) = True"
| "is_training (Stopped e w) = False"

text \<open>The answer to \<open>GET http://host:8081/pid\<close>.\<close>

definition pid_answer :: "agent_env \<Rightarrow> 'w nodes \<Rightarrow> string \<Rightarrow> http" where
  "pid_answer B ns host = (case ns host of
       None \<Rightarrow> HttpConnectionError
     | Some n \<Rightarrow> (case agent_state n of
           None \<Rightarrow> HttpConnectionError
         | Some m \<Rightarrow> http_of_reply (fst (agent_handle (B\<lparr>own_pid := agent_pid n\<rparr>) GetPid m))))"

text \<open>
  \<open>os.kill\<close> at an agent.  The first process of a namespace is not ended by a signal it has no handler for;
  any other agent is, when the number is its own.
\<close>

definition can_kill :: "'w node \<Rightarrow> int \<Rightarrow> unit outcome" where
  "can_kill n k =
     (if agent_pid n = k then (if k = 1 then Return () else Blocked)
      else if is_training (trainer n) \<and> trainer_pid n = Some k then Return ()
      else (case elsewhere n k of Inl e \<Rightarrow> Raise e | Inr u \<Rightarrow> Return u))"

definition env_at :: "agent_env \<Rightarrow> 'w nodes \<Rightarrow> 'w node \<Rightarrow> agent_env" where
  "env_at B ns n = B\<lparr>fetch_pid := (\<lambda>t. pid_answer B ns (json_text B t)), os_kill := can_kill n, own_pid := agent_pid n\<rparr>"

text \<open>
  What the handlers of the training process work with: the names of its module, \<open>str\<close>, the files of the
  node, and what loading a checkpoint does.
\<close>

record ('v, 'w) trainer_env =
  globals :: "(string, 'v) dict"
  fmt :: "'v \<Rightarrow> string"
  isfile :: "string \<Rightarrow> bool"
  restore :: "string \<Rightarrow> 'v \<Rightarrow> 'v \<Rightarrow> 'w \<Rightarrow> 'w"

text \<open>
  \<open>SIGUSR2\<close> reaches process \<open>k\<close> of a node: the agent has no handler for it; in the training process the
  handler runs in the main thread, where an exception ends \<open>train\<close>.
\<close>

definition deliver :: "('v, 'w) trainer_env \<Rightarrow> int \<Rightarrow> 'w node \<Rightarrow> 'w node" where
  "deliver T k n =
     (if agent_pid n = k then (if k = 1 then n else n\<lparr>agent_state := None\<rparr>)
      else (case trainer n of
          Training w \<Rightarrow>
            if trainer_pid n = Some k then
              (case handle_offload_task (globals T) (fmt T) (isfile T) (restore T) w of
                 (Raise e, w') \<Rightarrow> n\<lparr>trainer := Stopped e w'\<rparr>
               | (r, w') \<Rightarrow> n\<lparr>trainer := Training w'\<rparr>)
            else n
        | Stopped e w \<Rightarrow> n))"

text \<open>
  A request at node \<open>a\<close>: the reply, \<open>Hang\<close> if the agent ends before it can answer, and the nodes afterwards.
  The signal has been sent when the view answers 200, and when it does not come to answer.
\<close>

fun signal_sent :: "reply \<Rightarrow> bool" where
  "signal_sent (Reply code b) \<longleftrightarrow> code = 200"
| "signal_sent (Crash e) \<longleftrightarrow> False"
| "signal_sent Hang \<longleftrightarrow> True"

definition offload_at ::
  "agent_env \<Rightarrow> ('v, 'w) trainer_env \<Rightarrow> string \<Rightarrow> 'w node \<Rightarrow> monitor \<Rightarrow> json \<Rightarrow> 'w nodes \<Rightarrow> reply \<times> 'w nodes" where
  "offload_at B T a n m body ns =
     (let E = env_at B ns n;
          (reply, m') = agent_handle E (Offload body) m;
          n1 = n\<lparr>agent_state := Some m'\<rparr>;
          n2 = (if signal_sent reply then
                  (case res_bind (json_get body ''target_node_id'') (get_node_pid E) of
                     Inr (Some k) \<Rightarrow> deliver T k n1
                   | _ \<Rightarrow> n1)
                else n1)
      in (reply, ns(a \<mapsto> n2)))"

inductive offload_step :: "agent_env \<Rightarrow> ('v, 'w) trainer_env \<Rightarrow> 'w nodes \<Rightarrow> 'w nodes \<Rightarrow> bool" for B T where
  "ns a = Some n \<Longrightarrow> agent_state n = Some m \<Longrightarrow> offload_at B T a n m body ns = (reply, ns') \<Longrightarrow>
   offload_step B T ns ns'"

section \<open>What a request does\<close>

lemma pid_answer_alive:
  "ns host = Some n \<Longrightarrow> agent_state n = Some m \<Longrightarrow>
   pid_answer B ns host = HttpResponse 200 (Some (JObj [(''pid'', JInt (agent_pid n))]))"
  by (simp add: pid_answer_def get_pid_view_def run_view_def py_simps http_of_reply_def)

lemma pid_answer_dead:
  "ns host = None \<or> (\<exists>n. ns host = Some n \<and> agent_state n = None) \<Longrightarrow> pid_answer B ns host = HttpConnectionError"
  by (auto simp: pid_answer_def)

text \<open>The number the view gets for a target: that of the target's agent, if it answers.\<close>

definition agent_number :: "agent_env \<Rightarrow> 'w nodes \<Rightarrow> json \<Rightarrow> int option" where
  "agent_number B ns t = (case ns (json_text B t) of
       None \<Rightarrow> None
     | Some n \<Rightarrow> if agent_state n = None then None else Some (agent_pid n))"

lemma get_node_pid_at: "get_node_pid (env_at B ns n) t = Inr (agent_number B ns t)"
proof (cases "ns (json_text B t)")
  case None
  then show ?thesis by (simp add: get_node_pid_def env_at_def pid_answer_dead agent_number_def)
next
  case (Some nb)
  then show ?thesis
    by (cases "agent_state nb")
       (simp_all add: get_node_pid_def env_at_def pid_answer_dead pid_answer_alive agent_number_def)
qed

lemma same_node [simp]: "ns a = Some n \<Longrightarrow> agent_state n = Some m \<Longrightarrow> ns(a \<mapsto> n\<lparr>agent_state := Some m\<rparr>) = ns"
  by (auto simp: fun_eq_iff)

abbreviation offload_success :: "agent_env \<Rightarrow> json \<Rightarrow> reply" where
  "offload_success B t \<equiv> Reply 200 (JObj [(''message'', JStr (''Offload signal sent to node '' @ json_text B t))])"

abbreviation offload_failure :: "agent_env \<Rightarrow> exn \<Rightarrow> reply" where
  "offload_failure B e \<equiv> Reply 500 (JObj [(''error'', JStr (exn_text B e))])"

text \<open>The state of the agent does not change by a request to offload, and only success sends a signal.\<close>

lemma offload_at_cases:
  assumes "ns a = Some n" "agent_state n = Some m"
  shows "offload_at B T a n m body ns =
     (case res_bind (json_get body ''target_node_id'') (\<lambda>t. res_bind (json_get body ''checkpoint_path'') (\<lambda>p. Inr (t, p))) of
        Inl e \<Rightarrow> (Crash e, ns)
      | Inr (t, p) \<Rightarrow>
          if \<not> truthy t \<or> \<not> truthy p
          then (Reply 400 (JObj [(''error'', JStr ''Invalid offload request'')]), ns)
          else (case agent_number B ns t of
              None \<Rightarrow> (offload_failure B TypeError, ns)
            | Some k \<Rightarrow>
                ((case can_kill n k of
                    Return u \<Rightarrow> offload_success B t
                  | Raise e \<Rightarrow> offload_failure B e
                  | Blocked \<Rightarrow> Hang),
                 case can_kill n k of Raise e \<Rightarrow> ns | _ \<Rightarrow> ns(a \<mapsto> deliver T k n))))"
proof -
  have n: "n\<lparr>agent_state := Some m\<rparr> = n" using assms(2) by simp
  have env: "os_kill (env_at B ns n) = can_kill n" "exn_text (env_at B ns n) = exn_text B"
    "json_text (env_at B ns n) = json_text B" by (simp_all add: env_at_def)
  show ?thesis
  proof (cases "json_get body ''target_node_id''")
    case (Inl e)
    then show ?thesis
      using assms by (simp add: offload_at_def offload_task_def run_view_def py_simps Let_def)
  next
    case (Inr t)
    then obtain p where p: "json_get body ''checkpoint_path'' = Inr p" by (cases body) auto
    show ?thesis
    proof (cases "truthy t \<and> truthy p")
      case False
      with Inr p assms show ?thesis
        by (auto simp: offload_at_def offload_task_def run_view_def py_simps Let_def)
    next
      case True
      show ?thesis
        using Inr p assms True
        by (cases "agent_number B ns t"; cases "can_kill n (the (agent_number B ns t))")
           (auto simp: offload_at_def offload_task_def run_view_def py_simps Let_def get_node_pid_at offload_signal_def send_signal_def env n
             split: outcome.splits)
    qed
  qed
qed

lemma deliver_no_rank:
  assumes "''CHECKPOINT_DIR'' \<in> set (dict_keys (globals T))" "''rank'' \<notin> set (dict_keys (globals T))"
  shows "deliver T k n =
     (if agent_pid n = k then (if k = 1 then n else n\<lparr>agent_state := None\<rparr>)
      else (case trainer n of
          Training w \<Rightarrow> if trainer_pid n = Some k then n\<lparr>trainer := Stopped (NameError ''rank'') w\<rparr> else n
        | Stopped e w \<Rightarrow> n))"
  by (simp add: deliver_def handler_without_rank [OF assms] split: trainer.splits)

text \<open>
  Two nodes, on which agent and training are processes 7 and 9, and 3 and 7.
\<close>

fun text_of :: "json \<Rightarrow> string" where
  "text_of (JStr s) = s"
| "text_of _ = []"

definition sample_node :: "int \<Rightarrow> int \<Rightarrow> int \<Rightarrow> int node" where
  "sample_node a t w = \<lparr>agent_pid = a, agent_state = Some (agent_start [] False), trainer_pid = Some t, trainer = Training w,
     elsewhere = (\<lambda>_. Inl OSError)\<rparr>"

definition sample_nodes :: "int nodes" where
  "sample_nodes = [''n0'' \<mapsto> sample_node 7 9 0, ''n1'' \<mapsto> sample_node 3 7 5]"

definition sample_trainer_env :: "(string, int) trainer_env" where
  "sample_trainer_env = \<lparr>globals = map (\<lambda>n. (n, n)) module_names, fmt = id, isfile = (\<lambda>_. True),
     restore = (\<lambda>_ _ _ w. w + 1)\<rparr>"

abbreviation "sample_base \<equiv> (sample_agent [])\<lparr>json_text := text_of\<rparr>"

abbreviation "sample_offload target \<equiv> JObj [(''target_node_id'', JStr target), (''checkpoint_path'', JStr ''ckpt.pt'')]"

lemma sample_globals: "set (dict_keys (globals sample_trainer_env)) = set module_names"
  by (simp add: sample_trainer_env_def o_def)

section \<open>Properties\<close>

text \<open>C4: A request to offload acts on the node it is made at and on no other, and only through the number of the
  target's agent: every other node, so a target other than it, stays as it is.  When the target's agent does
  not answer, the request fails.  When that number is also the requested agent's own, as it is when the
  target is the requested node, this agent ends without an answer, or, as the first process of its
  namespace, answers success with no effect at all; when it is the number of the training process of the
  requested node, success is answered and that training ends with a \<open>NameError\<close>; otherwise no agent and no
  training changes, and the answer is success or failure as another process there could be signalled or
  not.\<close>

theorem offload_stays_local:
  assumes "ns a = Some n" "agent_state n = Some m" "set (dict_keys (globals T)) = set module_names"
    and "json_get body ''target_node_id'' = Inr t" "json_get body ''checkpoint_path'' = Inr p" "truthy t" "truthy p"
  shows "(\<forall>b. b \<noteq> a \<longrightarrow> snd (offload_at B T a n m body ns) b = ns b) \<and>
     (json_text B t = a \<longrightarrow> agent_number B ns t = Some (agent_pid n)) \<and>
     (agent_number B ns t = None \<longrightarrow> offload_at B T a n m body ns = (offload_failure B TypeError, ns)) \<and>
     (\<forall>k. agent_number B ns t = Some k \<longrightarrow>
       (k = agent_pid n \<and> k \<noteq> 1 \<longrightarrow> offload_at B T a n m body ns = (Hang, ns(a \<mapsto> n\<lparr>agent_state := None\<rparr>))) \<and>
       (k = agent_pid n \<and> k = 1 \<longrightarrow> offload_at B T a n m body ns = (offload_success B t, ns)) \<and>
       (\<forall>w. k \<noteq> agent_pid n \<and> trainer_pid n = Some k \<and> trainer n = Training w \<longrightarrow>
          offload_at B T a n m body ns = (offload_success B t, ns(a \<mapsto> n\<lparr>trainer := Stopped (NameError ''rank'') w\<rparr>))) \<and>
       (k \<noteq> agent_pid n \<and> (trainer_pid n \<noteq> Some k \<or> \<not> is_training (trainer n)) \<longrightarrow>
          offload_at B T a n m body ns = ((case elsewhere n k of Inr u \<Rightarrow> offload_success B t | Inl e \<Rightarrow> offload_failure B e), ns)))"
proof -
  have rank: "''CHECKPOINT_DIR'' \<in> set (dict_keys (globals T))" "''rank'' \<notin> set (dict_keys (globals T))"
    by (simp_all only: assms(3) module_has_no_rank not_False_eq_True)
  note cases = offload_at_cases [where ns = ns, OF assms(1,2)] deliver_no_rank [OF rank] can_kill_def
  show ?thesis
    using assms(1,2,4-7)
    by (auto simp: cases agent_number_def fun_upd_idem split: trainer.splits sum.splits outcome.splits option.splits)
qed

theorem offload_stays_local_witness:
  "offload_at sample_base sample_trainer_env ''n1'' (sample_node 3 7 5) (agent_start [] False) (sample_offload ''n0'')
     sample_nodes =
   (Reply 200 (JObj [(''message'', JStr ''Offload signal sent to node n0'')]),
    sample_nodes(''n1'' \<mapsto> (sample_node 3 7 5)\<lparr>trainer := Stopped (NameError ''rank'') 5\<rparr>))"
proof -
  have "sample_nodes ''n1'' = Some (sample_node 3 7 5)" "agent_state (sample_node 3 7 5) = Some (agent_start [] False)"
    "agent_number sample_base sample_nodes (JStr ''n0'') = Some 7"
    by (simp_all add: sample_nodes_def sample_node_def agent_number_def)
  with offload_stays_local [OF _ _ sample_globals, of sample_nodes "''n1''" "sample_node 3 7 5" "agent_start [] False"
      "sample_offload ''n0''" "JStr ''n0''" "JStr ''ckpt.pt''" sample_base]
  show ?thesis by (simp add: sample_node_def)
qed

text \<open>C24: No sequence of offload requests, at whatever nodes and with whatever bodies, restores or moves the state
  of a training: on every node each process either goes on unchanged or has ended, the training with a
  \<open>NameError\<close> and the state it had.\<close>

theorem offloads_only_end_processes:
  assumes "set (dict_keys (globals T)) = set module_names" "(offload_step B T)\<^sup>*\<^sup>* ns ns'"
  shows "dom ns' = dom ns \<and> (\<forall>b n n'. ns b = Some n \<and> ns' b = Some n' \<longrightarrow>
     (agent_state n' = agent_state n \<or> agent_state n' = None) \<and>
     (trainer n' = trainer n \<or> (\<exists>w. trainer n = Training w \<and> trainer n' = Stopped (NameError ''rank'') w)))"
  using assms(2)
proof induction
  case (step ms ms')
  have rank: "''CHECKPOINT_DIR'' \<in> set (dict_keys (globals T))" "''rank'' \<notin> set (dict_keys (globals T))"
    by (simp_all only: assms(1) module_has_no_rank not_False_eq_True)
  from step(2) obtain a n m body reply where a: "ms a = Some n" "agent_state n = Some m"
    and off: "offload_at B T a n m body ms = (reply, ms')" by cases auto
  have "ms' = ms \<or> (\<exists>k. ms' = ms(a \<mapsto> deliver T k n))"
    using off unfolding offload_at_cases [where ns = ms, OF a]
    by (auto split: sum.splits option.splits if_splits prod.splits outcome.splits)
  then have one: "dom ms' = dom ms \<and> (\<forall>b n n'. ms b = Some n \<and> ms' b = Some n' \<longrightarrow>
     (agent_state n' = agent_state n \<or> agent_state n' = None) \<and>
     (trainer n' = trainer n \<or> (\<exists>w. trainer n = Training w \<and> trainer n' = Stopped (NameError ''rank'') w)))"
    using a by (auto simp: deliver_no_rank [OF rank] split: if_splits trainer.splits)
  show ?case
  proof (intro conjI allI impI)
    show "dom ms' = dom ns" using one step.IH by simp
    fix b n n' assume b: "ns b = Some n \<and> ms' b = Some n'"
    with one step.IH obtain n1 where "ms b = Some n1" by (metis domD domI)
    with b one step.IH show "agent_state n' = agent_state n \<or> agent_state n' = None"
      "trainer n' = trainer n \<or> (\<exists>w. trainer n = Training w \<and> trainer n' = Stopped (NameError ''rank'') w)"
      by (metis trainer.distinct(1))+
  qed
qed auto

theorem offloads_only_end_processes_witness:
  "\<exists>ns'. (offload_step sample_base sample_trainer_env)\<^sup>*\<^sup>* sample_nodes ns' \<and>
     ns' \<noteq> sample_nodes \<and> dom ns' = {''n0'', ''n1''}"
proof -
  let ?n = "sample_node 3 7 5" and ?o = "sample_offload ''n0''"
  let ?r = "offload_at sample_base sample_trainer_env ''n1'' ?n (agent_start [] False) ?o sample_nodes"
  have step: "offload_step sample_base sample_trainer_env sample_nodes (snd ?r)"
    by (rule offload_step.intros [of _ "''n1''" ?n "agent_start [] False" _ _ ?o "fst ?r"])
       (simp_all add: sample_nodes_def sample_node_def)
  then have steps: "(offload_step sample_base sample_trainer_env)\<^sup>*\<^sup>* sample_nodes (snd ?r)" by simp
  have "agent_number sample_base sample_nodes (JStr ''n0'') = Some 7"
    by (simp add: sample_nodes_def sample_node_def agent_number_def)
  then have "snd ?r = sample_nodes(''n1'' \<mapsto> ?n\<lparr>trainer := Stopped (NameError ''rank'') 5\<rparr>)"
    using sample_globals module_has_no_rank
    by (simp add: offload_at_cases sample_nodes_def sample_node_def deliver_no_rank can_kill_def)
  then have "snd ?r \<noteq> sample_nodes" by (auto simp: fun_eq_iff sample_nodes_def sample_node_def)
  moreover have "dom (snd ?r) = {''n0'', ''n1''}"
    using offloads_only_end_processes [OF sample_globals steps] by (simp add: sample_nodes_def insert_commute)
  ultimately show ?thesis using steps by blast
qed

end
