(* ===== verification/Training_Checkpoints.thy ===== *)
theory Training_Checkpoints
  imports Training
begin

text \<open>
  What the training loop keeps: the best validation loss and the checkpoint file, in every run, also
  one that ends in an exception.  The loop is taken with any action after a save that leaves the
  progress alone; the interpretations are the report of \<open>train.py\<close> and the missing one of
  \<open>workspace/compute/train.py\<close>.
\<close>

section \<open>Runs\<close>

text \<open>The states of a run: at the loop's head (\<open>None\<close>), or where it ended and how.\<close>

inductive loop_reach :: "('s, bool) py \<Rightarrow> 's \<Rightarrow> unit outcome option \<Rightarrow> 's \<Rightarrow> bool" for body s0 where
  start: "loop_reach body s0 None s0"
| again: "loop_reach body s0 None s \<Longrightarrow> body s = (Return True, t) \<Longrightarrow> loop_reach body s0 None t"
| finished: "loop_reach body s0 None s \<Longrightarrow> body s = (Return False, t) \<Longrightarrow> loop_reach body s0 (Some (Return ())) t"
| raised: "loop_reach body s0 None s \<Longrightarrow> body s = (Raise e, t) \<Longrightarrow> loop_reach body s0 (Some (Raise e)) t"
| stuck: "loop_reach body s0 None s \<Longrightarrow> body s = (Blocked, t) \<Longrightarrow> loop_reach body s0 (Some Blocked) t"

lemma train_loop_reach:
  assumes "train_loop body s = Some (r, t)" "loop_reach body s0 None s"
  shows "loop_reach body s0 (Some r) t"
proof -
  let ?P = "\<lambda>b s y. b = body \<longrightarrow> loop_reach body s0 None s \<longrightarrow> loop_reach body s0 (Some (fst y)) (snd y)"
  have "?P body s (r, t)"
  proof (rule train_loop.raw_induct [of ?P, OF _ assms(1)])
    fix rec b s y
    assume IH: "\<And>b s y. rec b s = Some y \<Longrightarrow> ?P b s y"
      and eq: "(case b s of (Return go_on, s') \<Rightarrow> if go_on then rec b s' else Some (Return (), s')
        | (Raise e, s') \<Rightarrow> Some (Raise e, s') | (Blocked, s') \<Rightarrow> Some (Blocked, s')) = Some y"
    obtain q s' where "b s = (q, s')" by force
    with eq IH [of b s' y] show "?P b s y"
      by (cases q) (auto split: if_splits intro: loop_reach.again loop_reach.finished
          loop_reach.raised loop_reach.stuck)
  qed
  with assms(2) show ?thesis by simp
qed

lemma loop_reach_invariant:
  assumes "loop_reach body s0 r t" "running s0"
    and step: "\<And>s. running s \<Longrightarrow> wp body (\<lambda>go_on t. safe t \<and> (go_on \<longrightarrow> running t)) left s"
    and "\<And>s. running s \<Longrightarrow> safe s" "\<And>s. safe s \<Longrightarrow> left s"
  shows "left t \<and> (r = None \<or> r = Some (Return ()) \<longrightarrow> safe t) \<and> (r = None \<longrightarrow> running t)"
  using assms(1)
proof induction
  case start
  with assms show ?case by simp
next
  case (again s t)
  with step [of s] assms(5) show ?case by (simp add: wp_def)
next
  case (finished s t)
  with step [of s] assms(5) show ?case by (simp add: wp_def)
next
  case (raised s e t)
  with step [of s] show ?case by (simp add: wp_def)
next
  case (stuck s t)
  with step [of s] show ?case by (simp add: wp_def)
qed

section \<open>Invariant\<close>

definition best_inv :: "('w, 'c) run \<Rightarrow> bool" where
  "best_inv s \<longleftrightarrow> (\<forall>(it, v) \<in> set (val_logs (printed s)). \<not> pf_less v (best_val_loss s))"

definition file_inv :: "'c ckpt_file option \<Rightarrow> ('w, 'c) run \<Rightarrow> bool" where
  "file_inv f0 s \<longleftrightarrow>
     ckpt_file s = f0 \<and> (best_val_loss s = PInf \<or> (0, best_val_loss s) \<in> set (val_logs (printed s))) \<or>
     (\<exists>c. ckpt_file s = Some (Whole c) \<and> 0 < ck_iter c \<and> ck_best c = best_val_loss s \<and>
        (ck_iter c, ck_best c) \<in> set (val_logs (printed s)))"

text \<open>What a run can leave that ended inside a save: the file from before, or one that is not complete.\<close>

definition file_left :: "'c ckpt_file option \<Rightarrow> ('w, 'c) run \<Rightarrow> bool" where
  "file_left f0 s \<longleftrightarrow> ckpt_file s = f0 \<or> ckpt_file s = Some Partial \<or>
     (\<exists>c. ckpt_file s = Some (Whole c) \<and> 0 < ck_iter c \<and> (ck_iter c, ck_best c) \<in> set (val_logs (printed s)))"

definition trace_inv :: "bool \<Rightarrow> ('w, 'c) run \<Rightarrow> bool" where
  "trace_inv is_master s \<longleftrightarrow> map fst (val_logs (printed s)) =
     (if is_master then filter (\<lambda>i. i mod eval_interval = 0) [0..iter_num s - 1] else [])"

definition trace_bounds :: "bool \<Rightarrow> ('w, 'c) run \<Rightarrow> bool" where
  "trace_bounds is_master s \<longleftrightarrow> (\<forall>(it, v) \<in> set (val_logs (printed s)).
     is_master \<and> it mod eval_interval = 0 \<and> 0 \<le> it \<and> it \<le> max_iters)"

definition ckpt_safe :: "'c ckpt_file option \<Rightarrow> bool \<Rightarrow> ('w, 'c) run \<Rightarrow> bool" where
  "ckpt_safe f0 is_master s \<longleftrightarrow> best_inv s \<and> file_inv f0 s \<and> trace_bounds is_master s"

definition ckpt_left :: "'c ckpt_file option \<Rightarrow> bool \<Rightarrow> ('w, 'c) run \<Rightarrow> bool" where
  "ckpt_left f0 is_master s \<longleftrightarrow> best_inv s \<and> file_left f0 s \<and> trace_bounds is_master s \<and>
     (\<not> is_master \<longrightarrow> ckpt_file s = f0)"

definition ckpt_running :: "'c ckpt_file option \<Rightarrow> bool \<Rightarrow> ('w, 'c) run \<Rightarrow> bool" where
  "ckpt_running f0 is_master s \<longleftrightarrow> ckpt_safe f0 is_master s \<and> trace_inv is_master s \<and>
     0 \<le> iter_num s \<and> iter_num s \<le> max_iters"

lemmas inv_defs = best_inv_def file_inv_def trace_bounds_def ckpt_safe_def trace_inv_def

lemmas left_defs = best_inv_def file_left_def trace_bounds_def ckpt_left_def

lemma ckpt_safe_left: "ckpt_safe f0 m s \<Longrightarrow> ckpt_left f0 m s"
  by (cases "val_logs (printed s)") (fastforce simp: inv_defs left_defs)+

lemma ckpt_left_frame [simp]:
  "ckpt_left f0 m (s\<lparr>world := w\<rparr>) = ckpt_left f0 m s"
  "ckpt_left f0 True s \<Longrightarrow> ckpt_left f0 True (s\<lparr>ckpt_file := Some Partial\<rparr>)"
  by (simp_all add: left_defs)

lemma ckpt_safe_frame: "same_progress s t \<Longrightarrow> ckpt_safe f0 m t = ckpt_safe f0 m s"
  by (simp add: inv_defs same_progress_def)

lemma trace_inv_frame: "same_progress s t \<Longrightarrow> trace_inv m t = trace_inv m s"
  by (simp add: inv_defs same_progress_def)

lemma running_frame: "same_progress s t \<Longrightarrow> ckpt_running f0 m t = ckpt_running f0 m s"
  by (simp add: ckpt_running_def ckpt_safe_frame trace_inv_frame) (simp add: same_progress_def)

lemma same_progress_trans: "same_progress s t \<Longrightarrow> same_progress t u \<Longrightarrow> same_progress s u"
  by (simp add: same_progress_def)

lemma same_progress_world [simp]: "same_progress s (t\<lparr>world := w\<rparr>) = same_progress s t"
  by (simp add: same_progress_def)

lemma gradient_half_progress:
  "wp (gradient_half E bs ga) (\<lambda>_. same_progress s) (same_progress s) s"
  by (auto simp: gradient_half_def py_wp Let_def same_progress_def intro!: wp_in_world_any)

lemma val_sum_progress:
  "same_progress s t \<Longrightarrow> wp (val_sum E bs n acc) (\<lambda>_. same_progress s) (same_progress s) t"
  by (induction n arbitrary: acc t) (auto simp: py_wp intro!: wp_in_world_any)

section \<open>The evaluation\<close>

text \<open>After the evaluation's message, and after a new best loss with or without its checkpoint.\<close>

lemma ckpt_safe_seen:
  assumes "ckpt_safe f0 True s" "same_progress s t" "0 \<le> iter_num s" "iter_num s \<le> max_iters"
    and "iter_num s mod eval_interval = 0"
  shows "\<not> pf_less v (best_val_loss s) \<Longrightarrow>
      ckpt_safe f0 True (t\<lparr>printed := printed t @ [ValLog (iter_num s) v]\<rparr>)"
    and "pf_less v (best_val_loss s) \<Longrightarrow> iter_num s = 0 \<Longrightarrow> ckpt_file s = f0 \<Longrightarrow>
      ckpt_safe f0 True (t\<lparr>printed := printed t @ [ValLog (iter_num s) v], best_val_loss := v\<rparr>)"
    and "pf_less v (best_val_loss s) \<Longrightarrow> 0 < iter_num s \<Longrightarrow>
      ckpt_safe f0 True (t\<lparr>printed := printed t @ [ValLog (iter_num s) v], best_val_loss := v,
        ckpt_file := Some (Whole \<lparr>ck_state = d, ck_iter = iter_num s, ck_best = v\<rparr>)\<rparr>)"
    and "pf_less v (best_val_loss s) \<Longrightarrow>
      ckpt_left f0 True (t\<lparr>printed := printed t @ [ValLog (iter_num s) v], best_val_loss := v\<rparr>)"
proof -
  show "\<not> pf_less v (best_val_loss s) \<Longrightarrow>
      ckpt_safe f0 True (t\<lparr>printed := printed t @ [ValLog (iter_num s) v]\<rparr>)"
    and "pf_less v (best_val_loss s) \<Longrightarrow> iter_num s = 0 \<Longrightarrow> ckpt_file s = f0 \<Longrightarrow>
      ckpt_safe f0 True (t\<lparr>printed := printed t @ [ValLog (iter_num s) v], best_val_loss := v\<rparr>)"
    and "pf_less v (best_val_loss s) \<Longrightarrow> 0 < iter_num s \<Longrightarrow>
      ckpt_safe f0 True (t\<lparr>printed := printed t @ [ValLog (iter_num s) v], best_val_loss := v,
        ckpt_file := Some (Whole \<lparr>ck_state = d, ck_iter = iter_num s, ck_best = v\<rparr>)\<rparr>)"
    using assms by (auto simp: inv_defs same_progress_def dest: pf_less_trans)
  have "ckpt_left f0 True s" using assms(1) by (rule ckpt_safe_left)
  then show "pf_less v (best_val_loss s) \<Longrightarrow>
      ckpt_left f0 True (t\<lparr>printed := printed t @ [ValLog (iter_num s) v], best_val_loss := v\<rparr>)"
    using assms(2-) by (auto simp: left_defs same_progress_def dest: pf_less_trans)
qed

locale save_hook =
  fixes on_save :: "(('w, 'c) run, unit) py"
  assumes hook: "wp on_save (\<lambda>_. same_progress s) (same_progress s) s"
begin

text \<open>The hook runs in a state that is safe, and leaves it so.\<close>

lemma hook_safe:
  assumes "ckpt_safe f0 m u" "iter_num u = i" "map fst (val_logs (printed u)) = l"
  shows "wp on_save (\<lambda>_ t. ckpt_safe f0 m (t\<lparr>world := f (world t)\<rparr>) \<and> iter_num t = i \<and>
      map fst (val_logs (printed t)) = l) (ckpt_left f0 m) u"
  by (rule wp_mono [OF hook [of u]])
     (use assms in \<open>auto simp: same_progress_def inv_defs intro!: ckpt_safe_left\<close>)

text \<open>A save that succeeds makes the file agree; one that raises leaves the old file or an incomplete one.\<close>

lemma save_safe:
  assumes "ckpt_left f0 True u"
    and "ckpt_safe f0 True (u\<lparr>ckpt_file := Some (Whole \<lparr>ck_state = state_dicts E (world u), ck_iter = iter_num u,
      ck_best = best_val_loss u\<rparr>)\<rparr>)"
  shows "wp (save_checkpoint E on_save) (\<lambda>_ t. ckpt_safe f0 True (t\<lparr>world := f (world t)\<rparr>) \<and> iter_num t = iter_num u \<and>
      map fst (val_logs (printed t)) = map fst (val_logs (printed u))) (ckpt_left f0 True) u"
  unfolding save_checkpoint_def py_wp
proof (rule wp_in_world_any, rule wp_in_world_any)
  fix x :: unit and y :: unit and w w'
  let ?c = "\<lparr>ck_state = state_dicts E (world u), ck_iter = iter_num u, ck_best = best_val_loss u\<rparr>"
  show "wp on_save (\<lambda>_ t. ckpt_safe f0 True (t\<lparr>world := f (world t)\<rparr>) \<and> iter_num t = iter_num u \<and>
      map fst (val_logs (printed t)) = map fst (val_logs (printed u))) (ckpt_left f0 True)
      (u\<lparr>world := w, ckpt_file := Some Partial, world := w', ckpt_file := Some (Whole ?c)\<rparr>)"
    by (rule hook_safe) (use assms(2) in \<open>simp_all add: inv_defs\<close>)
qed (use assms(1) in simp_all)

lemma evaluate_safe:
  assumes "ckpt_safe f0 True s" "0 \<le> iter_num s" "iter_num s \<le> max_iters"
    and "iter_num s mod eval_interval = 0" "iter_num s = 0 \<Longrightarrow> ckpt_file s = f0"
  shows "wp (evaluate E on_save bs)
     (\<lambda>_ t. ckpt_safe f0 True t \<and> iter_num t = iter_num s \<and>
        map fst (val_logs (printed t)) = map fst (val_logs (printed s)) @ [iter_num s])
     (ckpt_left f0 True) s"
proof -
  let ?Q = "\<lambda>t. ckpt_safe f0 True t \<and> iter_num t = iter_num s \<and>
        map fst (val_logs (printed t)) = map fst (val_logs (printed s)) @ [iter_num s]"
  have start: "same_progress s (s\<lparr>world := eval_mode E (world s)\<rparr>)" by simp
  show ?thesis
    unfolding evaluate_def Let_def wp_bind wp_seq wp_get wp_do_world wp_say
  proof (rule wp_mono [OF val_sum_progress [OF start]])
    show "ckpt_left f0 True t" if "same_progress s t" for t
      using that assms(1) by (simp add: ckpt_safe_frame ckpt_safe_left)
  next
    fix total and t :: "('w, 'c) run"
    define v where "v = pf_div_pos total (Fin (of_nat eval_iters))"
    define u where "u = t\<lparr>printed := printed t @ [ValLog (iter_num s) v]\<rparr>"
    assume t: "same_progress s t"
    note seen = ckpt_safe_seen [OF assms(1) t assms(2-4), of v, folded u_def]
    have u: "iter_num u = iter_num s" "best_val_loss u = best_val_loss s"
      "map fst (val_logs (printed u)) = map fst (val_logs (printed s)) @ [iter_num s]"
      using t by (simp_all add: u_def same_progress_def)
    have "wp (if pf_less v (best_val_loss u) then
                py_seq (py_modify (\<lambda>s. s\<lparr>best_val_loss := v\<rparr>))
                       (if iter_num s > 0 then save_checkpoint E on_save else py_return ())
              else py_return ())
        (\<lambda>_ t. ?Q (t\<lparr>world := train_mode E (world t)\<rparr>)) (ckpt_left f0 True) u"
    proof (cases "pf_less v (best_val_loss s)")
      case False
      with seen(1) u show ?thesis by (simp add: py_wp inv_defs)
    next
      case True
      show ?thesis
      proof (cases "iter_num s = 0")
        case at0: True
        with True seen(2) assms(5) u show ?thesis by (simp add: py_wp inv_defs)
      next
        case False
        with assms(2) have "0 < iter_num s" by simp
        with True seen(3) [of "state_dicts E (world u)"] u have
          "ckpt_safe f0 True ((u\<lparr>best_val_loss := v\<rparr>)\<lparr>ckpt_file := Some (Whole \<lparr>ck_state = state_dicts E (world (u\<lparr>best_val_loss := v\<rparr>)),
             ck_iter = iter_num (u\<lparr>best_val_loss := v\<rparr>), ck_best = best_val_loss (u\<lparr>best_val_loss := v\<rparr>)\<rparr>)\<rparr>)"
          "ckpt_left f0 True (u\<lparr>best_val_loss := v\<rparr>)"
          using seen(4) by (simp_all add: u_def)
        from save_safe [OF this(2,1), of "train_mode E"] True \<open>0 < iter_num s\<close> u show ?thesis
          by (simp add: py_wp)
      qed
    qed
    then show "wp (if pf_less (pf_div_pos total (Fin (of_nat eval_iters))) (best_val_loss
            (t\<lparr>printed := printed t @ [ValLog (iter_num s) (pf_div_pos total (Fin (of_nat eval_iters)))]\<rparr>))
          then py_seq (py_modify (\<lambda>s. s\<lparr>best_val_loss := pf_div_pos total (Fin (of_nat eval_iters))\<rparr>))
                 (if iter_num s > 0 then save_checkpoint E on_save else py_return ())
          else py_return ())
        (\<lambda>_ t. ?Q (t\<lparr>world := train_mode E (world t)\<rparr>)) (ckpt_left f0 True)
        (t\<lparr>printed := printed t @ [ValLog (iter_num s) (pf_div_pos total (Fin (of_nat eval_iters)))]\<rparr>)"
      unfolding u_def v_def .
  qed
qed

lemma update_half_safe:
  assumes "ckpt_running f0 m s"
  shows "wp (update_half E on_save m bs loss lr)
     (\<lambda>go_on t. ckpt_safe f0 m t \<and> trace_inv m t \<and> (go_on \<longrightarrow> ckpt_running f0 m t)) (ckpt_left f0 m) s"
proof -
  from assms have inv: "ckpt_safe f0 m s" "trace_inv m s" "0 \<le> iter_num s" "iter_num s \<le> max_iters"
    by (simp_all add: ckpt_running_def)
  have fresh: "ckpt_file s = f0" if "iter_num s = 0"
    using inv(1,2) that by (auto simp: inv_defs)
  have next_trace: "filter (\<lambda>i. i mod eval_interval = 0) [0..iter_num s] =
      filter (\<lambda>i. i mod eval_interval = 0) [0..iter_num s - 1] @
      (if iter_num s mod eval_interval = 0 then [iter_num s] else [])"
    using inv(3) by (simp add: upto_rec2)
  let ?u = "s\<lparr>world := zero_grad E (opt_step E (world s)),
      printed := printed s @ [TrainLog (iter_num s) loss lr]\<rparr>"
  show ?thesis
  proof (cases "m \<and> iter_num s mod eval_interval = 0")
    case True
    have u: "same_progress s ?u" by (simp add: same_progress_def)
    have "ckpt_safe f0 True ?u" using ckpt_safe_frame [OF u, of f0 True] inv(1) True by simp
    with inv fresh True have "wp (evaluate E on_save bs)
        (\<lambda>_ t. ckpt_safe f0 True t \<and> iter_num t = iter_num ?u \<and>
          map fst (val_logs (printed t)) = map fst (val_logs (printed ?u)) @ [iter_num ?u])
        (ckpt_left f0 True) ?u"
      by (intro evaluate_safe) simp_all
    then have "wp (evaluate E on_save bs) (\<lambda>_ t. ckpt_safe f0 m (t\<lparr>iter_num := iter_num t + 1\<rparr>) \<and>
          trace_inv m (t\<lparr>iter_num := iter_num t + 1\<rparr>) \<and>
          (\<not> iter_num t + 1 > max_iters \<longrightarrow> ckpt_running f0 m (t\<lparr>iter_num := iter_num t + 1\<rparr>)))
        (ckpt_left f0 m) ?u"
      by (rule wp_mono)
         (use True inv next_trace in \<open>auto simp: ckpt_running_def inv_defs\<close>)
    with True show ?thesis by (simp add: update_half_def py_wp log_interval_def)
  next
    case False
    with assms next_trace show ?thesis
      by (auto simp: update_half_def py_wp ckpt_running_def inv_defs)
  qed
qed

lemma loop_body_safe:
  assumes "ckpt_running f0 m s"
  shows "wp (loop_body E on_save m bs ga)
     (\<lambda>go_on t. ckpt_safe f0 m t \<and> trace_inv m t \<and> (go_on \<longrightarrow> ckpt_running f0 m t)) (ckpt_left f0 m) s"
  unfolding loop_body_def wp_bind
proof (rule wp_mono [OF gradient_half_progress])
  show "ckpt_left f0 m t" if "same_progress s t" for t
    using that assms by (simp add: ckpt_safe_frame ckpt_running_def ckpt_safe_left)
  fix r and t :: "('w, 'c) run"
  assume "same_progress s t"
  with assms have t: "ckpt_running f0 m t" by (simp add: running_frame)
  show "wp (case r of None \<Rightarrow> py_return True | Some (loss, lr) \<Rightarrow> update_half E on_save m bs loss lr)
      (\<lambda>go_on t. ckpt_safe f0 m t \<and> trace_inv m t \<and> (go_on \<longrightarrow> ckpt_running f0 m t)) (ckpt_left f0 m) t"
    using t update_half_safe [OF t] by (auto simp: py_wp ckpt_running_def split: option.splits)
qed

lemma reach_safe:
  assumes "loop_reach (loop_body E on_save m bs ga) s0 r t"
    and "iter_num s0 = 0" "best_val_loss s0 = PInf" "printed s0 = []"
  shows "ckpt_left (ckpt_file s0) m t \<and> (r = None \<or> r = Some (Return ()) \<longrightarrow> ckpt_safe (ckpt_file s0) m t)"
proof -
  have "ckpt_running (ckpt_file s0) m s0"
    using assms(2-4) by (simp add: ckpt_running_def inv_defs max_iters_def)
  have step: "wp (loop_body E on_save m bs ga)
      (\<lambda>go_on t. ckpt_safe (ckpt_file s0) m t \<and> (go_on \<longrightarrow> ckpt_running (ckpt_file s0) m t))
      (ckpt_left (ckpt_file s0) m) s" if "ckpt_running (ckpt_file s0) m s" for s
    by (rule wp_mono [OF loop_body_safe [OF that]]) auto
  from loop_reach_invariant [of _ _ _ _ "ckpt_running (ckpt_file s0) m" "ckpt_safe (ckpt_file s0) m",
      OF assms(1) \<open>ckpt_running (ckpt_file s0) m s0\<close> step _ ckpt_safe_left]
  show ?thesis by (simp add: ckpt_running_def)
qed

end

interpretation report: save_hook "report_training_time E post" for E post
  by unfold_locales
     (auto simp: report_training_time_def py_wp same_progress_def split: sum.splits intro!: wp_in_world_any)

interpretation quiet: save_hook "py_return ()"
  by unfold_locales (simp add: py_wp)

section \<open>Runs in which nothing fails\<close>

text \<open>
  \<open>ok\<close> describes worlds in which the data can be read and the operations return, every one of them
  leading to such a world; \<open>healthy\<close> adds that the gradients are numbers.
\<close>

definition operational :: "('w, 'b, 'c) torch_ops \<Rightarrow> ('w \<Rightarrow> bool) \<Rightarrow> int \<Rightarrow> int \<Rightarrow> bool" where
  "operational E ok bs ga \<longleftrightarrow> (\<forall>w. ok w \<longrightarrow>
     (\<forall>lr. ok (set_lr E lr w)) \<and>
     (\<forall>split. wp (load_batch E split bs) (\<lambda>_. ok) (\<lambda>_. False) w) \<and>
     (\<forall>b. wp (forward E b) (\<lambda>_. ok) (\<lambda>_. False) w) \<and>
     ok (backward E ga w) \<and> ok (clip_grads E w) \<and>
     ok (opt_step E w) \<and> ok (zero_grad E w) \<and> ok (eval_mode E w) \<and> ok (train_mode E w) \<and>
     wp (open_file E) (\<lambda>_. ok) (\<lambda>_. False) w \<and> wp (write_file E) (\<lambda>_. ok) (\<lambda>_. False) w \<and>
     wp (clock E) (\<lambda>_. ok) (\<lambda>_. False) w)"

definition healthy :: "('w, 'b, 'c) torch_ops \<Rightarrow> ('w \<Rightarrow> bool) \<Rightarrow> int \<Rightarrow> int \<Rightarrow> bool" where
  "healthy E ok bs ga \<longleftrightarrow> operational E ok bs ga \<and> (\<forall>w. ok w \<longrightarrow> Some True \<notin> set (grad_nans E w))"

definition fine :: "('w \<Rightarrow> bool) \<Rightarrow> int \<Rightarrow> ('w, 'c) run \<Rightarrow> bool" where
  "fine ok i s \<longleftrightarrow> ok (world s) \<and> iter_num s = i"

lemma calls_fine:
  assumes "operational E ok bs ga" "fine ok i s"
  shows "wp (in_world (load_batch E split bs)) (\<lambda>_. fine ok i) (\<lambda>_. False) s"
    and "wp (in_world (forward E b)) (\<lambda>_. fine ok i) (\<lambda>_. False) s"
    and "wp (in_world (clock E)) (\<lambda>_. fine ok i) (\<lambda>_. False) s"
    and "wp (in_world (open_file E)) (\<lambda>_. fine ok i) (\<lambda>_. False) s"
    and "wp (in_world (write_file E)) (\<lambda>_. fine ok i) (\<lambda>_. False) s"
  using assms by (auto simp: wp_in_world fine_def operational_def elim!: wp_mono)

lemma ops_fine:
  assumes "operational E ok bs ga" "fine ok i s"
  shows "fine ok i (s\<lparr>world := set_lr E lr (world s)\<rparr>)" "fine ok i (s\<lparr>world := backward E ga (world s)\<rparr>)"
    "fine ok i (s\<lparr>world := clip_grads E (world s)\<rparr>)" "fine ok i (s\<lparr>world := opt_step E (world s)\<rparr>)"
    "fine ok i (s\<lparr>world := zero_grad E (world s)\<rparr>)" "fine ok i (s\<lparr>world := eval_mode E (world s)\<rparr>)"
    "fine ok i (s\<lparr>world := train_mode E (world s)\<rparr>)"
  using assms by (simp_all add: fine_def operational_def)

lemma fine_frame [simp]:
  "fine ok i (s\<lparr>printed := l\<rparr>) = fine ok i s" "fine ok i (s\<lparr>best_val_loss := v\<rparr>) = fine ok i s"
  "fine ok i (s\<lparr>ckpt_file := f\<rparr>) = fine ok i s" "fine ok i (s\<lparr>start_time := v\<rparr>) = fine ok i s"
  by (simp_all add: fine_def)

lemma gradient_half_fine:
  assumes healthy: "healthy E ok bs ga" and s: "fine ok i s"
  shows "wp (gradient_half E bs ga) (\<lambda>r t. r \<noteq> None \<and> fine ok i t) (\<lambda>_. False) s"
proof -
  from healthy have h: "operational E ok bs ga" by (simp add: healthy_def)
  show ?thesis
    unfolding gradient_half_def py_wp Let_def
    by (rule wp_mono [OF calls_fine(1) [OF h ops_fine(1) [OF h s]]],
        rule wp_mono [OF calls_fine(2) [OF h]], assumption)
       (use healthy in \<open>simp_all add: fine_def healthy_def operational_def py_wp\<close>)
qed

lemma val_sum_fine:
  assumes h: "operational E ok bs ga"
  shows "fine ok i s \<Longrightarrow> wp (val_sum E bs n acc) (\<lambda>_. fine ok i) (\<lambda>_. False) s"
proof (induction n arbitrary: acc s)
  case (Suc n)
  show ?case
    unfolding val_sum.simps py_wp
    by (rule wp_mono [OF calls_fine(1) [OF h Suc.prems]], rule wp_mono [OF calls_fine(2) [OF h]],
        assumption, rule Suc.IH) simp_all
qed (simp add: py_wp)

lemma evaluate_fine:
  assumes h: "operational E ok bs ga" and s: "fine ok i s"
    and hook: "\<And>s. fine ok i s \<Longrightarrow> wp on_save (\<lambda>_. fine ok i) (\<lambda>_. False) s"
  shows "wp (evaluate E on_save bs) (\<lambda>_. fine ok i) (\<lambda>_. False) s"
proof -
  have last: "wp on_save (\<lambda>_ t. fine ok i (t\<lparr>world := train_mode E (world t)\<rparr>)) (\<lambda>_. False) t"
    if "fine ok i t" for t
    by (rule wp_mono [OF hook [OF that]]) (rule ops_fine(7) [OF h], assumption)
  have save: "wp (save_checkpoint E on_save) (\<lambda>_ t. fine ok i (t\<lparr>world := train_mode E (world t)\<rparr>)) (\<lambda>_. False) t"
    if "fine ok i t" for t
    unfolding save_checkpoint_def py_wp
    by (rule wp_mono [OF calls_fine(4) [OF h that]], rule wp_mono [OF calls_fine(5) [OF h]])
       (auto simp: py_wp intro!: last)
  have mode: "ok w \<Longrightarrow> ok (train_mode E w)" for w using h by (simp add: operational_def)
  show ?thesis
    unfolding evaluate_def py_wp Let_def
    by (rule wp_mono [OF val_sum_fine [OF h ops_fine(6) [OF h s]]])
       (auto intro!: save, simp_all add: fine_def mode)
qed

lemma update_half_fine:
  assumes h: "operational E ok bs ga" and s: "fine ok i s"
    and hook: "\<And>s. fine ok i s \<Longrightarrow> wp on_save (\<lambda>_. fine ok i) (\<lambda>_. False) s"
  shows "wp (update_half E on_save m bs loss lr)
     (\<lambda>go_on t. fine ok (i + 1) t \<and> (go_on \<longleftrightarrow> i + 1 \<le> max_iters)) (\<lambda>_. False) s"
proof -
  let ?u = "s\<lparr>world := zero_grad E (opt_step E (world s))\<rparr>"
  have u: "fine ok i ?u" using s h by (simp add: fine_def operational_def)
  have ev: "wp (evaluate E on_save bs)
      (\<lambda>_ t. fine ok (i + 1) (t\<lparr>iter_num := iter_num t + 1\<rparr>) \<and>
         ((\<not> max_iters < iter_num t + 1) = (i + 1 \<le> max_iters))) (\<lambda>_. False) v" if "fine ok i v" for v
    by (rule wp_mono [OF evaluate_fine [OF h that hook]]) (auto simp: fine_def)
  from u ev show ?thesis
    by (auto simp: update_half_def py_wp intro!: ev) (auto simp: fine_def)
qed

lemma loop_body_fine:
  assumes h: "healthy E ok bs ga" and s: "fine ok i s"
    and hook: "\<And>s. fine ok i s \<Longrightarrow> wp on_save (\<lambda>_. fine ok i) (\<lambda>_. False) s"
  shows "wp (loop_body E on_save m bs ga)
     (\<lambda>go_on t. fine ok (i + 1) t \<and> (go_on \<longleftrightarrow> i + 1 \<le> max_iters)) (\<lambda>_. False) s"
  unfolding loop_body_def wp_bind
  by (rule wp_mono [OF gradient_half_fine [OF h s]])
    (use h in \<open>auto simp: healthy_def intro!: update_half_fine [OF _ _ hook]\<close>)

lemma train_loop_again: "body s = (Return True, t) \<Longrightarrow> train_loop body s = train_loop body t"
  by (subst train_loop.simps) simp

lemma train_loop_finished: "body s = (Return False, t) \<Longrightarrow> train_loop body s = Some (Return (), t)"
  by (subst train_loop.simps) simp

text \<open>A loop whose passes keep the invariant and count ends, and every iteration due for an evaluation
  had one.\<close>

lemma counting_loop_ends:
  assumes pass: "\<And>i s. fine ok i s \<Longrightarrow> ckpt_running f0 m s \<Longrightarrow> wp body (\<lambda>go_on t.
      (ckpt_safe f0 m t \<and> trace_inv m t \<and> (go_on \<longrightarrow> ckpt_running f0 m t)) \<and>
      fine ok (i + 1) t \<and> (go_on \<longleftrightarrow> i + 1 \<le> max_iters)) (\<lambda>t. False) s"
  shows "fine ok i s \<Longrightarrow> ckpt_running f0 m s \<Longrightarrow>
     \<exists>t. train_loop body s = Some (Return (), t) \<and>
       fine ok (max_iters + 1) t \<and> ckpt_safe f0 m t \<and> trace_inv m t"
proof (induction "nat (max_iters - i)" arbitrary: i s rule: less_induct)
  case less
  have i: "i \<le> max_iters" using less.prems by (simp add: fine_def ckpt_running_def)
  from pass [OF less.prems] obtain go_on t where t: "body s = (Return go_on, t)"
      "ckpt_safe f0 m t" "trace_inv m t" "go_on \<longrightarrow> ckpt_running f0 m t" "fine ok (i + 1) t"
      "go_on \<longleftrightarrow> i + 1 \<le> max_iters"
    by (auto simp: wp_returns)
  show ?case
  proof (cases go_on)
    case True
    have "nat (max_iters - (i + 1)) < nat (max_iters - i)" using True t(6) by simp
    from less.hyps [OF this t(5)] True t show ?thesis by (simp add: train_loop_again)
  next
    case False
    with t i have "i + 1 = max_iters + 1" by simp
    with False t show ?thesis by (auto simp: train_loop_finished)
  qed
qed

context save_hook begin

lemma loop_ends:
  assumes h: "healthy E ok bs ga"
    and total: "\<And>i s. fine ok i s \<Longrightarrow> wp on_save (\<lambda>_. fine ok i) (\<lambda>_. False) s"
    and "fine ok i s" "ckpt_running f0 m s"
  shows "\<exists>t. train_loop (loop_body E on_save m bs ga) s = Some (Return (), t) \<and>
       fine ok (max_iters + 1) t \<and> ckpt_safe f0 m t \<and> trace_inv m t"
proof (rule counting_loop_ends [OF _ assms(3,4)])
  fix i and s :: "('w, 'c) run"
  assume "fine ok i s" "ckpt_running f0 m s"
  from wp_conj [OF loop_body_safe [OF this(2)] loop_body_fine [OF h this(1) total]]
  show "wp (loop_body E on_save m bs ga) (\<lambda>go_on t.
      (ckpt_safe f0 m t \<and> trace_inv m t \<and> (go_on \<longrightarrow> ckpt_running f0 m t)) \<and>
      fine ok (i + 1) t \<and> (go_on \<longleftrightarrow> i + 1 \<le> max_iters)) (\<lambda>t. False) s"
    by simp
qed

end

section \<open>Runs poisoned by NaN\<close>

text \<open>
  \<open>bad\<close> describes worlds whose gradients are never numbers, and in which nothing raises: the weights
  hold a NaN.  Skipping an update changes no weight.
\<close>

definition poisoned :: "('w, 'b, 'c) torch_ops \<Rightarrow> ('w \<Rightarrow> bool) \<Rightarrow> int \<Rightarrow> int \<Rightarrow> bool" where
  "poisoned E bad bs ga \<longleftrightarrow> (\<forall>w. bad w \<longrightarrow>
     (\<forall>lr. bad (set_lr E lr w)) \<and>
     wp (load_batch E ''train'' bs) (\<lambda>_. bad) (\<lambda>_. False) w \<and>
     (\<forall>b. wp (forward E b) (\<lambda>_. bad) (\<lambda>_. False) w) \<and>
     bad (zero_grad E (clip_grads E (backward E ga w))) \<and>
     Some True \<in> set (grad_nans E (clip_grads E (backward E ga w))))"

lemma poisoned_half:
  assumes p: "poisoned E bad bs ga" and s: "bad (world s)"
  shows "wp (gradient_half E bs ga)
     (\<lambda>r t. r = None \<and> bad (world t) \<and> iter_num t = iter_num s) (\<lambda>_. False) s"
proof -
  have load: "wp (in_world (load_batch E ''train'' bs)) (\<lambda>_ t. bad (world t) \<and> iter_num t = iter_num s)
      (\<lambda>_. False) (s\<lparr>world := set_lr E lr (world s)\<rparr>)" for lr
    using p s by (auto simp: wp_in_world poisoned_def elim!: wp_mono)
  have forward: "wp (in_world (forward E b)) (\<lambda>_ t. bad (world t) \<and> iter_num t = iter_num s)
      (\<lambda>_. False) t" if "bad (world t) \<and> iter_num t = iter_num s" for b and t :: "('a, 'c) run"
    using p that by (auto simp: wp_in_world poisoned_def elim!: wp_mono)
  have clip: "grad_clip \<noteq> 0" by (simp add: grad_clip_def)
  show ?thesis
    unfolding gradient_half_def py_wp Let_def
    by (rule wp_mono [OF load], rule wp_mono [OF forward], assumption)
       (use p clip in \<open>simp_all add: poisoned_def py_wp\<close>)
qed

lemma poisoned_body:
  assumes "poisoned E bad bs ga" "bad (world s)"
  shows "\<exists>t. loop_body E on_save m bs ga s = (Return True, t) \<and> bad (world t) \<and> iter_num t = iter_num s"
proof -
  have "wp (loop_body E on_save m bs ga)
      (\<lambda>go_on t. go_on \<and> bad (world t) \<and> iter_num t = iter_num s) (\<lambda>_. False) s"
    unfolding loop_body_def wp_bind
    by (rule wp_mono [OF poisoned_half [OF assms]]) (simp_all add: py_wp)
  then show ?thesis by (auto simp: wp_returns)
qed

lemma train_loop_forever:
  assumes "\<And>s. P s \<Longrightarrow> \<exists>t. body s = (Return True, t) \<and> P t" "P s"
  shows "train_loop body s = None"
proof -
  have False if ret: "train_loop body s = Some y" for y
  proof -
    let ?P = "\<lambda>b s (y :: unit outcome \<times> 'a). b = body \<longrightarrow> \<not> P s"
    have "?P body s y"
    proof (rule train_loop.raw_induct [of ?P, OF _ ret])
      fix rec b s y
      assume IH: "\<And>b s y. rec b s = Some y \<Longrightarrow> ?P b s y"
        and eq: "(case b s of (Return go_on, s') \<Rightarrow> if go_on then rec b s' else Some (Return (), s')
          | (Raise e, s') \<Rightarrow> Some (Raise e, s') | (Blocked, s') \<Rightarrow> Some (Blocked, s')) = Some y"
      show "?P b s y"
        using assms(1) [of s] eq IH by fastforce
    qed
    with assms(2) show False by simp
  qed
  then show ?thesis by (cases "train_loop body s") auto
qed

section \<open>Properties\<close>

lemma prelude_locals:
  assumes "train_prelude E get vocab s = (Return p, s1)"
  shows "iter_num s1 = 0 \<and> best_val_loss s1 = PInf \<and> printed s1 = printed s \<and> ckpt_file s1 = ckpt_file s"
proof -
  have "wp (train_prelude E get vocab) (\<lambda>_ t. iter_num t = 0 \<and> best_val_loss t = PInf \<and>
      printed t = printed s \<and> ckpt_file t = ckpt_file s) (\<lambda>_. True) s"
    unfolding train_prelude_def py_wp
    by (rule wp_in_world_any)
       (auto simp: py_wp split: prod.splits sum.splits intro!: wp_in_world_any)
  with assms show ?thesis by (simp add: wp_def)
qed

text \<open>A concrete world for the witnesses: a clock, operations that return, one gradient.\<close>

definition toy_ops :: "bool \<Rightarrow> (int, unit, int) torch_ops" where
  "toy_ops nan = \<lparr>init_group = py_return (), destroy_group = id, manual_seed = (\<lambda>_. id),
     build_model = (\<lambda>_ _. id), set_lr = (\<lambda>_. id), load_batch = (\<lambda>_ _. py_return ()),
     forward = (\<lambda>_. py_get (\<lambda>w. Fin (of_int (- w)))), backward = (\<lambda>_ w. w + 1), clip_grads = id,
     grad_nans = (\<lambda>_. [None, Some nan]), opt_step = id, zero_grad = id, eval_mode = id,
     train_mode = id, state_dicts = id, open_file = py_return (), write_file = py_return (), clock = py_get (\<lambda>w. Fin (of_int w))\<rparr>"

definition toy_start :: "(int, int) run" where
  "toy_start = \<lparr>world = 0, iter_num = 7, best_val_loss = Fin 0, start_time = NaN, ckpt_file = None, printed = []\<rparr>"

definition toy_get :: http_get where
  "toy_get _ = HttpResponse 200 (Some (JObj []))"

lemma toy_prelude: "train_prelude (toy_ops nan) toy_get None toy_start =
    (Return (False, True, 8, 1), \<lparr>world = 0, iter_num = 0, best_val_loss = PInf, start_time = Fin 0,
      ckpt_file = None, printed = []\<rparr>)"
  by (simp add: train_prelude_def setup_distributed_def toy_ops_def toy_get_def toy_start_def py_simps
      fetch_env_vars_def raise_for_status_def json_body_def local_sizes_def module_batch_size_def
      module_grad_accum_def in_world_def do_world_def)

lemma toy_healthy: "healthy (toy_ops False) (\<lambda>_. True) bs ga"
  by (simp add: healthy_def operational_def toy_ops_def py_wp)

lemma toy_poisoned: "poisoned (toy_ops True) (\<lambda>_. True) bs ga"
  by (simp add: poisoned_def toy_ops_def py_wp)

lemma report_fine:
  assumes h: "operational E ok bs ga"
  shows "fine ok i s \<Longrightarrow> wp (report_training_time E post) (\<lambda>_. fine ok i) (\<lambda>_. False) s"
  unfolding report_training_time_def py_wp
  by (rule wp_mono [OF calls_fine(3) [OF h]], assumption)
     (use logged_never_raises in \<open>auto simp: py_wp report_event_def calls_fine(3) [OF h]
        split: sum.splits intro!: wp_mono [OF calls_fine(3) [OF h]]\<close>, metis sum.distinct(1))

lemma healthy_report_fine:
  "healthy E ok bs ga \<Longrightarrow> fine ok i s \<Longrightarrow> wp (report_training_time E post) (\<lambda>_. fine ok i) (\<lambda>_. False) s"
  by (rule report_fine [of E ok bs ga]) (simp_all add: healthy_def)

text \<open>C9: Training ends: with data that can be read and gradients that are numbers, \<open>train()\<close> returns after
  iteration \<open>max_iters\<close>, having evaluated exactly at the multiples of the interval up to it on the master
  and nowhere on another rank.\<close>

theorem training_completes:
  assumes "train_prelude E get vocab s = (Return (d, m, bs, ga), s1)" "printed s = []"
    and "healthy E ok bs ga" "ok (world s1)"
  shows "\<exists>t. train E get post vocab s = Some (Return (), t) \<and> iter_num t = max_iters + 1 \<and>
     map fst (val_logs (printed t)) =
       (if m then filter (\<lambda>i. i mod eval_interval = 0) [0..max_iters] else [])"
proof -
  note locals = prelude_locals [OF assms(1)]
  have "fine ok 0 s1" using assms(4) locals by (simp add: fine_def)
  moreover have "ckpt_running (ckpt_file s1) m s1"
    using locals assms(2) by (simp add: ckpt_running_def inv_defs max_iters_def)
  ultimately obtain t where "train_loop (loop_body E (report_training_time E post) m bs ga) s1 = Some (Return (), t)"
      "fine ok (max_iters + 1) t" "trace_inv m t"
    using report.loop_ends [OF assms(3) healthy_report_fine [OF assms(3)]] by blast
  with assms(1) show ?thesis by (cases m) (simp_all add: train_def fine_def trace_inv_def)
qed

theorem training_completes_witness:
  "\<exists>t. train (toy_ops False) toy_get (\<lambda>_ _. HttpOtherError) None toy_start = Some (Return (), t) \<and> iter_num t = 1001"
  using training_completes [OF toy_prelude _ toy_healthy]
  by (fastforce simp: toy_start_def max_iters_def)

text \<open>C11: Once the weights are poisoned training never ends: if from the world the loop starts in every
  gradient computation gives a NaN, nothing raises, and skipping the update stays there, then \<open>train()\<close>
  does not return, for the iteration number only advances on an update.\<close>

theorem nan_gradients_hang:
  assumes "train_prelude E get vocab s = (Return (d, m, bs, ga), s1)"
    and "poisoned E bad bs ga" "bad (world s1)"
  shows "train E get post vocab s = None"
proof -
  have "train_loop (loop_body E (report_training_time E post) m bs ga) s1 = None"
    by (rule train_loop_forever [of "\<lambda>s. bad (world s)"])
       (use poisoned_body [OF assms(2)] assms(3) in blast)+
  with assms(1) show ?thesis by (simp add: train_def)
qed

theorem nan_gradients_hang_witness: "train (toy_ops True) toy_get (\<lambda>_ _. HttpOtherError) None toy_start = None"
  by (rule nan_gradients_hang [OF toy_prelude toy_poisoned]) simp

text \<open>C3: At the head of the loop and wherever a run ends, no loss evaluated so far is below the best, and only
  the master evaluates or writes the file.  At the head of the loop and when \<open>train()\<close> returns the
  checkpoint file agrees with the best loss: it is the one from before the run, and then the best loss is
  infinite or that of iteration zero, or it holds the best loss with the iteration it was evaluated in,
  which is not zero.  A run that ends with an exception, which may come from writing the file, leaves
  the file from before the run, an incomplete one, or a complete one with the loss and the iteration of
  an evaluation of this run.\<close>

theorem checkpoint_holds_best:
  assumes "train_prelude E get vocab s = (Return (d, m, bs, ga), s1)" "printed s = []"
    and "loop_reach (loop_body E (report_training_time E post) m bs ga) s1 r t"
  shows "(\<forall>(it, v) \<in> set (val_logs (printed t)). \<not> pf_less v (best_val_loss t)) \<and>
     (r = None \<or> r = Some (Return ()) \<longrightarrow>
       ckpt_file t = ckpt_file s \<and> (best_val_loss t = PInf \<or> (0, best_val_loss t) \<in> set (val_logs (printed t))) \<or>
       (\<exists>c. ckpt_file t = Some (Whole c) \<and> 0 < ck_iter c \<and> ck_iter c mod eval_interval = 0 \<and> ck_iter c \<le> max_iters \<and>
          ck_best c = best_val_loss t \<and> (ck_iter c, ck_best c) \<in> set (val_logs (printed t)))) \<and>
     (ckpt_file t = ckpt_file s \<or> ckpt_file t = Some Partial \<or>
       (\<exists>c. ckpt_file t = Some (Whole c) \<and> 0 < ck_iter c \<and> ck_iter c mod eval_interval = 0 \<and> ck_iter c \<le> max_iters \<and>
          (ck_iter c, ck_best c) \<in> set (val_logs (printed t)))) \<and>
     (\<not> m \<longrightarrow> val_logs (printed t) = [] \<and> ckpt_file t = ckpt_file s)"
proof -
  note locals = prelude_locals [OF assms(1)]
  have reach: "ckpt_left (ckpt_file s) m t" "r = None \<or> r = Some (Return ()) \<Longrightarrow> ckpt_safe (ckpt_file s) m t"
    using report.reach_safe [OF assms(3)] locals assms(2) by auto
  have none: "val_logs (printed t) = []" if "\<not> m"
    using reach(1) that by (cases "val_logs (printed t)") (auto simp: ckpt_left_def trace_bounds_def)
  have trace: "it mod eval_interval = 0 \<and> it \<le> max_iters" if "(it, v) \<in> set (val_logs (printed t))" for it v
    using reach(1) that by (fastforce simp: ckpt_left_def trace_bounds_def)
  have "file_inv (ckpt_file s) t" if "r = None \<or> r = Some (Return ())"
    using reach(2) [OF that] by (simp add: ckpt_safe_def)
  then have agree: "r = None \<or> r = Some (Return ()) \<Longrightarrow>
       ckpt_file t = ckpt_file s \<and> (best_val_loss t = PInf \<or> (0, best_val_loss t) \<in> set (val_logs (printed t))) \<or>
       (\<exists>c. ckpt_file t = Some (Whole c) \<and> 0 < ck_iter c \<and> ck_iter c mod eval_interval = 0 \<and> ck_iter c \<le> max_iters \<and>
          ck_best c = best_val_loss t \<and> (ck_iter c, ck_best c) \<in> set (val_logs (printed t)))"
    using trace unfolding file_inv_def by metis
  have "file_left (ckpt_file s) t" using reach(1) by (simp add: ckpt_left_def)
  then have "ckpt_file t = ckpt_file s \<or> ckpt_file t = Some Partial \<or>
       (\<exists>c. ckpt_file t = Some (Whole c) \<and> 0 < ck_iter c \<and> ck_iter c mod eval_interval = 0 \<and> ck_iter c \<le> max_iters \<and>
          (ck_iter c, ck_best c) \<in> set (val_logs (printed t)))"
    using trace unfolding file_left_def by metis
  with agree none reach(1) show ?thesis by (simp add: ckpt_left_def best_inv_def)
qed

theorem checkpoint_holds_best_witness:
  "\<exists>t. train_loop (loop_body (toy_ops False) (report_training_time (toy_ops False) (\<lambda>_ _. HttpOtherError)) True 8 1)
       (snd (train_prelude (toy_ops False) toy_get None toy_start)) = Some (Return (), t) \<and>
     (\<forall>(it, v) \<in> set (val_logs (printed t)). \<not> pf_less v (best_val_loss t))"
proof -
  let ?s1 = "\<lparr>world = 0, iter_num = 0, best_val_loss = PInf, start_time = Fin 0, ckpt_file = None, printed = []\<rparr> :: (int, int) run"
  let ?body = "loop_body (toy_ops False) (report_training_time (toy_ops False) (\<lambda>_ _. HttpOtherError)) True 8 1"
  have "fine (\<lambda>_. True) 0 ?s1" "ckpt_running None True ?s1"
    by (simp_all add: fine_def ckpt_running_def inv_defs max_iters_def)
  then obtain t where t: "train_loop ?body ?s1 = Some (Return (), t)"
    using report.loop_ends [OF toy_healthy healthy_report_fine [OF toy_healthy]] by blast
  from checkpoint_holds_best [OF toy_prelude _ train_loop_reach [OF t loop_reach.start]] t show ?thesis
    by (simp add: toy_prelude) (simp add: toy_start_def)
qed

end
