(* ===== verification/Distributed_Training.thy ===== *)
theory Distributed_Training
  imports Training_Checkpoints
begin

text \<open>
  Several processes of \<open>compute-engine/user_code/train.py\<close> (or \<open>workspace/compute/train.py\<close>) that train one
  model.  \<open>DistributedDataParallel\<close> makes \<open>loss.backward()\<close> a meeting: a process waits there until all have
  computed their gradients, and each goes on with the gradient reduced from all of them.  Everything else a
  process does alone, in any order, and it may be ended by an exception or a signal at any time.
\<close>

section \<open>Processes\<close>

text \<open>
  The parts of \<open>DistributedDataParallel\<close>: the gradient a process computes, what is made of the gradients
  of all, in the order of their ranks, and how a process gets it.
\<close>

record ('w, 'g) ddp_lib =
  local_gradient :: "int \<Rightarrow> 'w \<Rightarrow> 'g"
  reduce :: "'g list \<Rightarrow> 'g"
  put_gradient :: "'g \<Rightarrow> 'w \<Rightarrow> 'w"

text \<open>Where a process is, with the loss and the learning rate of the iteration, and its state.\<close>

datatype ('w, 'c) process =
    AtLoop "('w, 'c) run"                       \<comment> \<open>at the head of \<open>while True\<close>\<close>
  | InBackward pyfloat real "('w, 'c) run"      \<comment> \<open>waits in \<open>loss.backward()\<close>\<close>
  | Reduced pyfloat real "('w, 'c) run"         \<comment> \<open>has the common gradient\<close>
  | Finished "unit outcome" "('w, 'c) run"

fun run_of :: "('w, 'c) process \<Rightarrow> ('w, 'c) run" where
  "run_of (AtLoop r) = r"
| "run_of (InBackward loss lr r) = r"
| "run_of (Reduced loss lr r) = r"
| "run_of (Finished outcome r) = r"

text \<open>The body of the loop up to \<open>backward\<close> and after it.\<close>

definition to_backward :: "('w, 'b, 'c) torch_ops \<Rightarrow> int \<Rightarrow> (('w, 'c) run, pyfloat \<times> real) py" where
  "to_backward E batch_size =
     py_bind (py_get iter_num) (\<lambda>it.
     let lr = get_lr it in
     py_seq (do_world (set_lr E lr))
    (py_bind (in_world (load_batch E ''train'' batch_size)) (\<lambda>b.
     py_bind (in_world (forward E b)) (\<lambda>loss. py_return (loss, lr)))))"

definition after_backward ::
  "('w, 'b, 'c) torch_ops \<Rightarrow> (('w, 'c) run, unit) py \<Rightarrow> bool \<Rightarrow> int \<Rightarrow> pyfloat \<Rightarrow> real \<Rightarrow> (('w, 'c) run, bool) py" where
  "after_backward E on_save is_master batch_size loss lr =
     py_bind (py_get iter_num) (\<lambda>it.
     py_seq (if grad_clip \<noteq> 0 then do_world (clip_grads E) else py_return ())
    (py_bind (py_get (\<lambda>s. Some True \<notin> set (grad_nans E (world s)))) (\<lambda>valid_gradients.
       if \<not> valid_gradients then
         py_seq (say (SkipLog it)) (py_seq (do_world (zero_grad E)) (py_return True))
       else update_half E on_save is_master batch_size loss lr)))"

text \<open>Between them there is only \<open>backward\<close>: the body of the loop is the one of \<open>Training\<close>.\<close>

lemma loop_body_split:
  fixes E :: "('w, 'b, 'c) torch_ops"
  shows "loop_body E on_save m bs ga =
     py_bind (to_backward E bs) (\<lambda>(loss, lr). py_seq (do_world (backward E ga)) (after_backward E on_save m bs loss lr))"
proof (rule ext)
  fix s :: "('w, 'c) run"
  obtain r w where l: "load_batch E ''train'' bs (set_lr E (get_lr (iter_num s)) (world s)) = (r, w)" by fastforce
  show "loop_body E on_save m bs ga s =
     py_bind (to_backward E bs) (\<lambda>(loss, lr). py_seq (do_world (backward E ga)) (after_backward E on_save m bs loss lr)) s"
  proof (cases r)
    case (Return b)
    obtain q v where f: "forward E b w = (q, v)" by fastforce
    show ?thesis
      by (cases q) (simp_all add: loop_body_def gradient_half_def to_backward_def after_backward_def Let_def
          py_bind_assoc py_seq_def py_simps in_world_def l Return f grad_clip_def)
  qed (simp_all add: loop_body_def gradient_half_def to_backward_def after_backward_def Let_def
      py_bind_assoc py_seq_def py_simps in_world_def l)
qed

text \<open>
  A configuration gives for each rank whether it is the master, its batch size and its number of
  accumulated gradients.
\<close>

type_synonym ddp_config = "(bool \<times> int \<times> int) list"

definition contribution :: "('w, 'g) ddp_lib \<Rightarrow> (bool \<times> int \<times> int) \<times> ('w, 'c) process \<Rightarrow> 'g" where
  "contribution D = (\<lambda>((is_master, batch_size, grad_accum), p). local_gradient D grad_accum (world (run_of p)))"

fun receive :: "('w, 'g) ddp_lib \<Rightarrow> 'g \<Rightarrow> ('w, 'c) process \<Rightarrow> ('w, 'c) process" where
  "receive D g (InBackward loss lr r) = Reduced loss lr (r\<lparr>world := put_gradient D g (world r)\<rparr>)"
| "receive D g p = p"

fun is_waiting :: "('w, 'c) process \<Rightarrow> bool" where
  "is_waiting (InBackward loss lr r) = True"
| "is_waiting _ = False"

fun has_ended :: "('w, 'c) process \<Rightarrow> bool" where
  "has_ended (Finished outcome r) = True"
| "has_ended _ = False"

inductive ddp_step ::
  "('w, 'b, 'c) torch_ops \<Rightarrow> ('w, 'g) ddp_lib \<Rightarrow> (('w, 'c) run, unit) py \<Rightarrow> ddp_config
     \<Rightarrow> ('w, 'c) process list \<Rightarrow> ('w, 'c) process list \<Rightarrow> bool" for E D on_save cfg where
  forward: "i < length ps \<Longrightarrow> ps ! i = AtLoop r \<Longrightarrow> cfg ! i = (m, bs, ga) \<Longrightarrow>
    to_backward E bs r = (Return (loss, lr), r') \<Longrightarrow> ddp_step E D on_save cfg ps (ps[i := InBackward loss lr r'])"
| forward_fails: "i < length ps \<Longrightarrow> ps ! i = AtLoop r \<Longrightarrow> cfg ! i = (m, bs, ga) \<Longrightarrow>
    to_backward E bs r = (Raise e, r') \<Longrightarrow> ddp_step E D on_save cfg ps (ps[i := Finished (Raise e) r'])"
| meet: "list_all is_waiting ps \<Longrightarrow> g = reduce D (map (contribution D) (zip cfg ps)) \<Longrightarrow>
    ddp_step E D on_save cfg ps (map (receive D g) ps)"
| again: "i < length ps \<Longrightarrow> ps ! i = Reduced loss lr r \<Longrightarrow> cfg ! i = (m, bs, ga) \<Longrightarrow>
    after_backward E on_save m bs loss lr r = (Return True, r') \<Longrightarrow> ddp_step E D on_save cfg ps (ps[i := AtLoop r'])"
| leave: "i < length ps \<Longrightarrow> ps ! i = Reduced loss lr r \<Longrightarrow> cfg ! i = (m, bs, ga) \<Longrightarrow>
    after_backward E on_save m bs loss lr r = (Return False, r') \<Longrightarrow>
    ddp_step E D on_save cfg ps (ps[i := Finished (Return ()) r'])"
| update_fails: "i < length ps \<Longrightarrow> ps ! i = Reduced loss lr r \<Longrightarrow> cfg ! i = (m, bs, ga) \<Longrightarrow>
    after_backward E on_save m bs loss lr r = (Raise e, r') \<Longrightarrow> ddp_step E D on_save cfg ps (ps[i := Finished (Raise e) r'])"
| interrupted: "i < length ps \<Longrightarrow> \<not> has_ended (ps ! i) \<Longrightarrow>
    ddp_step E D on_save cfg ps (ps[i := Finished (Raise e) (run_of (ps ! i))])"

inductive_cases ddp_stepE: "ddp_step E D on_save cfg ps qs"

section \<open>What the replicas have in common\<close>

text \<open>
  \<open>view\<close> is the part of a world that the processes share: parameters, their gradients, the state of the
  optimizer.  It is documented that each operation on it depends on it only, and that reading data, the
  forward pass (of a model without buffers), the modes and the clock leave it alone.
\<close>

definition acts_on :: "('w \<Rightarrow> 'm) \<Rightarrow> ('w \<Rightarrow> 'w) \<Rightarrow> bool" where
  "acts_on view f \<longleftrightarrow> (\<forall>w w'. view w = view w' \<longrightarrow> view (f w) = view (f w'))"

definition keeps :: "('w \<Rightarrow> 'm) \<Rightarrow> ('w, 'a) py \<Rightarrow> bool" where
  "keeps view m \<longleftrightarrow> (\<forall>w. view (snd (m w)) = view w)"

definition ddp_documented :: "('w, 'b, 'c) torch_ops \<Rightarrow> ('w, 'g) ddp_lib \<Rightarrow> ('w \<Rightarrow> 'm) \<Rightarrow> bool" where
  "ddp_documented E D view \<longleftrightarrow>
     (\<forall>lr. acts_on view (set_lr E lr)) \<and> (\<forall>g. acts_on view (put_gradient D g)) \<and>
     acts_on view (clip_grads E) \<and> acts_on view (opt_step E) \<and> acts_on view (zero_grad E) \<and>
     (\<forall>w w'. view w = view w' \<longrightarrow> grad_nans E w = grad_nans E w') \<and>
     (\<forall>w. view (eval_mode E w) = view w \<and> view (train_mode E w) = view w) \<and>
     (\<forall>split bs. keeps view (load_batch E split bs)) \<and> (\<forall>b. keeps view (forward E b)) \<and> keeps view (clock E) \<and>
     keeps view (open_file E) \<and> keeps view (write_file E)"

definition same_run :: "('w \<Rightarrow> 'm) \<Rightarrow> ('w, 'c) run \<Rightarrow> ('w, 'c) run \<Rightarrow> bool" where
  "same_run view s t \<longleftrightarrow> view (world t) = view (world s) \<and> iter_num t = iter_num s"

lemma documentedD:
  assumes "ddp_documented E D view"
  shows "acts_on view (set_lr E lr)" "acts_on view (put_gradient D g)" "acts_on view (clip_grads E)"
    "acts_on view (opt_step E)" "acts_on view (zero_grad E)"
    and "view w = view w' \<Longrightarrow> grad_nans E w = grad_nans E w'"
    and "view (eval_mode E w) = view w" "view (train_mode E w) = view w"
    and "keeps view (load_batch E split bs)" "keeps view (forward E b)" "keeps view (clock E)"
    and "keeps view (open_file E)" "keeps view (write_file E)"
  using assms unfolding ddp_documented_def by blast+

lemma acts_onD: "acts_on view f \<Longrightarrow> view w = view w' \<Longrightarrow> view (f w) = view (f w')"
  unfolding acts_on_def by blast

lemma same_run_refl [simp]: "same_run view s s"
  by (simp add: same_run_def)

lemma same_run_frame [simp]:
  "same_run view s (t\<lparr>printed := l\<rparr>) = same_run view s t" "same_run view s (t\<lparr>best_val_loss := v\<rparr>) = same_run view s t"
  "same_run view s (t\<lparr>ckpt_file := f\<rparr>) = same_run view s t" "same_run view s (t\<lparr>start_time := x\<rparr>) = same_run view s t"
  by (simp_all add: same_run_def)

lemma keepsD: "keeps view m \<Longrightarrow> m w = (r, w') \<Longrightarrow> view w' = view w"
  by (metis keeps_def snd_conv)

lemma wp_keeps:
  assumes "keeps view m" "\<And>x w. view w = view (world s) \<Longrightarrow> Q x (s\<lparr>world := w\<rparr>)"
    and "\<And>w. view w = view (world s) \<Longrightarrow> X (s\<lparr>world := w\<rparr>)"
  shows "wp (in_world m) Q X s"
  using keepsD [OF assms(1)] assms(2,3) by (auto simp: wp_def in_world_def split: prod.splits outcome.splits)

text \<open>The two actions after a save: the report to the agent, or nothing.\<close>

definition hook_keeps :: "('w \<Rightarrow> 'm) \<Rightarrow> (('w, 'c) run, unit) py \<Rightarrow> bool" where
  "hook_keeps view on_save \<longleftrightarrow> (\<forall>s. wp on_save (\<lambda>_. same_run view s) (\<lambda>t. iter_num t = iter_num s) s)"

lemma quiet_keeps: "hook_keeps view (py_return ())"
  by (simp add: hook_keeps_def py_wp)

lemma report_keeps:
  assumes "ddp_documented E D view"
  shows "hook_keeps view (report_training_time E post)"
proof -
  note clock = documentedD(11) [OF assms]
  show ?thesis
    unfolding hook_keeps_def report_training_time_def
    by (auto simp: py_wp same_run_def split: sum.splits intro!: wp_keeps [OF clock])
qed

lemma to_backward_effect:
  assumes "ddp_documented E D view"
  shows "wp (to_backward E bs) (\<lambda>(loss, lr) t. lr = get_lr (iter_num s) \<and> iter_num t = iter_num s \<and>
     view (world t) = view (set_lr E lr (world s))) (\<lambda>t. iter_num t = iter_num s) s"
proof -
  note load = documentedD(9) [OF assms] and fwd = documentedD(10) [OF assms]
  show ?thesis
    unfolding to_backward_def Let_def py_wp by (rule wp_keeps [OF load] wp_keeps [OF fwd] | simp add: py_wp)+
qed

lemma val_sum_keeps:
  assumes "ddp_documented E D view"
  shows "same_run view s t \<Longrightarrow> wp (val_sum E bs n acc) (\<lambda>_. same_run view s) (\<lambda>u. iter_num u = iter_num s) t"
proof (induction n arbitrary: acc t)
  case (Suc n)
  note load = documentedD(9) [OF assms] and fwd = documentedD(10) [OF assms]
  show ?case
    unfolding val_sum.simps py_wp
    by (rule wp_keeps [OF load], rule wp_keeps [OF fwd], rule Suc.IH) (use Suc.prems in \<open>simp_all add: same_run_def\<close>)
qed (simp add: py_wp)

lemma evaluate_keeps:
  assumes doc: "ddp_documented E D view" and hook: "hook_keeps view on_save"
  shows "wp (evaluate E on_save bs) (\<lambda>_. same_run view s) (\<lambda>t. iter_num t = iter_num s) s"
proof -
  note mode = documentedD(7,8) [OF doc]
  have save: "wp on_save (\<lambda>_ u. same_run view s (u\<lparr>world := train_mode E (world u)\<rparr>)) (\<lambda>u. iter_num u = iter_num s) t"
    if "same_run view s t" for t
    by (rule wp_mono [OF hook [unfolded hook_keeps_def, rule_format, of t]]) (use that mode in \<open>auto simp: same_run_def\<close>)
  note opened = documentedD(12) [OF doc] and written = documentedD(13) [OF doc]
  have saved: "wp (save_checkpoint E on_save) (\<lambda>_ u. same_run view s (u\<lparr>world := train_mode E (world u)\<rparr>))
      (\<lambda>u. iter_num u = iter_num s) t" if "same_run view s t" for t
    unfolding save_checkpoint_def py_wp
    by (rule wp_keeps [OF opened], rule wp_keeps [OF written], rule save)
       (use that in \<open>simp_all add: same_run_def\<close>)
  have eval: "same_run view s (s\<lparr>world := eval_mode E (world s)\<rparr>)" by (simp add: same_run_def mode)
  show ?thesis
    unfolding evaluate_def py_wp Let_def
    by (rule wp_mono [OF val_sum_keeps [OF doc eval]]) (auto intro!: saved, simp_all add: same_run_def mode)
qed

text \<open>What the second part of an iteration leads to is a function of the shared part.\<close>

definition iteration_result :: "('w, 'b, 'c) torch_ops \<Rightarrow> ('w \<Rightarrow> 'm) \<Rightarrow> ('w, 'c) run \<Rightarrow> bool \<times> 'm \<times> int" where
  "iteration_result E view s =
     (let w = clip_grads E (world s)
      in if Some True \<in> set (grad_nans E w) then (True, view (zero_grad E w), iter_num s)
         else (\<not> iter_num s + 1 > max_iters, view (zero_grad E (opt_step E w)), iter_num s + 1))"

lemma iteration_result_cong:
  assumes "ddp_documented E D view" "same_run view s t"
  shows "iteration_result E view t = iteration_result E view s"
proof -
  have world: "view (world t) = view (world s)" "iter_num t = iter_num s"
    using assms(2) by (simp_all add: same_run_def)
  note clip = acts_onD [OF documentedD(3) [OF assms(1)] world(1)]
  note zero = acts_onD [OF documentedD(5) [OF assms(1)]]
  note opt = acts_onD [OF documentedD(4) [OF assms(1)] clip]
  show ?thesis
    using zero [OF clip] zero [OF opt] documentedD(6) [OF assms(1) clip] world(2)
    by (simp add: iteration_result_def Let_def)
qed

lemma after_backward_effect:
  assumes doc: "ddp_documented E D view" and hook: "hook_keeps view on_save"
  shows "wp (after_backward E on_save m bs loss lr)
     (\<lambda>go_on t. iteration_result E view s = (go_on, view (world t), iter_num t)) (\<lambda>t. iter_num t = iter_num s) s"
proof -
  let ?w = "clip_grads E (world s)"
  have ev: "wp (evaluate E on_save bs) (\<lambda>_ t. (\<not> iter_num u + 1 > max_iters, view (world u), iter_num u + 1) =
      (\<not> max_iters < iter_num t + 1, view (world t), iter_num t + 1)) (\<lambda>t. iter_num t = iter_num u) u" for u
    by (rule wp_mono [OF evaluate_keeps [OF doc hook]]) (auto simp: same_run_def)
  show ?thesis
  proof (cases "Some True \<in> set (grad_nans E ?w)")
    case True
    then show ?thesis by (simp add: after_backward_def py_wp grad_clip_def iteration_result_def Let_def)
  next
    case False
    let ?u = "s\<lparr>world := zero_grad E (opt_step E ?w)\<rparr>"
    have "iteration_result E view s = (\<not> iter_num s + 1 > max_iters, view (zero_grad E (opt_step E ?w)), iter_num s + 1)"
      using False by (simp add: iteration_result_def Let_def)
    with False ev [of ?u] ev [of "?u\<lparr>printed := printed s @ [TrainLog (iter_num s) loss lr]\<rparr>"] show ?thesis
      by (simp add: after_backward_def update_half_def py_wp grad_clip_def)
  qed
qed

section \<open>The invariant\<close>

text \<open>
  \<open>v\<close> and \<open>it\<close> are what the processes share at the head of the loop, \<open>b\<close> whether there is a next
  iteration; \<open>mid\<close> is a state right after the last meeting, which leads there.
\<close>

fun in_step :: "('w, 'b, 'c) torch_ops \<Rightarrow> ('w \<Rightarrow> 'm) \<Rightarrow> ('w, 'c) run option \<Rightarrow> bool \<Rightarrow> 'm \<Rightarrow> int
     \<Rightarrow> ('w, 'c) process \<Rightarrow> bool" where
  "in_step E view mid b v it (AtLoop r) \<longleftrightarrow> b \<and> view (world r) = v \<and> iter_num r = it"
| "in_step E view mid b v it (InBackward loss lr r) \<longleftrightarrow> b \<and> iter_num r = it \<and>
     (\<exists>w. view w = v \<and> view (world r) = view (set_lr E (get_lr it) w))"
| "in_step E view mid b v it (Reduced loss lr r) \<longleftrightarrow> (\<exists>u. mid = Some u \<and> same_run view u r)"
| "in_step E view mid b v it (Finished (Return x) r) \<longleftrightarrow> \<not> b \<and> view (world r) = v \<and> iter_num r = it"
| "in_step E view mid b v it (Finished outcome r) \<longleftrightarrow> True"

definition replicas_ok :: "('w, 'b, 'c) torch_ops \<Rightarrow> ('w \<Rightarrow> 'm) \<Rightarrow> ('w, 'c) process list \<Rightarrow> bool" where
  "replicas_ok E view ps \<longleftrightarrow> (\<exists>mid b v it. (\<forall>u. mid = Some u \<longrightarrow> iteration_result E view u = (b, v, it)) \<and>
     (\<forall>i < length ps. in_step E view mid b v it (ps ! i)))"

lemma replicas_ok_start:
  assumes "\<And>r r'. r \<in> set rs \<Longrightarrow> r' \<in> set rs \<Longrightarrow> same_run view r r'"
  shows "replicas_ok E view (map AtLoop rs)"
proof (cases rs)
  case (Cons r rs')
  have "in_step E view None True (view (world r)) (iter_num r) (map AtLoop rs ! i)" if "i < length rs" for i
  proof -
    have "r \<in> set rs" using Cons by simp
    from assms [OF this nth_mem [OF that]] that show ?thesis by (simp add: same_run_def)
  qed
  then have "\<forall>i < length (map AtLoop rs). in_step E view None True (view (world r)) (iter_num r) (map AtLoop rs ! i)"
    by simp
  then show ?thesis unfolding replicas_ok_def by blast
qed (auto simp: replicas_ok_def intro: exI [of _ None])

lemma replicas_ok_update:
  assumes "replicas_ok E view ps" "i < length ps"
    and "\<And>mid b v it. (\<forall>u. mid = Some u \<longrightarrow> iteration_result E view u = (b, v, it)) \<Longrightarrow>
      in_step E view mid b v it (ps ! i) \<Longrightarrow> in_step E view mid b v it q"
  shows "replicas_ok E view (ps[i := q])"
proof -
  obtain mid b v it where "\<forall>u. mid = Some u \<longrightarrow> iteration_result E view u = (b, v, it)"
    and "\<forall>j < length ps. in_step E view mid b v it (ps ! j)"
    using assms(1) unfolding replicas_ok_def by blast
  with assms(3) [OF this(1)] assms(2) show ?thesis
    unfolding replicas_ok_def by (intro exI [of _ mid] exI [of _ b] exI [of _ v] exI [of _ it]) (simp add: nth_list_update)
qed

lemma waiting_same:
  assumes "ddp_documented E D view" "in_step E view mid b v it (InBackward loss lr r)"
    and "in_step E view mid b v it (InBackward loss' lr' r')"
  shows "same_run view r r'"
proof -
  obtain w w' where "view w = view w'" "view (world r) = view (set_lr E (get_lr it) w)"
    "view (world r') = view (set_lr E (get_lr it) w')" "iter_num r = it" "iter_num r' = it"
    using assms(2,3) by auto
  with acts_onD [OF documentedD(1) [OF assms(1)]] show ?thesis unfolding same_run_def by metis
qed

lemma replicas_ok_meet:
  assumes doc: "ddp_documented E D view" and ok: "replicas_ok E view ps" and all: "list_all is_waiting ps"
  shows "replicas_ok E view (map (receive D g) ps)"
proof (cases ps)
  case (Cons p ps')
  obtain mid b v it where places: "\<forall>j < length ps. in_step E view mid b v it (ps ! j)"
    using ok unfolding replicas_ok_def by blast
  have wait: "\<exists>loss lr r. ps ! j = InBackward loss lr r" if "j < length ps" for j
    using all that by (cases "ps ! j") (auto simp: list_all_length)
  obtain loss lr r where p: "ps ! 0 = InBackward loss lr r" using wait [of 0] Cons by auto
  let ?u = "r\<lparr>world := put_gradient D g (world r)\<rparr>"
  obtain b' v' it' where res: "iteration_result E view ?u = (b', v', it')" by (cases "iteration_result E view ?u") auto
  have "in_step E view (Some ?u) b' v' it' (map (receive D g) ps ! j)" if j: "j < length ps" for j
  proof -
    obtain loss' lr' r' where q: "ps ! j = InBackward loss' lr' r'" using wait [OF j] by blast
    have at0: "0 < length ps" using Cons by simp
    have "same_run view r r'"
      using waiting_same [OF doc] places [rule_format, OF at0] places [rule_format, OF j] unfolding p q .
    then have w: "view (world r') = view (world r)" "iter_num r' = iter_num r" by (simp_all add: same_run_def)
    have "same_run view ?u (r'\<lparr>world := put_gradient D g (world r')\<rparr>)"
      using acts_onD [OF documentedD(2) [OF doc] w(1)] w(2) by (simp add: same_run_def)
    with j q show ?thesis by simp
  qed
  with res show ?thesis
    unfolding replicas_ok_def by (intro exI [of _ "Some ?u"] exI [of _ b'] exI [of _ v'] exI [of _ it']) simp
qed (use ok in simp)

lemma after_backward_place:
  assumes doc: "ddp_documented E D view" and hook: "hook_keeps view on_save"
    and mid: "\<forall>u. mid = Some u \<longrightarrow> iteration_result E view u = (b, v, it)"
    and "in_step E view mid b v it (Reduced loss lr r)" "after_backward E on_save m bs loss' lr' r = (Return go_on, r')"
  shows "go_on = b \<and> view (world r') = v \<and> iter_num r' = it"
proof -
  obtain u where u: "mid = Some u" "same_run view u r" using assms(4) by auto
  have "iteration_result E view r = (go_on, view (world r'), iter_num r')"
    using after_backward_effect [OF doc hook, of m bs loss' lr' r] by (simp add: wp_def assms(5))
  with iteration_result_cong [OF doc u(2)] mid u(1) show ?thesis by simp
qed

lemma replicas_ok_step:
  assumes doc: "ddp_documented E D view" and hook: "hook_keeps view on_save"
    and "ddp_step E D on_save cfg ps qs" "replicas_ok E view ps"
  shows "replicas_ok E view qs"
  using assms(3)
proof cases
  case (forward i r m bs ga loss lr r')
  have r': "lr = get_lr (iter_num r) \<and> iter_num r' = iter_num r \<and> view (world r') = view (set_lr E lr (world r))"
    using to_backward_effect [OF doc, of bs r] by (simp add: wp_def forward(5))
  show ?thesis
    unfolding forward(1) by (rule replicas_ok_update [OF assms(4) forward(2)]) (use r' forward(3) in auto)
next
  case (meet g)
  with replicas_ok_meet [OF doc assms(4)] show ?thesis by blast
next
  case (again i loss lr r m bs ga r')
  show ?thesis
    unfolding again(1)
  proof (rule replicas_ok_update [OF assms(4) again(2)])
    fix mid b v it
    assume "\<forall>u. mid = Some u \<longrightarrow> iteration_result E view u = (b, v, it)" "in_step E view mid b v it (ps ! i)"
    from after_backward_place [OF doc hook this(1) this(2) [unfolded again(3)] again(5)]
    show "in_step E view mid b v it (AtLoop r')" by simp
  qed
next
  case (leave i loss lr r m bs ga r')
  show ?thesis
    unfolding leave(1)
  proof (rule replicas_ok_update [OF assms(4) leave(2)])
    fix mid b v it
    assume "\<forall>u. mid = Some u \<longrightarrow> iteration_result E view u = (b, v, it)" "in_step E view mid b v it (ps ! i)"
    from after_backward_place [OF doc hook this(1) this(2) [unfolded leave(3)] leave(5)]
    show "in_step E view mid b v it (Finished (Return ()) r')" by simp
  qed
qed (use replicas_ok_update [OF assms(4)] in auto)

lemma replicas_ok_steps:
  assumes "ddp_documented E D view" "hook_keeps view on_save"
    and "(ddp_step E D on_save cfg)\<^sup>*\<^sup>* ps qs" "replicas_ok E view ps"
  shows "replicas_ok E view qs"
  using assms(3,4)
proof induction
  case (step qs us)
  then show ?case using replicas_ok_step [OF assms(1,2)] by blast
qed

section \<open>After a failure\<close>

text \<open>How far a process can still get when the processes do not meet any more.\<close>

fun held :: "('w, 'c) process \<Rightarrow> ('w, 'c) process \<Rightarrow> bool" where
  "held (Finished outcome r) q \<longleftrightarrow> q = Finished outcome r"
| "held (Reduced loss lr r) q \<longleftrightarrow> q = Reduced loss lr r \<or>
     (\<forall>loss' lr' r'. q \<noteq> Reduced loss' lr' r') \<and> iter_num (run_of q) \<in> {iter_num r, iter_num r + 1}"
| "held p q \<longleftrightarrow> (\<forall>loss' lr' r'. q \<noteq> Reduced loss' lr' r') \<and> (\<forall>x r'. q \<noteq> Finished (Return x) r') \<and>
     iter_num (run_of q) = iter_num (run_of p)"

lemma held_refl [simp]: "held p p"
  by (cases p) auto

lemma held_moves:
  assumes "held p q"
  shows "\<not> has_ended q \<Longrightarrow> iter_num (run_of q') = iter_num (run_of q) \<Longrightarrow> (\<forall>loss lr r. q' \<noteq> Reduced loss lr r) \<Longrightarrow>
      (\<forall>x r. q' \<noteq> Finished (Return x) r) \<Longrightarrow> held p q'"
    and "q = Reduced loss lr r \<Longrightarrow> iter_num (run_of q') \<in> {iter_num r, iter_num r + 1} \<Longrightarrow>
      (\<forall>loss lr r. q' \<noteq> Reduced loss lr r) \<Longrightarrow> held p q'"
  using assms by (cases p; auto)+

lemma after_backward_iter:
  assumes "ddp_documented E D view" "hook_keeps view on_save"
  shows "after_backward E on_save m bs loss lr r = (Return go_on, r') \<Longrightarrow> iter_num r' \<in> {iter_num r, iter_num r + 1}"
    and "after_backward E on_save m bs loss lr r = (Raise e, r') \<Longrightarrow> iter_num r' = iter_num r"
  using after_backward_effect [OF assms, of m bs loss lr r]
  by (auto simp: wp_def iteration_result_def Let_def split: if_splits)

lemma held_step:
  assumes doc: "ddp_documented E D view" and hook: "hook_keeps view on_save"
    and "ddp_step E D on_save cfg ps qs" "\<not> list_all is_waiting ps" "j < length ps" "held p (ps ! j)"
  shows "held p (qs ! j)"
  using assms(3)
proof cases
  case (forward i r m bs ga loss lr r')
  have "iter_num r' = iter_num r" using to_backward_effect [OF doc, of bs r] by (simp add: wp_def forward(5))
  with held_moves(1) [of p "AtLoop r"] forward assms(5,6) show ?thesis by (cases "i = j") auto
next
  case (forward_fails i r m bs ga e r')
  have "iter_num r' = iter_num r" using to_backward_effect [OF doc, of bs r] by (simp add: wp_def forward_fails(5))
  with held_moves(1) [of p "AtLoop r"] forward_fails assms(5,6) show ?thesis by (cases "i = j") auto
next
  case (meet g)
  with assms(4) show ?thesis by simp
next
  case (again i loss lr r m bs ga r')
  with held_moves(2) [OF assms(6)] after_backward_iter(1) [OF doc hook again(5)] assms(5,6) show ?thesis
    by (cases "i = j") auto
next
  case (leave i loss lr r m bs ga r')
  with held_moves(2) [OF assms(6)] after_backward_iter(1) [OF doc hook leave(5)] assms(5,6) show ?thesis
    by (cases "i = j") auto
next
  case (update_fails i loss lr r m bs ga e r')
  with held_moves(2) [OF assms(6)] after_backward_iter(2) [OF doc hook update_fails(5)] assms(5,6) show ?thesis
    by (cases "i = j") auto
next
  case (interrupted i e)
  with held_moves(1) [OF assms(6)] assms(5,6) show ?thesis by (cases "i = j") auto
qed

lemma ddp_step_length: "ddp_step E D on_save cfg ps qs \<Longrightarrow> length qs = length ps"
  by (induction rule: ddp_step.induct) simp_all

lemma failed_not_waiting: "i < length ps \<Longrightarrow> ps ! i = Finished outcome r \<Longrightarrow> \<not> list_all is_waiting ps"
  by (auto simp: list_all_length)

lemma held_steps:
  assumes "ddp_documented E D view" "hook_keeps view on_save"
    and "(ddp_step E D on_save cfg)\<^sup>*\<^sup>* ps qs" "i < length ps" "ps ! i = Finished (Raise e) r"
  shows "length qs = length ps \<and> (\<forall>j < length ps. held (ps ! j) (qs ! j))"
  using assms(3)
proof induction
  case (step qs us)
  then have "qs ! i = Finished (Raise e) r" using assms(4,5) by (metis held.simps(1))
  with step assms(4) failed_not_waiting have "\<not> list_all is_waiting qs" by metis
  with step held_step [OF assms(1,2) step(2)] show ?case by (simp add: ddp_step_length)
qed simp

section \<open>Completion\<close>

text \<open>
  In \<open>ok\<close> worlds all operations return and lead to such worlds, and the gradients that the processes of the
  job reduce from such worlds are made of numbers.
\<close>

definition ddp_healthy :: "('w, 'b, 'c) torch_ops \<Rightarrow> ('w, 'g) ddp_lib \<Rightarrow> ('w \<Rightarrow> bool) \<Rightarrow> ddp_config \<Rightarrow> bool" where
  "ddp_healthy E D ok cfg \<longleftrightarrow> (\<forall>(m, bs, ga) \<in> set cfg. operational E ok bs ga) \<and>
     (\<forall>ws. length ws = length cfg \<and> (\<forall>w \<in> set ws. ok w) \<longrightarrow>
       (let g = reduce D (map (\<lambda>((m, bs, ga), w). local_gradient D ga w) (zip cfg ws))
        in \<forall>w. ok w \<longrightarrow> ok (put_gradient D g w) \<and> Some True \<notin> set (grad_nans E (clip_grads E (put_gradient D g w)))))"

fun on_course :: "('w, 'b, 'c) torch_ops \<Rightarrow> ('w \<Rightarrow> bool) \<Rightarrow> ('w, 'c) process \<Rightarrow> bool" where
  "on_course E ok (AtLoop r) \<longleftrightarrow> ok (world r) \<and> iter_num r \<le> max_iters"
| "on_course E ok (InBackward loss lr r) \<longleftrightarrow> ok (world r) \<and> iter_num r \<le> max_iters"
| "on_course E ok (Reduced loss lr r) \<longleftrightarrow> ok (world r) \<and> iter_num r \<le> max_iters \<and>
     Some True \<notin> set (grad_nans E (clip_grads E (world r)))"
| "on_course E ok (Finished (Return x) r) \<longleftrightarrow> iter_num r = max_iters + 1"
| "on_course E ok (Finished outcome r) \<longleftrightarrow> False"

text \<open>The number of steps a process has left.\<close>

fun steps_ahead :: "('w, 'c) process \<Rightarrow> nat" where
  "steps_ahead (AtLoop r) = 3 * nat (max_iters + 1 - iter_num r)"
| "steps_ahead (InBackward loss lr r) = 3 * nat (max_iters + 1 - iter_num r) - 1"
| "steps_ahead (Reduced loss lr r) = 3 * nat (max_iters + 1 - iter_num r) - 2"
| "steps_ahead (Finished outcome r) = 0"

lemma forward_on_course:
  assumes "operational E ok bs ga" "on_course E ok (AtLoop r)"
  shows "\<exists>loss lr r'. to_backward E bs r = (Return (loss, lr), r') \<and> on_course E ok (InBackward loss lr r') \<and>
     iter_num r' = iter_num r"
proof -
  have r: "fine ok (iter_num r) r" using assms(2) by (simp add: fine_def)
  have "wp (to_backward E bs) (\<lambda>_. fine ok (iter_num r)) (\<lambda>_. False) r"
    unfolding to_backward_def py_wp Let_def
    by (rule wp_mono [OF calls_fine(1) [OF assms(1) ops_fine(1) [OF assms(1) r]]],
        rule wp_mono [OF calls_fine(2) [OF assms(1)]], assumption) (simp_all add: py_wp)
  with assms(2) show ?thesis by (auto simp: wp_returns fine_def)
qed

lemma update_on_course:
  assumes "operational E ok bs ga" "on_course E ok (Reduced loss lr r)"
    and hook: "\<And>i s. fine ok i s \<Longrightarrow> wp on_save (\<lambda>_. fine ok i) (\<lambda>_. False) s"
  shows "\<exists>r'. after_backward E on_save m bs loss lr r = (Return (iter_num r + 1 \<le> max_iters), r') \<and>
     ok (world r') \<and> iter_num r' = iter_num r + 1"
proof -
  have "fine ok (iter_num r) (r\<lparr>world := clip_grads E (world r)\<rparr>)"
    using assms(1,2) by (simp add: fine_def operational_def)
  from update_half_fine [OF assms(1) this hook, of m loss lr] assms(2)
  have "wp (after_backward E on_save m bs loss lr)
      (\<lambda>go_on t. fine ok (iter_num r + 1) t \<and> (go_on \<longleftrightarrow> iter_num r + 1 \<le> max_iters)) (\<lambda>_. False) r"
    by (simp add: after_backward_def py_wp grad_clip_def)
  then show ?thesis by (auto simp: wp_returns fine_def)
qed

abbreviation total_ahead :: "('w, 'c) process list \<Rightarrow> nat" where
  "total_ahead ps \<equiv> sum_list (map steps_ahead ps)"

lemma total_ahead_update:
  assumes "i < length ps" "steps_ahead q < steps_ahead (ps ! i)"
  shows "total_ahead (ps[i := q]) < total_ahead ps"
  using assms elem_le_sum_list [of i "map steps_ahead ps"] by (simp add: map_update sum_list_update)

lemma one_moves:
  assumes "ddp_step E D on_save cfg ps (ps[i := q])" "i < length ps" "list_all (on_course E ok) ps" "on_course E ok q"
    and "steps_ahead q < steps_ahead (ps ! i)"
  shows "\<exists>qs. ddp_step E D on_save cfg ps qs \<and> list_all (on_course E ok) qs \<and> total_ahead qs < total_ahead ps"
  using assms total_ahead_update [OF assms(2,5)]
  by (intro exI [of _ "ps[i := q]"]) (auto simp: list_all_iff dest!: set_update_subset_insert [THEN subsetD])

lemma reduced_healthy:
  assumes "ddp_healthy E D ok cfg" "length cfg = length ps" "list_all is_waiting ps" "list_all (on_course E ok) ps" "ok w"
  shows "ok (put_gradient D (reduce D (map (contribution D) (zip cfg ps))) w) \<and>
     Some True \<notin> set (grad_nans E (clip_grads E (put_gradient D (reduce D (map (contribution D) (zip cfg ps))) w)))"
proof -
  let ?ws = "map (\<lambda>p. world (run_of p)) ps"
  have "ok (world (run_of p))" if "p \<in> set ps" for p
    using assms(3,4) that by (cases p) (force simp: list_all_iff)+
  then have "length ?ws = length cfg \<and> (\<forall>w \<in> set ?ws. ok w)" using assms(2) by simp
  moreover from assms(1) have "length ?ws = length cfg \<and> (\<forall>w \<in> set ?ws. ok w) \<longrightarrow>
      (let g = reduce D (map (\<lambda>((m, bs, ga), w). local_gradient D ga w) (zip cfg ?ws))
       in \<forall>w. ok w \<longrightarrow> ok (put_gradient D g w) \<and> Some True \<notin> set (grad_nans E (clip_grads E (put_gradient D g w))))"
    unfolding ddp_healthy_def by blast
  moreover have "map (\<lambda>((m, bs, ga), w). local_gradient D ga w) (zip cfg ?ws) = map (contribution D) (zip cfg ps)"
    by (auto simp: zip_map2 contribution_def)
  ultimately show ?thesis using assms(5) unfolding Let_def by simp
qed

lemma all_meet:
  assumes "ddp_healthy E D ok cfg" "list_all is_waiting ps" "ps \<noteq> []" "list_all (on_course E ok) ps"
    and "length cfg = length ps"
  shows "\<exists>qs. ddp_step E D on_save cfg ps qs \<and> list_all (on_course E ok) qs \<and> total_ahead qs < total_ahead ps"
proof -
  let ?g = "reduce D (map (contribution D) (zip cfg ps))"
  have one: "on_course E ok (receive D ?g p) \<and> steps_ahead (receive D ?g p) < steps_ahead p" if "p \<in> set ps" for p
  proof -
    from that assms(2) have "is_waiting p" by (simp add: list_all_iff)
    then obtain loss lr r where p: "p = InBackward loss lr r" by (cases p) auto
    with that assms(4) have "on_course E ok (InBackward loss lr r)" unfolding list_all_iff by blast
    with reduced_healthy [OF assms(1,5,2,4), of "world r"] show ?thesis unfolding p by auto
  qed
  have "sum_list (map (\<lambda>p. steps_ahead (receive D ?g p)) ps) < sum_list (map steps_ahead ps)"
    using one assms(3) by (intro sum_list_strict_mono) auto
  moreover have "ddp_step E D on_save cfg ps (map (receive D ?g) ps)" using assms(2) by (rule ddp_step.meet) simp
  ultimately show ?thesis
    using one by (intro exI [of _ "map (receive D ?g) ps"]) (simp add: list_all_iff comp_def)
qed

lemma ddp_progress:
  assumes healthy: "ddp_healthy E D ok cfg" and ok: "replicas_ok E view ps"
    and hook: "\<And>m bs ga i s. operational E ok bs ga \<Longrightarrow> fine ok i s \<Longrightarrow> wp on_save (\<lambda>_. fine ok i) (\<lambda>_. False) s"
    and ps: "length cfg = length ps" "list_all (on_course E ok) ps" "\<not> list_all has_ended ps"
  shows "\<exists>qs. ddp_step E D on_save cfg ps qs \<and> list_all (on_course E ok) qs \<and> total_ahead qs < total_ahead ps"
proof -
  have course: "on_course E ok (ps ! i)" if "i < length ps" for i using ps(2) that by (simp add: list_all_length)
  have op: "operational E ok bs ga" if "i < length ps" "cfg ! i = (m, bs, ga)" for i m bs ga
    using healthy that ps(1) nth_mem [of i cfg] by (fastforce simp: ddp_healthy_def)
  consider (head) i r where "i < length ps" "ps ! i = AtLoop r" | (update) i loss lr r where "i < length ps" "ps ! i = Reduced loss lr r"
    | (wait) "\<forall>i < length ps. is_waiting (ps ! i) \<or> has_ended (ps ! i)"
    by (metis has_ended.simps(1) is_waiting.simps(1) process.exhaust)
  then show ?thesis
  proof cases
    case head
    obtain m bs ga where c: "cfg ! i = (m, bs, ga)" by (metis prod_cases3)
    obtain loss lr r' where
      r': "to_backward E bs r = (Return (loss, lr), r')" "on_course E ok (InBackward loss lr r')" "iter_num r' = iter_num r"
      using forward_on_course [OF op [OF head(1) c] course [OF head(1), unfolded head(2)]] by blast
    have "steps_ahead (InBackward loss lr r') < steps_ahead (ps ! i)" using r'(3) course [OF head(1)] head(2) by simp
    from one_moves [OF ddp_step.forward [OF head c r'(1)] head(1) ps(2) r'(2) this] show ?thesis .
  next
    case update
    obtain m bs ga where c: "cfg ! i = (m, bs, ga)" by (metis prod_cases3)
    note here = course [OF update(1), unfolded update(2)]
    then have left: "1 \<le> nat (max_iters + 1 - iter_num r)" by (auto simp: Suc_le_eq)
    obtain r' where r': "after_backward E on_save m bs loss lr r = (Return (iter_num r + 1 \<le> max_iters), r')"
      "ok (world r')" "iter_num r' = iter_num r + 1"
      using update_on_course [OF op [OF update(1) c] here hook [OF op [OF update(1) c]]] by blast
    show ?thesis
    proof (cases "iter_num r + 1 \<le> max_iters")
      case True
      with r' have "on_course E ok (AtLoop r')" "steps_ahead (AtLoop r') < steps_ahead (ps ! i)"
        using update(2) left by simp_all
      from one_moves [OF ddp_step.again [OF update c] update(1) ps(2) this] r'(1) True show ?thesis by simp
    next
      case False
      with r' here have "on_course E ok (Finished (Return ()) r')" "steps_ahead (Finished (Return ()) r') < steps_ahead (ps ! i)"
        using update(2) left by simp_all
      from one_moves [OF ddp_step.leave [OF update c] update(1) ps(2) this] r'(1) False show ?thesis by simp
    qed
  next
    case wait
    obtain mid b v it where places: "\<forall>i < length ps. in_step E view mid b v it (ps ! i)"
      using ok unfolding replicas_ok_def by blast
    from ps(3) wait obtain i where i: "i < length ps" "is_waiting (ps ! i)" by (auto simp: list_all_length)
    with places have "b" by (cases "ps ! i") auto
    have "is_waiting (ps ! j)" if "j < length ps" for j
    proof (rule ccontr)
      assume "\<not> is_waiting (ps ! j)"
      with wait that obtain out r where q: "ps ! j = Finished out r" by (cases "ps ! j") auto
      with course [OF that] obtain x where "out = Return x" by (cases out) auto
      with places [rule_format, OF that] q \<open>b\<close> show False by simp
    qed
    then have "list_all is_waiting ps" "ps \<noteq> []" using i(1) by (auto simp: list_all_length)
    from all_meet [OF healthy this ps(2,1)] show ?thesis .
  qed
qed

lemma ddp_completes:
  assumes healthy: "ddp_healthy E D ok cfg" and doc: "ddp_documented E D view" and keep: "hook_keeps view on_save"
    and hook: "\<And>m bs ga i s. operational E ok bs ga \<Longrightarrow> fine ok i s \<Longrightarrow> wp on_save (\<lambda>_. fine ok i) (\<lambda>_. False) s"
  shows "replicas_ok E view ps \<Longrightarrow> length cfg = length ps \<Longrightarrow> list_all (on_course E ok) ps \<Longrightarrow>
     \<exists>qs. (ddp_step E D on_save cfg)\<^sup>*\<^sup>* ps qs \<and> list_all (on_course E ok) qs \<and> list_all has_ended qs"
proof (induction "total_ahead ps" arbitrary: ps rule: less_induct)
  case less
  show ?case
  proof (cases "list_all has_ended ps")
    case False
    have "\<exists>qs. ddp_step E D on_save cfg ps qs \<and> list_all (on_course E ok) qs \<and> total_ahead qs < total_ahead ps"
      by (rule ddp_progress [OF healthy less.prems(1) _ less.prems(2,3) False]) (erule (1) hook)
    then obtain qs where qs: "ddp_step E D on_save cfg ps qs" "list_all (on_course E ok) qs" "total_ahead qs < total_ahead ps"
      by blast
    have "length cfg = length qs" using ddp_step_length [OF qs(1)] less.prems(2) by simp
    from less.hyps [OF qs(3) replicas_ok_step [OF doc keep qs(1) less.prems(1)] this qs(2)] qs(1) show ?thesis
      by (blast intro: converse_rtranclp_into_rtranclp)
  qed (use less.prems in blast)
qed

text \<open>A step out of a state in which all are on course keeps them so, unless a process is interrupted.\<close>

definition some_failed :: "('w, 'c) process list \<Rightarrow> bool" where
  "some_failed ps \<longleftrightarrow> (\<exists>e r. Finished (Raise e) r \<in> set ps)"

lemma failed_update: "i < length ps \<Longrightarrow> some_failed (ps[i := Finished (Raise e) r])"
  by (auto simp: some_failed_def intro: set_update_memI)

lemma failed_stays:
  assumes "ddp_step E D on_save cfg ps qs" "some_failed ps"
  shows "some_failed qs"
proof -
  obtain k e r where k: "k < length ps" "ps ! k = Finished (Raise e) r"
    using assms(2) by (auto simp: some_failed_def in_set_conv_nth)
  have "qs ! k = Finished (Raise e) r"
    using assms(1)
  proof cases
    case (meet g)
    with k failed_not_waiting [OF k] show ?thesis by simp
  qed (use k in \<open>auto simp: nth_list_update\<close>)
  moreover have "k < length qs" using k ddp_step_length [OF assms(1)] by simp
  ultimately show ?thesis unfolding some_failed_def by (metis nth_mem)
qed

lemma on_course_step:
  assumes healthy: "ddp_healthy E D ok cfg" and step: "ddp_step E D on_save cfg ps qs"
    and hook: "\<And>m bs ga i s. operational E ok bs ga \<Longrightarrow> fine ok i s \<Longrightarrow> wp on_save (\<lambda>_. fine ok i) (\<lambda>_. False) s"
    and ps: "length cfg = length ps" "list_all (on_course E ok) ps"
  shows "list_all (on_course E ok) qs \<or> some_failed qs"
proof -
  have course: "on_course E ok (ps ! i)" if "i < length ps" for i using ps(2) that by (simp add: list_all_length)
  have op: "operational E ok bs ga" if "i < length ps" "cfg ! i = (m, bs, ga)" for i m bs ga
    using healthy that ps(1) nth_mem [of i cfg] by (fastforce simp: ddp_healthy_def)
  have move: "list_all (on_course E ok) (ps[i := q])" if "i < length ps" "on_course E ok q" for i q
    using course that by (auto simp: list_all_length nth_list_update)
  from step show ?thesis
  proof cases
    case (forward i r m bs ga loss lr r')
    with forward_on_course [OF op [OF forward(2,4)] course [OF forward(2), unfolded forward(3)]] move [OF forward(2)]
    show ?thesis by auto
  next
    case (meet g)
    note good = reduced_healthy [OF healthy ps(1) meet(2) ps(2), folded meet(3)]
    have "on_course E ok (receive D g p)" if "p \<in> set ps" for p
      using ps(2) good that by (cases p) (auto simp: list_all_iff)
    then show ?thesis unfolding meet(1) by (simp add: list_all_iff)
  next
    case (again i loss lr r m bs ga r')
    with update_on_course [OF op [OF again(2,4)] course [OF again(2), unfolded again(3)] hook [OF op [OF again(2,4)]], of m]
      move [OF again(2)]
    show ?thesis by auto
  next
    case (leave i loss lr r m bs ga r')
    with update_on_course [OF op [OF leave(2,4)] course [OF leave(2), unfolded leave(3)] hook [OF op [OF leave(2,4)]], of m]
      course [OF leave(2)] move [OF leave(2)]
    show ?thesis by auto
  qed (simp_all add: failed_update)
qed

lemma on_course_steps:
  assumes healthy: "ddp_healthy E D ok cfg" and steps: "(ddp_step E D on_save cfg)\<^sup>*\<^sup>* ps qs"
    and hook: "\<And>m bs ga i s. operational E ok bs ga \<Longrightarrow> fine ok i s \<Longrightarrow> wp on_save (\<lambda>_. fine ok i) (\<lambda>_. False) s"
    and ps: "length cfg = length ps" "list_all (on_course E ok) ps"
  shows "length cfg = length qs \<and> (list_all (on_course E ok) qs \<or> some_failed qs)"
  using steps
proof induction
  case (step qs us)
  then have len: "length cfg = length us" "length cfg = length qs" using ddp_step_length [OF step(2)] by auto
  show ?case
  proof (cases "some_failed qs")
    case True
    with failed_stays [OF step(2)] len show ?thesis by blast
  next
    case False
    with step.IH have "list_all (on_course E ok) qs" by blast
    then have "list_all (on_course E ok) us \<or> some_failed us"
      by (rule on_course_step [OF healthy step(2) _ len(2), rotated]) (erule (1) hook)
    with len show ?thesis by blast
  qed
qed (use ps in simp)

section \<open>Properties\<close>

text \<open>The actions after a save, of the two programs.\<close>

definition after_save :: "('w, 'b, 'c) torch_ops \<Rightarrow> http_post option \<Rightarrow> (('w, 'c) run, unit) py" where
  "after_save E post = (case post of Some p \<Rightarrow> report_training_time E p | None \<Rightarrow> py_return ())"

lemma after_save_keeps: "ddp_documented E D view \<Longrightarrow> hook_keeps view (after_save E post)"
  by (auto simp: after_save_def quiet_keeps report_keeps split: option.splits)

lemma after_save_fine:
  "operational E ok bs ga \<Longrightarrow> fine ok i s \<Longrightarrow> wp (after_save E post) (\<lambda>_. fine ok i) (\<lambda>_. False) s"
  by (auto simp: after_save_def report_fine py_wp split: option.splits)

text \<open>A concrete library: a parameter and its gradient are numbers, the third number is local.\<close>

definition ddp_sample_ops :: "((int \<times> int) \<times> int, int, int) torch_ops" where
  "ddp_sample_ops = \<lparr>init_group = py_return (), destroy_group = id, manual_seed = (\<lambda>n (v, l). (v, n)),
     build_model = (\<lambda>_ _. id), set_lr = (\<lambda>_. id), load_batch = (\<lambda>_ _ (v, l). (Return l, (v, l + 1))),
     forward = (\<lambda>b. py_return (Fin (of_int b))), backward = (\<lambda>_. id), clip_grads = id, grad_nans = (\<lambda>_. [None, Some False]),
     opt_step = (\<lambda>((p, g), l). ((p - g, g), l)), zero_grad = (\<lambda>((p, g), l). ((p, 0), l)), eval_mode = id,
     train_mode = id, state_dicts = (\<lambda>((p, g), l). p), open_file = py_return (), write_file = py_return (), clock = py_return (Fin 0)\<rparr>"

definition ddp_sample :: "((int \<times> int) \<times> int, int) ddp_lib" where
  "ddp_sample = \<lparr>local_gradient = (\<lambda>_ ((p, g), l). p + l), reduce = sum_list, put_gradient = (\<lambda>g' ((p, g), l). ((p, g'), l))\<rparr>"

definition sample_run_at :: "int \<Rightarrow> ((int \<times> int) \<times> int, int) run" where
  "sample_run_at l = \<lparr>world = ((5, 0), l), iter_num = 0, best_val_loss = PInf, start_time = Fin 0, ckpt_file = None, printed = []\<rparr>"

lemma ddp_sample_documented: "ddp_documented ddp_sample_ops ddp_sample fst"
  by (auto simp: ddp_documented_def acts_on_def keeps_def ddp_sample_ops_def ddp_sample_def py_simps split: prod.splits)

lemma ddp_sample_forward:
  "to_backward ddp_sample_ops bs (sample_run_at l) =
     (Return (Fin (of_int l), get_lr 0), (sample_run_at l)\<lparr>world := ((5, 0), l + 1)\<rparr>)"
  by (simp add: to_backward_def ddp_sample_ops_def sample_run_at_def Let_def py_seq_def py_simps in_world_def do_world_def)

text \<open>The first of two processes, or the second, computes its gradient.\<close>

lemma ddp_sample_step:
  "ddp_step ddp_sample_ops ddp_sample h [(True, 4, 1), (False, 4, 1)] [AtLoop (sample_run_at l), q]
     [InBackward (Fin (of_int l)) (get_lr 0) ((sample_run_at l)\<lparr>world := ((5, 0), l + 1)\<rparr>), q]"
  "ddp_step ddp_sample_ops ddp_sample h [(True, 4, 1), (False, 4, 1)] [q, AtLoop (sample_run_at l)]
     [q, InBackward (Fin (of_int l)) (get_lr 0) ((sample_run_at l)\<lparr>world := ((5, 0), l + 1)\<rparr>)]"
  using ddp_step.forward [of 0 "[AtLoop (sample_run_at l), q]" "sample_run_at l" "[(True, 4, 1), (False, 4, 1)]"
      True 4 1 ddp_sample_ops "Fin (of_int l)" "get_lr 0" "(sample_run_at l)\<lparr>world := ((5, 0), l + 1)\<rparr>" ddp_sample h]
    ddp_step.forward [of 1 "[q, AtLoop (sample_run_at l)]" "sample_run_at l" "[(True, 4, 1), (False, 4, 1)]"
      False 4 1 ddp_sample_ops "Fin (of_int l)" "get_lr 0" "(sample_run_at l)\<lparr>world := ((5, 0), l + 1)\<rparr>" ddp_sample h]
  by (simp_all add: ddp_sample_forward)

lemma ddp_sample_healthy: "ddp_healthy ddp_sample_ops ddp_sample (\<lambda>_. True) cfg"
  by (auto simp: ddp_healthy_def operational_def ddp_sample_ops_def py_wp wp_def py_simps split: prod.splits)

text \<open>C2: In every interleaving the processes train one model: two processes at the same place of an
  iteration have the same parameters, gradients, optimizer state and iteration number, whatever data each
  reads and whatever the master does besides, and no process has left the loop while another one is before
  or in \<open>backward\<close> and would wait for it.\<close>

theorem replicas_agree:
  assumes "ddp_documented E D view" "\<forall>r \<in> set rs. \<forall>r' \<in> set rs. same_run view r r'"
    and "(ddp_step E D (after_save E post) cfg)\<^sup>*\<^sup>* (map AtLoop rs) ps" "p \<in> set ps" "q \<in> set ps"
  shows "(\<forall>r r'. p = AtLoop r \<and> q = AtLoop r' \<longrightarrow> same_run view r r') \<and>
     (is_waiting p \<and> is_waiting q \<longrightarrow> same_run view (run_of p) (run_of q)) \<and>
     (\<forall>l lr r l' lr' r'. p = Reduced l lr r \<and> q = Reduced l' lr' r' \<longrightarrow> same_run view r r') \<and>
     (\<forall>r r'. p = Finished (Return ()) r \<and> q = Finished (Return ()) r' \<longrightarrow> same_run view r r') \<and>
     (\<forall>r r'. p = Finished (Return ()) r \<longrightarrow> q \<noteq> AtLoop r' \<and> \<not> is_waiting q)"
proof -
  have "replicas_ok E view (map AtLoop rs)" by (rule replicas_ok_start) (use assms(2) in blast)
  from replicas_ok_steps [OF assms(1) after_save_keeps [OF assms(1)] assms(3) this] obtain mid b v it where
    "\<forall>i < length ps. in_step E view mid b v it (ps ! i)" unfolding replicas_ok_def by blast
  then have places: "in_step E view mid b v it p" "in_step E view mid b v it q"
    using assms(4,5) by (metis in_set_conv_nth)+
  have "same_run view (run_of p) (run_of q)" if "is_waiting p" "is_waiting q"
    using that places waiting_same [OF assms(1)] by (cases p; cases q) (auto simp del: in_step.simps)
  with places show ?thesis by (cases p; cases q) (auto simp: same_run_def)
qed


theorem replicas_agree_witness:
  "\<exists>p q. (ddp_step ddp_sample_ops ddp_sample (after_save ddp_sample_ops None) [(True, 4, 1), (False, 4, 1)])\<^sup>*\<^sup>*
       (map AtLoop [sample_run_at 1, sample_run_at 2]) [p, q] \<and> is_waiting p \<and> is_waiting q \<and>
     world (run_of p) \<noteq> world (run_of q) \<and> same_run fst (run_of p) (run_of q)"
proof -
  let ?step = "ddp_step ddp_sample_ops ddp_sample (after_save ddp_sample_ops None) [(True, 4, 1), (False, 4, 1)]"
  let ?p = "\<lambda>l. InBackward (Fin (of_int l)) (get_lr 0) ((sample_run_at l)\<lparr>world := ((5, 0), l + 1)\<rparr>)"
  have start: "\<forall>r \<in> set [sample_run_at 1, sample_run_at 2]. \<forall>r' \<in> set [sample_run_at 1, sample_run_at 2]. same_run fst r r'"
    by (simp add: same_run_def sample_run_at_def)
  have steps: "?step\<^sup>*\<^sup>* (map AtLoop [sample_run_at 1, sample_run_at 2]) [?p 1, ?p 2]"
    unfolding list.map
    by (rule converse_rtranclp_into_rtranclp, rule ddp_sample_step(1), rule r_into_rtranclp, rule ddp_sample_step(2))
  have "?p 1 \<in> set [?p 1, ?p 2]" "?p 2 \<in> set [?p 1, ?p 2]" by simp_all
  from replicas_agree [OF ddp_sample_documented start steps this]
  have "same_run fst (run_of (?p 1)) (run_of (?p 2))" by simp
  with steps show ?thesis by (intro exI [of _ "?p 1"] exI [of _ "?p 2"]) simp
qed

text \<open>C10: One process that fails stops the training: once a process has ended with an exception, every process
  before or in \<open>backward\<close> stays in its iteration for ever, without a return from \<open>train\<close>, and every other
  one gets at most to the end of the iteration it is in.\<close>

theorem one_failure_stops_all:
  assumes "ddp_documented E D view" "(ddp_step E D (after_save E post) cfg)\<^sup>*\<^sup>* ps qs"
    and "i < length ps" "ps ! i = Finished (Raise e) r" "j < length ps"
  shows "(\<forall>r'. ps ! j = AtLoop r' \<or> (\<exists>loss lr. ps ! j = InBackward loss lr r') \<longrightarrow>
        iter_num (run_of (qs ! j)) = iter_num r' \<and> (\<forall>x t. qs ! j \<noteq> Finished (Return x) t)) \<and>
     (\<forall>loss lr r'. ps ! j = Reduced loss lr r' \<longrightarrow> iter_num (run_of (qs ! j)) \<in> {iter_num r', iter_num r' + 1})"
proof -
  have "held (ps ! j) (qs ! j)"
    using held_steps [OF assms(1) after_save_keeps [OF assms(1)] assms(2-4)] assms(5) by blast
  then show ?thesis by auto
qed

theorem one_failure_stops_all_witness:
  "\<exists>q. (ddp_step ddp_sample_ops ddp_sample (after_save ddp_sample_ops None) [(True, 4, 1), (False, 4, 1)])\<^sup>*\<^sup>*
       [Finished (Raise OSError) (sample_run_at 1), AtLoop (sample_run_at 2)] [Finished (Raise OSError) (sample_run_at 1), q] \<and>
     is_waiting q \<and> iter_num (run_of q) = 0"
proof -
  let ?ps = "[Finished (Raise OSError) (sample_run_at 1), AtLoop (sample_run_at 2)]"
  let ?q = "InBackward (Fin (of_int 2)) (get_lr 0) ((sample_run_at 2)\<lparr>world := ((5, 0), 2 + 1)\<rparr>)"
  have steps: "(ddp_step ddp_sample_ops ddp_sample (after_save ddp_sample_ops None) [(True, 4, 1), (False, 4, 1)])\<^sup>*\<^sup>* ?ps
      [Finished (Raise OSError) (sample_run_at 1), ?q]"
    using ddp_sample_step(2) by blast
  have "0 < length ?ps" "?ps ! 0 = Finished (Raise OSError) (sample_run_at 1)" "1 < length ?ps" by simp_all
  from one_failure_stops_all [OF ddp_sample_documented steps this]
  have "iter_num (run_of ?q) = iter_num (sample_run_at 2)" by simp
  with steps show ?thesis by (intro exI [of _ ?q]) (simp add: sample_run_at_def)
qed

text \<open>C5: Training in several processes completes when nothing fails: if the data can be read, no operation of
  PyTorch raises, and the gradients that the processes reduce from the worlds they can get into are made of
  numbers, then from every state reached without an exception or a signal they can all go on to return from
  the loop after iteration \<open>max_iters\<close>, with the same parameters; there is no deadlock.\<close>

theorem distributed_training_completes:
  assumes "ddp_documented E D view" "ddp_healthy E D ok cfg" "length cfg = length rs"
    and "\<forall>r \<in> set rs. ok (world r) \<and> iter_num r = 0" "\<forall>r \<in> set rs. \<forall>r' \<in> set rs. same_run view r r'"
    and "(ddp_step E D (after_save E post) cfg)\<^sup>*\<^sup>* (map AtLoop rs) ps" "\<forall>e r. Finished (Raise e) r \<notin> set ps"
  shows "\<exists>ts. (ddp_step E D (after_save E post) cfg)\<^sup>*\<^sup>* ps (map (Finished (Return ())) ts) \<and> length ts = length rs \<and>
     (\<forall>t \<in> set ts. iter_num t = max_iters + 1) \<and> (\<forall>t \<in> set ts. \<forall>t' \<in> set ts. same_run view t t')"
proof -
  let ?h = "after_save E post"
  note keep = after_save_keeps [OF assms(1), of post]
  have start: "replicas_ok E view (map AtLoop rs)" by (rule replicas_ok_start) (use assms(5) in blast)
  have course: "list_all (on_course E ok) (map AtLoop rs)" using assms(4) by (simp add: list_all_iff max_iters_def)
  have "length cfg = length ps \<and> (list_all (on_course E ok) ps \<or> some_failed ps)"
    by (rule on_course_steps [OF assms(2,6) _ _ course]) (use after_save_fine assms(3) in auto)
  with assms(7) have ps: "length cfg = length ps" "list_all (on_course E ok) ps" by (auto simp: some_failed_def)
  have "\<exists>qs. (ddp_step E D ?h cfg)\<^sup>*\<^sup>* ps qs \<and> list_all (on_course E ok) qs \<and> list_all has_ended qs"
    by (rule ddp_completes [OF assms(2,1) keep _ replicas_ok_steps [OF assms(1) keep assms(6) start] ps]) (rule after_save_fine)
  then obtain qs where qs: "(ddp_step E D ?h cfg)\<^sup>*\<^sup>* ps qs" "list_all (on_course E ok) qs" "list_all has_ended qs" by blast
  have len: "length qs = length ps" using qs(1) by induction (simp_all add: ddp_step_length)
  obtain mid b v it where places: "\<forall>i < length qs. in_step E view mid b v it (qs ! i)"
    using replicas_ok_steps [OF assms(1) keep rtranclp_trans [OF assms(6) qs(1)] start] unfolding replicas_ok_def by blast
  have ends: "q = Finished (Return ()) (run_of q) \<and> iter_num (run_of q) = max_iters + 1" if "q \<in> set qs" for q
  proof -
    have "on_course E ok q" "has_ended q" using qs(2,3) that by (simp_all add: list_all_iff)
    then obtain out r where q: "q = Finished out r" by (cases q) auto
    with \<open>on_course E ok q\<close> show ?thesis by (cases out) auto
  qed
  then have "map (Finished (Return ())) (map run_of qs) = qs" "\<forall>t \<in> set (map run_of qs). iter_num t = max_iters + 1"
    by (auto simp: map_idI)
  moreover have "view (world (run_of q)) = v" if "q \<in> set qs" for q
  proof -
    have "in_step E view mid b v it q" using places that by (metis in_set_conv_nth)
    then show ?thesis by (subst (asm) ends [OF that, THEN conjunct1]) simp
  qed
  then have "\<forall>t \<in> set (map run_of qs). \<forall>t' \<in> set (map run_of qs). same_run view t t'"
    using ends by (simp add: same_run_def)
  ultimately show ?thesis
    using qs(1) len ps(1) assms(3) by (intro exI [of _ "map run_of qs"]) simp
qed

theorem distributed_training_completes_witness:
  "\<exists>t u. (ddp_step ddp_sample_ops ddp_sample (after_save ddp_sample_ops None) [(True, 4, 1), (False, 4, 1)])\<^sup>*\<^sup>*
       (map AtLoop [sample_run_at 1, sample_run_at 2]) [Finished (Return ()) t, Finished (Return ()) u] \<and>
     iter_num t = 1001 \<and> iter_num u = 1001"
proof -
  let ?rs = "[sample_run_at 1, sample_run_at 2]" and ?cfg = "[(True, 4, 1), (False, 4, 1)] :: ddp_config"
  have start: "\<forall>r \<in> set ?rs. \<forall>r' \<in> set ?rs. same_run fst r r'" "\<forall>r \<in> set ?rs. (\<lambda>_. True) (world r) \<and> iter_num r = 0"
    "length ?cfg = length ?rs" "\<forall>e r. Finished (Raise e) r \<notin> set (map AtLoop ?rs)"
    by (simp_all add: same_run_def sample_run_at_def)
  obtain ts where "(ddp_step ddp_sample_ops ddp_sample (after_save ddp_sample_ops None) ?cfg)\<^sup>*\<^sup>* (map AtLoop ?rs)
      (map (Finished (Return ())) ts)" "length ts = length ?rs" "\<forall>t \<in> set ts. iter_num t = max_iters + 1"
    using distributed_training_completes [OF ddp_sample_documented ddp_sample_healthy start(3,2,1) rtranclp.rtrancl_refl start(4)]
    by blast
  moreover from this(2) obtain t u where "ts = [t, u]" by (auto simp: length_Suc_conv)
  ultimately show ?thesis by (auto simp: max_iters_def)
qed

end
