(* ===== verification/Gpt_Params.thy ===== *)
theory Gpt_Params
  imports C4D_Prelude "HOL-Library.Multiset" "HOL-Library.Sublist"
begin

text \<open>
  The parameters of the language model of \<open>compute-engine/user_code/model.py\<close>
  (\<open>workspace/compute/model.py\<close> is the same file): which tensors the constructors create, their
  names and shapes, how they are counted, cropped, grouped for the optimizer and loaded from a
  pretrained model.  The tensors a PyTorch layer creates are parameters, \<open>nn_documented\<close> says which.
\<close>

section \<open>Configuration\<close>

record GPTConfig =
  block_size :: nat
  vocab_size :: nat
  n_layer :: nat
  n_head :: nat
  n_embd :: nat
  bias :: bool

type_synonym shape = "nat list"

type_synonym params = "(string \<times> shape) list"

text \<open>The parameters of \<open>nn.Linear(i, o, bias)\<close> and of \<open>nn.Embedding(n, d)\<close>, by name and shape.\<close>

record nn_lib =
  Linear :: "nat \<Rightarrow> nat \<Rightarrow> bool \<Rightarrow> params"
  Embedding :: "nat \<Rightarrow> nat \<Rightarrow> params"

definition nn_documented :: "nn_lib \<Rightarrow> bool" where
  "nn_documented N \<longleftrightarrow>
     (\<forall>i out b. Linear N i out b = (''weight'', [out, i]) # (if b then [(''bias'', [out])] else [])) \<and>
     (\<forall>n d. Embedding N n d = [(''weight'', [n, d])])"

definition submodule :: "string \<Rightarrow> params \<Rightarrow> params" where
  "submodule name ps = map (\<lambda>(n, sh). (name @ ''.'' @ n, sh)) ps"

section \<open>Constructors\<close>

definition LayerNorm :: "nat \<Rightarrow> bool \<Rightarrow> params" where
  "LayerNorm ndim b = (''weight'', [ndim]) # (if b then [(''bias'', [ndim])] else [])"

definition CausalSelfAttention :: "nn_lib \<Rightarrow> GPTConfig \<Rightarrow> params result" where
  "CausalSelfAttention N c =
     (if n_head c = 0 then Inl ZeroDivisionError
      else if n_embd c mod n_head c \<noteq> 0 then Inl AssertionError
      else Inr (submodule ''c_attn'' (Linear N (n_embd c) (3 * n_embd c) (bias c)) @
                submodule ''c_proj'' (Linear N (n_embd c) (n_embd c) (bias c))))"

definition MLP :: "nn_lib \<Rightarrow> GPTConfig \<Rightarrow> params" where
  "MLP N c = submodule ''c_fc'' (Linear N (n_embd c) (4 * n_embd c) (bias c)) @
             submodule ''c_proj'' (Linear N (4 * n_embd c) (n_embd c) (bias c))"

definition Block :: "nn_lib \<Rightarrow> GPTConfig \<Rightarrow> params result" where
  "Block N c = res_bind (CausalSelfAttention N c) (\<lambda>attn.
     Inr (submodule ''ln_1'' (LayerNorm (n_embd c) (bias c)) @ submodule ''attn'' attn @
          submodule ''ln_2'' (LayerNorm (n_embd c) (bias c)) @ submodule ''mlp'' (MLP N c)))"

text \<open>
  \<open>named_parameters\<close> of the model.  The head shares its weight with the token embedding: a shared
  tensor is listed once, under its first name.
\<close>

definition GPT :: "nn_lib \<Rightarrow> GPTConfig \<Rightarrow> params result" where
  "GPT N c =
     res_bind (res_mapM (\<lambda>i. res_bind (Block N c) (\<lambda>b. Inr (submodule (''h.'' @ str_of_nat i) b))) [0..<n_layer c])
       (\<lambda>blocks.
     Inr (submodule ''transformer''
       (submodule ''wte'' (Embedding N (vocab_size c) (n_embd c)) @
        submodule ''wpe'' (Embedding N (block_size c) (n_embd c)) @
        concat blocks @
        submodule ''ln_f'' (LayerNorm (n_embd c) (bias c)))))"

definition numel :: "shape \<Rightarrow> nat" where
  "numel sh = prod_list sh"

definition count_params :: "params \<Rightarrow> nat" where
  "count_params ps = sum_list (map (\<lambda>(n, sh). numel sh) ps)"

definition wpe_numel :: "params \<Rightarrow> nat" where
  "wpe_numel ps = (case map_of ps ''transformer.wpe.weight'' of None \<Rightarrow> 0 | Some sh \<Rightarrow> numel sh)"

definition get_num_params :: "params \<Rightarrow> bool \<Rightarrow> int" where
  "get_num_params ps non_embedding =
     int (count_params ps) - (if non_embedding then int (wpe_numel ps) else 0)"

section \<open>Operations\<close>

text \<open>The position embedding is replaced by its first rows.\<close>

definition crop_block_size :: "nat \<Rightarrow> GPTConfig \<times> params \<Rightarrow> (GPTConfig \<times> params) result" where
  "crop_block_size new m = (case m of (c, ps) \<Rightarrow>
     if \<not> new \<le> block_size c then Inl AssertionError
     else Inr (c\<lparr>block_size := new\<rparr>,
               map (\<lambda>(n, sh). (n, if n = ''transformer.wpe.weight'' then min new (hd sh) # tl sh else sh)) ps))"

record 'a optim_group =
  group_params :: "params"
  group_decay :: 'a

definition configure_optimizers :: "params \<Rightarrow> (string \<Rightarrow> bool) \<Rightarrow> rat \<Rightarrow> rat optim_group list" where
  "configure_optimizers ps requires_grad weight_decay =
     (let param_dict = filter (\<lambda>(n, sh). requires_grad n) ps;
          decay_params = filter (\<lambda>(n, sh). length sh \<ge> 2) param_dict;
          nodecay_params = filter (\<lambda>(n, sh). length sh < 2) param_dict
      in [\<lparr>group_params = decay_params, group_decay = weight_decay\<rparr>,
          \<lparr>group_params = nodecay_params, group_decay = 0\<rparr>])"

text \<open>The arguments \<open>AdamW\<close> is created with; \<open>fused\<close> is passed only when it is wanted.\<close>

record adamw =
  adam_groups :: "rat optim_group list"
  adam_lr :: rat
  adam_betas :: "rat \<times> rat"
  adam_fused :: "bool option"

definition create_optimizer ::
  "bool \<Rightarrow> params \<Rightarrow> (string \<Rightarrow> bool) \<Rightarrow> rat \<Rightarrow> rat \<Rightarrow> rat \<times> rat \<Rightarrow> string \<Rightarrow> adamw" where
  "create_optimizer fused_available ps requires_grad weight_decay learning_rate betas device_type =
     (let optim_groups = configure_optimizers ps requires_grad weight_decay;
          use_fused = fused_available \<and> device_type = ''cuda''
      in \<lparr>adam_groups = optim_groups, adam_lr = learning_rate, adam_betas = betas,
          adam_fused = if use_fused then Some True else None\<rparr>)"

text \<open>\<open>estimate_mfu\<close>, with the seconds per iteration as a rational.\<close>

definition estimate_mfu :: "GPTConfig \<Rightarrow> params \<Rightarrow> rat \<Rightarrow> rat \<Rightarrow> rat result" where
  "estimate_mfu c ps fwdbwd_per_iter dt =
     (if n_head c = 0 \<or> dt = 0 then Inl ZeroDivisionError
      else let num = get_num_params ps True;
               q = n_embd c div n_head c;
               flops_per_token = 6 * num + 12 * int (n_layer c) * int (n_head c) * int q * int (block_size c);
               flops_per_fwdbwd = flops_per_token * int (block_size c);
               flops_per_iter = of_int flops_per_fwdbwd * fwdbwd_per_iter;
               flops_achieved = flops_per_iter * (1 / dt)
           in Inr (flops_achieved / (312 * 10 ^ 12)))"

section \<open>Counting\<close>

lemma count_append [simp]: "count_params (ps @ qs) = count_params ps + count_params qs"
  by (simp add: count_params_def)

lemma count_Cons [simp]: "count_params ((n, sh) # ps) = numel sh + count_params ps"
  by (simp add: count_params_def)

lemma numel_simps [simp]: "numel [] = 1" "numel (a # sh) = a * numel sh"
  by (simp_all add: numel_def)

lemma count_submodule [simp]: "count_params (submodule n ps) = count_params ps"
  by (induction ps) (auto simp: count_params_def submodule_def)

lemma count_concat: "count_params (concat pss) = sum_list (map count_params pss)"
  by (induction pss) (simp_all add: count_params_def)

lemma count_layernorm [simp]: "count_params (LayerNorm d b) = (if b then 2 * d else d)"
  by (simp add: count_params_def LayerNorm_def numel_def)

lemma count_linear: "nn_documented N \<Longrightarrow> count_params (Linear N i out b) = out * i + (if b then out else 0)"
  by (simp add: count_params_def nn_documented_def numel_def)

definition block_weights :: "GPTConfig \<Rightarrow> nat" where
  "block_weights c = 12 * n_embd c * n_embd c + 2 * n_embd c + (if bias c then 11 * n_embd c else 0)"

lemma Block_ok_iff: "(\<exists>ps. Block N c = Inr ps) \<longleftrightarrow> n_head c \<noteq> 0 \<and> n_head c dvd n_embd c"
  by (auto simp: Block_def CausalSelfAttention_def dvd_eq_mod_eq_0)

lemma count_Block: "nn_documented N \<Longrightarrow> Block N c = Inr ps \<Longrightarrow> count_params ps = block_weights c"
  by (auto simp: Block_def CausalSelfAttention_def MLP_def block_weights_def count_linear split: if_splits)

text \<open>The model's parameters, written out.\<close>

definition gpt_blocks :: "nn_lib \<Rightarrow> GPTConfig \<Rightarrow> params \<Rightarrow> params" where
  "gpt_blocks N c b = concat (map (\<lambda>i. submodule (''h.'' @ str_of_nat i) b) [0..<n_layer c])"

lemma GPT_eq:
  assumes "nn_documented N"
  shows "GPT N c = Inr ps \<longleftrightarrow> (\<exists>b. (0 < n_layer c \<longrightarrow> Block N c = Inr b) \<and>
     ps = (''transformer.wte.weight'', [vocab_size c, n_embd c]) #
          (''transformer.wpe.weight'', [block_size c, n_embd c]) #
          submodule ''transformer'' (gpt_blocks N c b @ submodule ''ln_f'' (LayerNorm (n_embd c) (bias c))))"
proof -
  have emb: "Embedding N n d = [(''weight'', [n, d])]" for n d
    using assms by (simp add: nn_documented_def)
  have "res_mapM (\<lambda>i. res_bind (Block N c) (\<lambda>b. Inr (submodule (''h.'' @ str_of_nat i) b))) [0..<n_layer c] = Inr bs
      \<longleftrightarrow> (\<exists>b. (0 < n_layer c \<longrightarrow> Block N c = Inr b) \<and>
            bs = map (\<lambda>i. submodule (''h.'' @ str_of_nat i) b) [0..<n_layer c])" for bs
  proof (cases "Block N c")
    case (Inl e)
    then show ?thesis
      by (cases "n_layer c") (auto simp: upt_rec [of 0] simp del: upt_Suc)
  next
    case (Inr b)
    then have "res_mapM (\<lambda>i. res_bind (Block N c) (\<lambda>b. Inr (submodule (''h.'' @ str_of_nat i) b))) [0..<n_layer c]
        = Inr (map (\<lambda>i. submodule (''h.'' @ str_of_nat i) b) [0..<n_layer c])"
      by (intro res_mapM_total) simp
    with Inr show ?thesis by (cases "n_layer c = 0") auto
  qed
  then show ?thesis
    unfolding GPT_def res_bind_eq_Inr
    by (auto simp: emb gpt_blocks_def submodule_def)
qed

lemma count_gpt_blocks: "count_params (gpt_blocks N c b) = n_layer c * count_params b"
  by (simp add: gpt_blocks_def count_concat comp_def sum_list_triv)

section \<open>Properties\<close>

text \<open>C28: A model can be built exactly when it has no block or its width is a positive multiple of the number
  of heads; it then has twelve squares of the width per block, the embeddings, and the norms and biases,
  and the count reported leaves out the position embedding only.\<close>

theorem gpt_parameter_count:
  assumes "nn_documented N"
  shows "((\<exists>ps. GPT N c = Inr ps) \<longleftrightarrow> n_layer c = 0 \<or> n_head c \<noteq> 0 \<and> n_head c dvd n_embd c) \<and>
     (\<forall>ps. GPT N c = Inr ps \<longrightarrow>
        get_num_params ps False = int (vocab_size c * n_embd c + block_size c * n_embd c +
          n_layer c * (12 * n_embd c * n_embd c + (if bias c then 13 else 2) * n_embd c) +
          (if bias c then 2 else 1) * n_embd c) \<and>
        get_num_params ps True = get_num_params ps False - int (block_size c * n_embd c))"
proof (intro conjI allI impI)
  show "(\<exists>ps. GPT N c = Inr ps) \<longleftrightarrow> n_layer c = 0 \<or> n_head c \<noteq> 0 \<and> n_head c dvd n_embd c"
    using Block_ok_iff [of N c] by (auto simp: GPT_eq [OF assms])
  fix ps assume "GPT N c = Inr ps"
  then obtain b where b: "0 < n_layer c \<longrightarrow> Block N c = Inr b"
    and ps: "ps = (''transformer.wte.weight'', [vocab_size c, n_embd c]) #
          (''transformer.wpe.weight'', [block_size c, n_embd c]) #
          submodule ''transformer'' (gpt_blocks N c b @ submodule ''ln_f'' (LayerNorm (n_embd c) (bias c)))"
    by (auto simp: GPT_eq [OF assms])
  have "n_layer c * count_params b = n_layer c * block_weights c"
    using b count_Block [OF assms] by (cases "n_layer c = 0") auto
  then have "count_params ps = vocab_size c * n_embd c + block_size c * n_embd c +
      n_layer c * block_weights c + (if bias c then 2 * n_embd c else n_embd c)"
    unfolding ps
    by (simp add: count_gpt_blocks)
  then show "get_num_params ps False = int (vocab_size c * n_embd c + block_size c * n_embd c +
          n_layer c * (12 * n_embd c * n_embd c + (if bias c then 13 else 2) * n_embd c) +
          (if bias c then 2 else 1) * n_embd c)"
    by (simp add: get_num_params_def block_weights_def algebra_simps)
  show "get_num_params ps True = get_num_params ps False - int (block_size c * n_embd c)"
    by (simp add: get_num_params_def wpe_numel_def ps numel_def)
qed

definition gpt2_config :: GPTConfig where
  "gpt2_config = \<lparr>block_size = 1024, vocab_size = 50257, n_layer = 12, n_head = 12, n_embd = 768, bias = True\<rparr>"

definition sample_nn :: nn_lib where
  "sample_nn = \<lparr>Linear = (\<lambda>i out b. (''weight'', [out, i]) # (if b then [(''bias'', [out])] else [])),
     Embedding = (\<lambda>n d. [(''weight'', [n, d])])\<rparr>"

lemma sample_nn_documented: "nn_documented sample_nn"
  by (simp add: nn_documented_def sample_nn_def)

theorem gpt_parameter_count_witness:
  "\<exists>ps. GPT sample_nn gpt2_config = Inr ps \<and> get_num_params ps True = 123653376 \<and>
     get_num_params ps False = 124439808"
proof -
  note count = gpt_parameter_count [OF sample_nn_documented, of gpt2_config]
  have "n_head gpt2_config \<noteq> 0 \<and> n_head gpt2_config dvd n_embd gpt2_config"
    by (simp add: gpt2_config_def)
  with count obtain ps where ps: "GPT sample_nn gpt2_config = Inr ps" by blast
  with count show ?thesis by (auto simp: gpt2_config_def)
qed

section \<open>Cropping\<close>

lemma submodule_not_wpe:
  "(n, sh) \<in> set (submodule ''transformer'' (gpt_blocks N c b @ submodule ''ln_f'' ps)) \<Longrightarrow>
   n \<noteq> ''transformer.wpe.weight''"
  by (auto simp: submodule_def gpt_blocks_def)

text \<open>Cropping to a size no larger than the present one gives exactly the parameters of a model built with
  the smaller size, so the reported count stays; a larger size is refused.\<close>

theorem crop_is_smaller_model:
  assumes "nn_documented N" "GPT N c = Inr ps"
  shows "crop_block_size new (c, ps) =
     (if new \<le> block_size c then Inr (c\<lparr>block_size := new\<rparr>, projr (GPT N (c\<lparr>block_size := new\<rparr>)))
      else Inl AssertionError) \<and>
     (\<exists>ps'. GPT N (c\<lparr>block_size := new\<rparr>) = Inr ps' \<and> get_num_params ps' True = get_num_params ps True)"
proof -
  let ?c = "c\<lparr>block_size := new\<rparr>"
  obtain b where b: "0 < n_layer c \<longrightarrow> Block N c = Inr b"
    and ps: "ps = (''transformer.wte.weight'', [vocab_size c, n_embd c]) #
          (''transformer.wpe.weight'', [block_size c, n_embd c]) #
          submodule ''transformer'' (gpt_blocks N c b @ submodule ''ln_f'' (LayerNorm (n_embd c) (bias c)))"
    using assms(2) by (auto simp: GPT_eq [OF assms(1)])
  let ?ps = "(''transformer.wte.weight'', [vocab_size c, n_embd c]) #
          (''transformer.wpe.weight'', [new, n_embd c]) #
          submodule ''transformer'' (gpt_blocks N c b @ submodule ''ln_f'' (LayerNorm (n_embd c) (bias c)))"
  have same: "Block N ?c = Block N c" "gpt_blocks N ?c b = gpt_blocks N c b"
    by (simp_all add: Block_def CausalSelfAttention_def MLP_def gpt_blocks_def)
  have built: "GPT N ?c = Inr ?ps"
    unfolding GPT_eq [OF assms(1)] using b by (intro exI [of _ b]) (simp add: same)
  have rest: "map (\<lambda>(n, sh). (n, if n = ''transformer.wpe.weight'' then min new (hd sh) # tl sh else sh)) l = l"
    if "\<forall>(n, sh) \<in> set l. n \<noteq> ''transformer.wpe.weight''" for l :: params
    using that by (induction l) auto
  have "crop_block_size new (c, ps) = (if new \<le> block_size c then Inr (?c, ?ps) else Inl AssertionError)"
    using rest [of "submodule ''transformer'' (gpt_blocks N c b @ submodule ''ln_f'' (LayerNorm (n_embd c) (bias c)))"]
      submodule_not_wpe [of _ _ N c b]
    by (auto simp: crop_block_size_def ps)
  moreover have "get_num_params ?ps True = get_num_params ps True"
    by (simp add: get_num_params_def wpe_numel_def ps)
  ultimately show ?thesis using built by auto
qed

theorem crop_is_smaller_model_witness:
  "\<exists>ps c' ps'. GPT sample_nn gpt2_config = Inr ps \<and> crop_block_size 64 (gpt2_config, ps) = Inr (c', ps') \<and>
     block_size c' = 64 \<and> GPT sample_nn c' = Inr ps'"
proof -
  have "Block sample_nn gpt2_config \<noteq> Inl e" for e
    using Block_ok_iff [of sample_nn gpt2_config] by (auto simp: gpt2_config_def)
  then obtain b where "Block sample_nn gpt2_config = Inr b" by (cases "Block sample_nn gpt2_config") auto
  then obtain ps where ps: "GPT sample_nn gpt2_config = Inr ps"
    by (auto simp: GPT_eq [OF sample_nn_documented])
  from crop_is_smaller_model [OF sample_nn_documented ps, of 64] ps show ?thesis
    by (auto simp: gpt2_config_def)
qed

section \<open>Optimizer groups\<close>

definition matrix_count :: "params \<Rightarrow> nat" where
  "matrix_count ps = length (filter (\<lambda>(n, sh). length sh \<ge> 2) ps)"

lemma matrix_count_append [simp]: "matrix_count (ps @ qs) = matrix_count ps + matrix_count qs"
  by (simp add: matrix_count_def)

lemma matrix_count_submodule [simp]: "matrix_count (submodule n ps) = matrix_count ps"
  by (induction ps) (auto simp: matrix_count_def submodule_def)

lemma matrix_count_Cons [simp]:
  "matrix_count ((n, sh) # ps) = (if length sh \<ge> 2 then 1 else 0) + matrix_count ps"
  by (simp add: matrix_count_def)

lemma length_submodule [simp]: "length (submodule n ps) = length ps"
  by (simp add: submodule_def)

lemma matrix_count_blocks: "matrix_count (gpt_blocks N c b) = n_layer c * matrix_count b"
proof -
  have "matrix_count (concat (map (\<lambda>i. submodule (f i) b) is)) = length is * matrix_count b" for f and "is" :: "nat list"
    by (induction "is") (simp_all add: matrix_count_def [of "[]"])
  then show ?thesis by (simp add: gpt_blocks_def)
qed

lemma length_blocks: "length (gpt_blocks N c b) = n_layer c * length b"
  by (simp add: gpt_blocks_def length_concat comp_def sum_list_triv)

lemma Linear_sizes:
  assumes "nn_documented N"
  shows "matrix_count (Linear N i out b) = 1" "length (Linear N i out b) = (if b then 2 else 1)"
proof -
  have "Linear N i out b = (''weight'', [out, i]) # (if b then [(''bias'', [out])] else [])"
    using assms by (simp add: nn_documented_def)
  then show "matrix_count (Linear N i out b) = 1" "length (Linear N i out b) = (if b then 2 else 1)"
    by (simp_all add: matrix_count_def)
qed

lemma LayerNorm_sizes:
  "matrix_count (LayerNorm d b) = 0" "length (LayerNorm d b) = (if b then 2 else 1)"
  by (simp_all add: LayerNorm_def matrix_count_def)

lemma Block_sizes:
  assumes "nn_documented N" "Block N c = Inr b"
  shows "matrix_count b = 4" "length b = (if bias c then 12 else 6)"
  using assms(2)
  by (auto simp: Block_def CausalSelfAttention_def MLP_def Linear_sizes [OF assms(1)] LayerNorm_sizes
      split: if_splits)

lemma GPT_sizes:
  assumes "nn_documented N" "GPT N c = Inr ps"
  shows "matrix_count ps = 2 + 4 * n_layer c"
    and "length ps = 2 + 4 * n_layer c + (if bias c then 2 + 8 * n_layer c else 1 + 2 * n_layer c)"
proof -
  obtain b where b: "0 < n_layer c \<longrightarrow> Block N c = Inr b"
    and ps: "ps = (''transformer.wte.weight'', [vocab_size c, n_embd c]) #
          (''transformer.wpe.weight'', [block_size c, n_embd c]) #
          submodule ''transformer'' (gpt_blocks N c b @ submodule ''ln_f'' (LayerNorm (n_embd c) (bias c)))"
    using assms(2) by (auto simp: GPT_eq [OF assms(1)])
  show "matrix_count ps = 2 + 4 * n_layer c"
    "length ps = 2 + 4 * n_layer c + (if bias c then 2 + 8 * n_layer c else 1 + 2 * n_layer c)"
    using b Block_sizes [OF assms(1)]
    by (cases "n_layer c = 0"; simp add: ps matrix_count_blocks length_blocks LayerNorm_sizes)+
qed

lemma mset_filter_split: "mset (filter P xs @ filter (\<lambda>x. \<not> P x) xs) = mset xs"
  by (induction xs) simp_all

text \<open>The optimizer's two groups share out the trainable parameters, each in one group and in the model's
  order: weight decay applies to the tensors with two dimensions or more and to no other.  With every
  parameter trainable these are the two embeddings and four matrices per block.\<close>

theorem optimizer_groups_partition:
  assumes "nn_documented N" "GPT N c = Inr ps"
  shows "(\<exists>decay no_decay. configure_optimizers ps requires_grad w =
       [\<lparr>group_params = decay, group_decay = w\<rparr>, \<lparr>group_params = no_decay, group_decay = 0\<rparr>] \<and>
     mset (decay @ no_decay) = mset (filter (\<lambda>(n, sh). requires_grad n) ps) \<and>
     subseq decay ps \<and> subseq no_decay ps \<and>
     (\<forall>(n, sh) \<in> set decay. 2 \<le> length sh) \<and> (\<forall>(n, sh) \<in> set no_decay. length sh < 2) \<and>
     ((\<forall>n. requires_grad n) \<longrightarrow> length decay = 2 + 4 * n_layer c \<and>
        length no_decay = (if bias c then 2 + 8 * n_layer c else 1 + 2 * n_layer c)))"
proof -
  let ?pd = "filter (\<lambda>(n, sh). requires_grad n) ps"
  let ?decay = "filter (\<lambda>(n, sh). length sh \<ge> 2) ?pd"
  let ?no_decay = "filter (\<lambda>(n, sh). length sh < 2) ?pd"
  have complement: "(\<lambda>(n, sh). length sh < 2) = (\<lambda>x. \<not> (case x of (n, sh) \<Rightarrow> length sh \<ge> 2))"
    by (auto simp: fun_eq_iff)
  have union: "mset (?decay @ ?no_decay) = mset ?pd"
    unfolding complement by (rule mset_filter_split)
  have sizes: "length ?decay = 2 + 4 * n_layer c \<and>
      length ?no_decay = (if bias c then 2 + 8 * n_layer c else 1 + 2 * n_layer c)" if "\<forall>n. requires_grad n"
  proof -
    from that have all: "?pd = ps" by (simp add: case_prod_unfold)
    have d: "length ?decay = 2 + 4 * n_layer c"
      using GPT_sizes(1) [OF assms] unfolding all matrix_count_def .
    have "length ?decay + length ?no_decay = length ps"
      using mset_eq_length [OF union] unfolding all by simp
    with d GPT_sizes(2) [OF assms] show ?thesis by simp
  qed
  have sub: "subseq (filter P ?pd) ps" for P
    by (rule subseq_order.order_trans [OF subseq_filter_left subseq_filter_left])
  show ?thesis
    by (rule exI [of _ ?decay], rule exI [of _ ?no_decay])
       (use union sizes sub in \<open>auto simp: configure_optimizers_def Let_def\<close>)
qed

theorem optimizer_groups_partition_witness:
  "\<exists>ps decay no_decay. GPT sample_nn gpt2_config = Inr ps \<and> configure_optimizers ps (\<lambda>_. True) (1 / 10) =
     [\<lparr>group_params = decay, group_decay = 1 / 10\<rparr>, \<lparr>group_params = no_decay, group_decay = 0\<rparr>] \<and>
     length decay = 50 \<and> length no_decay = 98"
proof -
  have "Block sample_nn gpt2_config \<noteq> Inl e" for e
    using Block_ok_iff [of sample_nn gpt2_config] by (auto simp: gpt2_config_def)
  then obtain b where "Block sample_nn gpt2_config = Inr b" by (cases "Block sample_nn gpt2_config") auto
  then obtain ps where ps: "GPT sample_nn gpt2_config = Inr ps"
    by (auto simp: GPT_eq [OF sample_nn_documented])
  from optimizer_groups_partition [OF sample_nn_documented ps, of "\<lambda>_. True" "1 / 10"] ps show ?thesis
    by (force simp: gpt2_config_def)
qed

end
