(* ===== verification/Gpt_Pretrained.thy ===== *)
theory Gpt_Pretrained
  imports Gpt_Params
begin

text \<open>
  \<open>GPT.from_pretrained\<close> of \<open>compute-engine/user_code/model.py\<close>: the model is built with the size its name
  asks for and every parameter is overwritten by the pretrained one.  The names of a state dictionary
  refer to tensors in a store, since the head and the token embedding share one.
\<close>

section \<open>Names\<close>

lemma str_of_nat_inj:
  assumes "str_of_nat i = str_of_nat j"
  shows "i = j"
proof -
  have "Some (int i) = Some (int j)"
    using assms by (simp only: parse_digits_str_of_nat [symmetric])
  then show ?thesis by simp
qed

lemma str_of_nat_no_dot: "CHR ''.'' \<notin> set (str_of_nat i)"
proof
  assume "CHR ''.'' \<in> set (str_of_nat i)"
  then obtain d where d: "d < 10" "digit_char d = CHR ''.''" by (auto dest!: str_of_nat_digits)
  have "digit_char d \<noteq> CHR ''.''" by (rule digit_char_neq [OF d(1)]) simp
  with d(2) show False by simp
qed

lemma dotted_eq:
  assumes "CHR ''.'' \<notin> set a" "CHR ''.'' \<notin> set b" "a @ ''.'' @ x = b @ ''.'' @ y"
  shows "a = b \<and> x = y"
proof -
  have "takeWhile (\<lambda>c. c \<noteq> CHR ''.'') (a @ ''.'' @ x) = a"
    "takeWhile (\<lambda>c. c \<noteq> CHR ''.'') (b @ ''.'' @ y) = b"
    using assms(1,2) by (auto simp: takeWhile_append takeWhile_eq_all_conv)
  with assms(3) show ?thesis by (metis same_append_eq)
qed

lemma names_submodule: "map fst (submodule n ps) = map (\<lambda>x. n @ ''.'' @ x) (map fst ps)"
  by (induction ps) (auto simp: submodule_def)

lemma distinct_submodule: "distinct (map fst ps) \<Longrightarrow> distinct (map fst (submodule n ps))"
  unfolding names_submodule by (subst distinct_map) (simp add: inj_on_def)

lemma block_names_disjoint:
  assumes "i \<noteq> j"
  shows "set (map fst (submodule (''h.'' @ str_of_nat i) b)) \<inter> set (map fst (submodule (''h.'' @ str_of_nat j) b)) = {}"
proof -
  have "False" if "''h.'' @ str_of_nat i @ ''.'' @ x = ''h.'' @ str_of_nat j @ ''.'' @ y" for x y
  proof -
    from that have "str_of_nat i @ ''.'' @ x = str_of_nat j @ ''.'' @ y" by (simp only: same_append_eq)
    from dotted_eq [OF str_of_nat_no_dot str_of_nat_no_dot this] str_of_nat_inj assms show False by blast
  qed
  then show ?thesis unfolding names_submodule by auto
qed

lemma distinct_blocks:
  assumes "distinct (map fst b)"
  shows "distinct (map fst (gpt_blocks N c b))"
proof -
  have "distinct (map fst (concat (map (\<lambda>i. submodule (''h.'' @ str_of_nat i) b) is)))" if "distinct is" for "is"
    using that
  proof (induction "is")
    case (Cons i "is")
    have "set (map fst (submodule (''h.'' @ str_of_nat i) b)) \<inter>
        set (map fst (submodule (''h.'' @ str_of_nat j) b)) = {}" if "j \<in> set is" for j
      by (rule block_names_disjoint) (use Cons.prems that in auto)
    then have "set (map fst (submodule (''h.'' @ str_of_nat i) b)) \<inter>
        (\<Union>j \<in> set is. set (map fst (submodule (''h.'' @ str_of_nat j) b))) = {}" by blast
    moreover have "set (map fst (concat (map (\<lambda>i. submodule (''h.'' @ str_of_nat i) b) js))) =
        (\<Union>j \<in> set js. set (map fst (submodule (''h.'' @ str_of_nat j) b)))" for js
      by auto
    ultimately show ?case
      using Cons.IH Cons.prems distinct_submodule [OF assms, of "''h.'' @ str_of_nat i"]
      by (simp only: list.map concat.simps map_append distinct_append distinct.simps simp_thms)
  qed simp
  then show ?thesis by (simp add: gpt_blocks_def)
qed

lemma distinct_Block:
  assumes "nn_documented N" "Block N c = Inr b"
  shows "distinct (map fst b)"
proof -
  have lin: "Linear N i out v = (''weight'', [out, i]) # (if v then [(''bias'', [out])] else [])" for i out v
    using assms(1) by (simp add: nn_documented_def)
  from assms(2) show ?thesis
    by (auto simp: Block_def CausalSelfAttention_def MLP_def LayerNorm_def lin submodule_def split: if_splits)
qed

lemma distinct_GPT:
  assumes "nn_documented N" "GPT N c = Inr ps"
  shows "distinct (map fst ps)" "''lm_head.weight'' \<notin> fst ` set ps"
    and "map fst ps = ''transformer.wte.weight'' # tl (map fst ps)"
proof -
  obtain b where b: "0 < n_layer c \<longrightarrow> Block N c = Inr b"
    and ps: "ps = (''transformer.wte.weight'', [vocab_size c, n_embd c]) #
          (''transformer.wpe.weight'', [block_size c, n_embd c]) #
          submodule ''transformer'' (gpt_blocks N c b @ submodule ''ln_f'' (LayerNorm (n_embd c) (bias c)))"
    using assms(2) by (auto simp: GPT_eq [OF assms(1)])
  have "distinct (map fst (gpt_blocks N c b))"
    using b distinct_blocks [OF distinct_Block [OF assms(1)]]
    by (cases "n_layer c = 0") (auto simp: gpt_blocks_def)
  moreover have "distinct (map fst (LayerNorm (n_embd c) (bias c)))" by (simp add: LayerNorm_def)
  moreover have "fst ` set (gpt_blocks N c b) \<inter> fst ` set (submodule ''ln_f'' (LayerNorm (n_embd c) (bias c))) = {}"
    by (auto simp: gpt_blocks_def submodule_def)
  ultimately have "distinct (map fst (submodule ''transformer''
      (gpt_blocks N c b @ submodule ''ln_f'' (LayerNorm (n_embd c) (bias c)))))"
    by (intro distinct_submodule) (simp add: distinct_submodule)
  then show "distinct (map fst ps)" "''lm_head.weight'' \<notin> fst ` set ps"
    "map fst ps = ''transformer.wte.weight'' # tl (map fst ps)"
    by (auto simp: ps submodule_def gpt_blocks_def)
qed

section \<open>Program\<close>

text \<open>What the loop does with a tensor: its shape, and its transpose.\<close>

record 'a tensor_ops =
  shape_of :: "'a \<Rightarrow> shape"
  transposed_tensor :: "'a \<Rightarrow> 'a"

definition pretrained_sizes :: "(string, nat \<times> nat \<times> nat) dict" where
  "pretrained_sizes =
     [(''gpt2'', (12, 12, 768)), (''gpt2-medium'', (24, 16, 1024)),
      (''gpt2-large'', (36, 20, 1280)), (''gpt2-xl'', (48, 25, 1600))]"

definition pretrained_config :: "string \<Rightarrow> GPTConfig option" where
  "pretrained_config model_type =
     map_option (\<lambda>(l, nh, d). \<lparr>block_size = 1024, vocab_size = 50257, n_layer = l, n_head = nh, n_embd = d,
       bias = True\<rparr>) (dict_get pretrained_sizes model_type)"

text \<open>
  \<open>state_dict()\<close>: a tensor of the store for each parameter, the head's name for the first one, and
  when the fused attention is missing the mask of each block.
\<close>

definition mask_name :: "nat \<Rightarrow> string" where
  "mask_name i = ''transformer.h.'' @ str_of_nat i @ ''.attn.bias''"

definition state_dict :: "params \<Rightarrow> bool \<Rightarrow> nat \<Rightarrow> (string, nat) dict" where
  "state_dict ps flash n =
     zip (map fst ps) [0..<length ps] @
     (if flash then [] else
        map (\<lambda>i. (mask_name i, length ps + i)) [0..<n]) @
     [(''lm_head.weight'', 0)]"

definition not_mask :: "string \<Rightarrow> bool" where
  "not_mask k \<longleftrightarrow> \<not> suffix ''.attn.bias'' k"

definition hf_keys :: "(string, 'a) dict \<Rightarrow> string list" where
  "hf_keys hf = filter (\<lambda>k. \<not> suffix ''.attn.masked_bias'' k \<and> not_mask k) (dict_keys hf)"

definition transposed_names :: "string list" where
  "transposed_names = [''attn.c_attn.weight'', ''attn.c_proj.weight'', ''mlp.c_fc.weight'', ''mlp.c_proj.weight'']"

definition is_transposed :: "string \<Rightarrow> bool" where
  "is_transposed k \<longleftrightarrow> (\<exists>w \<in> set transposed_names. suffix w k)"

definition copy_param ::
  "'a tensor_ops \<Rightarrow> (string, nat) dict \<Rightarrow> (string, 'a) dict \<Rightarrow> string \<Rightarrow> (nat \<Rightarrow> 'a, unit) py" where
  "copy_param T sd sd_hf k = (\<lambda>store. case dict_get sd_hf k of
       None \<Rightarrow> (Raise (KeyError k), store)
     | Some v \<Rightarrow> (case dict_get sd k of
           None \<Rightarrow> (Raise (KeyError k), store)
         | Some a \<Rightarrow>
             if is_transposed k then
               if rev (shape_of T v) = shape_of T (store a) then (Return (), store(a := transposed_tensor T v))
               else (Raise AssertionError, store)
             else
               if shape_of T v = shape_of T (store a) then (Return (), store(a := v))
               else (Raise AssertionError, store)))"

primrec copy_params ::
  "'a tensor_ops \<Rightarrow> (string, nat) dict \<Rightarrow> (string, 'a) dict \<Rightarrow> string list \<Rightarrow> (nat \<Rightarrow> 'a, unit) py" where
  "copy_params T sd sd_hf [] = py_return ()"
| "copy_params T sd sd_hf (k # ks) = py_seq (copy_param T sd sd_hf k) (copy_params T sd sd_hf ks)"

text \<open>
  \<open>overrides\<close> are the names of the arguments to override; \<open>hf\<close> is the pretrained state dictionary.  The
  state is the store with the new model's tensors; the result is the model's state dictionary.
\<close>

definition from_pretrained ::
  "nn_lib \<Rightarrow> 'a tensor_ops \<Rightarrow> bool \<Rightarrow> string \<Rightarrow> string list \<Rightarrow> (string, 'a) dict
     \<Rightarrow> (nat \<Rightarrow> 'a, (string, nat) dict) py" where
  "from_pretrained N T flash model_type overrides hf =
     (case pretrained_config model_type of
        None \<Rightarrow> py_raise AssertionError
      | Some c \<Rightarrow>
          if \<not> (\<forall>k \<in> set overrides. k = ''dropout'') then py_raise AssertionError
          else py_bind (py_lift (GPT N c)) (\<lambda>ps.
            let sd = state_dict ps flash (n_layer c);
                sd_keys = filter not_mask (dict_keys sd);
                sd_keys_hf = hf_keys hf
            in if length sd_keys_hf \<noteq> length sd_keys then py_raise AssertionError
               else py_seq (copy_params T sd hf sd_keys_hf) (py_return sd)))"

section \<open>Copying\<close>

definition written :: "'a tensor_ops \<Rightarrow> (string, 'a) dict \<Rightarrow> string \<Rightarrow> 'a" where
  "written T hf k = (let v = the (dict_get hf k) in if is_transposed k then transposed_tensor T v else v)"

lemma copy_param_Return:
  assumes "copy_param T sd hf k store = (Return (), store')"
  obtains a where "dict_get sd k = Some a" "dict_get hf k \<noteq> None" "store' = store(a := written T hf k)"
  using assms by (auto simp: copy_param_def written_def split: option.splits if_splits)

lemma copy_params_known:
  assumes "copy_params T sd hf ks store = (Return (), store')" "k \<in> set ks"
  shows "dict_get sd k \<noteq> None \<and> dict_get hf k \<noteq> None"
  using assms
  by (induction ks arbitrary: store)
    (auto simp: py_seq_def py_bind_def split: prod.splits outcome.splits elim!: copy_param_Return)

lemma copy_params_Cons:
  assumes "copy_params T sd hf (k # ks) store = (Return (), store')"
  obtains a where "dict_get sd k = Some a" "dict_get hf k \<noteq> None"
    "copy_params T sd hf ks (store(a := written T hf k)) = (Return (), store')"
  using assms
  by (auto simp: py_seq_def py_bind_def split: prod.splits outcome.splits elim!: copy_param_Return)

lemma copy_params_untouched:
  assumes "copy_params T sd hf ks store = (Return (), store')" "\<forall>k \<in> set ks. dict_get sd k \<noteq> Some a"
  shows "store' a = store a"
  using assms
proof (induction ks arbitrary: store)
  case (Cons k ks)
  from Cons.prems(1) obtain b where b: "dict_get sd k = Some b"
    and rest: "copy_params T sd hf ks (store(b := written T hf k)) = (Return (), store')"
    by (rule copy_params_Cons)
  from Cons.IH [OF rest] b Cons.prems(2) show ?case by auto
qed (simp add: py_return_def)

lemma copy_params_written:
  assumes "copy_params T sd hf ks store = (Return (), store')"
    and "\<exists>k \<in> set ks. dict_get sd k = Some a"
    and "\<forall>k \<in> set ks. dict_get sd k = Some a \<longrightarrow> written T hf k = w"
  shows "store' a = w"
  using assms
proof (induction ks arbitrary: store)
  case (Cons j ks)
  from Cons.prems(1) obtain b where b: "dict_get sd j = Some b"
    and rest: "copy_params T sd hf ks (store(b := written T hf j)) = (Return (), store')"
    by (rule copy_params_Cons)
  show ?case
  proof (cases "\<exists>i \<in> set ks. dict_get sd i = Some a")
    case True
    with Cons.IH [OF rest] Cons.prems(3) show ?thesis by simp
  next
    case False
    then have "b = a" using Cons.prems(2) b by auto
    moreover have "store' a = (store(b := written T hf j)) a"
      using copy_params_untouched [OF rest] False by blast
    ultimately show ?thesis using b Cons.prems(3) by simp
  qed
qed simp

lemma copy_params_total:
  assumes "\<forall>v. shape_of T (transposed_tensor T v) = rev (shape_of T v)"
    and "\<forall>k \<in> set ks. \<exists>a v. dict_get sd k = Some a \<and> dict_get hf k = Some v \<and>
      (if is_transposed k then rev (shape_of T v) else shape_of T v) = sh a"
    and "\<forall>a. shape_of T (store a) = sh a"
  shows "\<exists>store'. copy_params T sd hf ks store = (Return (), store')"
  using assms(2,3)
proof (induction ks arbitrary: store)
  case (Cons k ks)
  then obtain a v where av: "dict_get sd k = Some a" "dict_get hf k = Some v"
    "(if is_transposed k then rev (shape_of T v) else shape_of T v) = sh a" by auto
  let ?store = "store(a := written T hf k)"
  have "copy_param T sd hf k store = (Return (), ?store)"
    using av Cons.prems(2) by (auto simp: copy_param_def written_def split: if_splits)
  moreover have "\<forall>b. shape_of T (?store b) = sh b"
    using av Cons.prems(2) assms(1) by (auto simp: written_def split: if_splits)
  with Cons.IH [of ?store] Cons.prems(1)
  have "\<exists>store'. copy_params T sd hf ks ?store = (Return (), store')" by (simp del: fun_upd_apply)
  ultimately show ?case by (simp add: py_seq_def py_bind_def)
qed (simp add: py_return_def)

section \<open>Properties\<close>

lemma mask_is_masked [simp]: "\<not> not_mask (mask_name i)"
proof -
  have "mask_name i = (''transformer.h.'' @ str_of_nat i) @ ''.attn.bias''"
    by (simp only: mask_name_def append.assoc)
  then have "suffix ''.attn.bias'' (mask_name i)" unfolding suffix_def by blast
  then show ?thesis by (simp only: not_mask_def simp_thms not_False_eq_True)
qed

lemma head_not_mask [simp]: "not_mask ''lm_head.weight''"
  by code_simp

lemma embeddings_not_transposed:
  "is_transposed ''lm_head.weight'' = False" "is_transposed ''transformer.wte.weight'' = False"
  by code_simp+

lemma state_dict_not_mask:
  assumes "dict_get (state_dict ps flash n) k = Some a" "not_mask k"
  shows "(k, a) \<in> set (zip (map fst ps) [0..<length ps]) \<or> k = ''lm_head.weight'' \<and> a = 0"
  using map_of_SomeD [OF assms(1)] assms(2)
  by (auto simp: state_dict_def split: if_splits)

lemma state_dict_keys:
  "filter not_mask (dict_keys (state_dict ps flash n)) =
     filter not_mask (map fst ps) @ [''lm_head.weight'']"
proof -
  have "filter not_mask (map fst (map (\<lambda>i. (mask_name i, length ps + i)) [0..<n])) = []"
    by (simp add: filter_empty_conv)
  then show ?thesis by (simp add: state_dict_def)
qed

text \<open>The names of one tensor of the model agree on what is written to it.\<close>

lemma same_tensor:
  assumes "map fst ps = ''transformer.wte.weight'' # tl (map fst ps)" "distinct (map fst ps)"
    and "dict_get hf ''lm_head.weight'' = dict_get hf ''transformer.wte.weight''"
    and "dict_get (state_dict ps flash n) j = Some a" "dict_get (state_dict ps flash n) k = Some a"
    and "not_mask j" "not_mask k"
  shows "written T hf j = written T hf k"
proof -
  have first: "i = ''transformer.wte.weight''" if "(i, 0) \<in> set (zip (map fst ps) [0..<length ps])" for i
  proof -
    from that have "map fst ps ! 0 = i" by (auto simp: in_set_zip)
    moreover have "map fst ps ! 0 = ''transformer.wte.weight''" by (subst assms(1)) (simp only: nth_Cons_0)
    ultimately show ?thesis by (simp only:)
  qed
  have tied: "written T hf ''lm_head.weight'' = written T hf ''transformer.wte.weight''"
    using assms(3) by (simp only: written_def embeddings_not_transposed if_False)
  have unique: "i = i'" if "(i, b) \<in> set (zip (map fst ps) [0..<length ps])"
    "(i', b) \<in> set (zip (map fst ps) [0..<length ps])" for i i' b
    using that by (auto simp: in_set_zip)
  from state_dict_not_mask [OF assms(4,6)] state_dict_not_mask [OF assms(5,7)] show ?thesis
    using first unique tied by metis
qed

lemma from_pretrained_Return:
  assumes "from_pretrained N T flash model_type overrides hf store = (Return sd, store')"
  obtains c ps where "GPT N c = Inr ps" "sd = state_dict ps flash (n_layer c)"
    "length (hf_keys hf) =
      length (filter not_mask (dict_keys sd))"
    "copy_params T sd hf (hf_keys hf) store
      = (Return (), store')"
proof (cases "pretrained_config model_type")
  case None
  with assms show ?thesis by (simp add: from_pretrained_def py_raise_def)
next
  case (Some c)
  with assms have "py_bind (py_lift (GPT N c)) (\<lambda>ps.
            let sd = state_dict ps flash (n_layer c);
                sd_keys = filter not_mask (dict_keys sd);
                sd_keys_hf = hf_keys hf
            in if length sd_keys_hf \<noteq> length sd_keys then py_raise AssertionError
               else py_seq (copy_params T sd hf sd_keys_hf) (py_return sd)) store = (Return sd, store')"
    by (simp add: from_pretrained_def py_raise_def split: if_splits)
  moreover obtain ps where "GPT N c = Inr ps"
    using calculation by (cases "GPT N c") (simp_all add: py_bind_def py_lift_def py_raise_def)
  ultimately show ?thesis
    using that [of c ps]
    by (auto simp: py_seq_def py_bind_def py_lift_def py_raise_def py_return_def Let_def
        split: if_splits prod.splits outcome.splits)
qed

text \<open>C35: When the pretrained dictionary has its two embedding tensors tied and loading succeeds, every parameter
  of the model, under each of its names, ends up with the pretrained value of that name, transposed for the
  four kinds of matrices stored the other way round: no parameter keeps its initial value.\<close>

theorem pretrained_copies:
  assumes "nn_documented N" "distinct (dict_keys hf)"
    and "dict_get hf ''lm_head.weight'' = dict_get hf ''transformer.wte.weight''"
    and "from_pretrained N T flash model_type overrides hf store = (Return sd, store')"
  shows "\<forall>k a. dict_get sd k = Some a \<longrightarrow> not_mask k \<longrightarrow>
    (\<exists>v. dict_get hf k = Some v \<and> store' a = (if is_transposed k then transposed_tensor T v else v))"
proof (intro allI impI)
  fix k a assume k: "dict_get sd k = Some a" "not_mask k"
  from assms(4) obtain c ps where ps: "GPT N c = Inr ps"
    and sd: "sd = state_dict ps flash (n_layer c)"
    and len: "length (hf_keys hf) =
      length (filter not_mask (dict_keys sd))"
    and copy: "copy_params T sd hf (hf_keys hf) store
      = (Return (), store')"
    by (rule from_pretrained_Return)
  note names = distinct_GPT [OF assms(1) ps]
  have "distinct (filter not_mask (dict_keys sd))"
    using names by (auto simp: sd state_dict_keys)
  moreover have "distinct (hf_keys hf)" using assms(2) by (simp add: hf_keys_def)
  moreover have "set (hf_keys hf) \<subseteq> set (filter not_mask (dict_keys sd))"
  proof
    fix j assume j: "j \<in> set (hf_keys hf)"
    then have "dict_get sd j \<noteq> None" using copy_params_known [OF copy] by blast
    with j show "j \<in> set (filter not_mask (dict_keys sd))" by (auto simp: map_of_eq_None_iff hf_keys_def)
  qed
  ultimately have keys: "set (hf_keys hf) = set (filter not_mask (dict_keys sd))"
    using len by (intro card_subset_eq) (simp_all only: List.finite_set distinct_card)
  from k have "k \<in> set (filter not_mask (dict_keys sd))"
    using dict_has_iff [of sd k] by (simp add: dict_has_def)
  with keys have k_hf: "k \<in> set (hf_keys hf)" by simp
  have "store' a = written T hf k"
  proof (rule copy_params_written [OF copy])
    show "\<exists>j \<in> set (hf_keys hf). dict_get sd j = Some a" using k_hf k(1) by blast
    show "\<forall>j \<in> set (hf_keys hf). dict_get sd j = Some a \<longrightarrow> written T hf j = written T hf k"
    proof (intro ballI impI)
      fix j assume "j \<in> set (hf_keys hf)" "dict_get sd j = Some a"
      then show "written T hf j = written T hf k"
        using k by (intro same_tensor [OF names(3,1) assms(3)]) (auto simp only: sd hf_keys_def set_filter mem_Collect_eq)
    qed
  qed
  with copy_params_known [OF copy k_hf]
  show "\<exists>v. dict_get hf k = Some v \<and> store' a = (if is_transposed k then transposed_tensor T v else v)"
    by (auto simp: written_def)
qed

section \<open>A pretrained dictionary that loads\<close>

text \<open>The last component of a dotted name, read backwards.\<close>

definition leaf :: "string \<Rightarrow> string" where
  "leaf n = takeWhile (\<lambda>ch. ch \<noteq> CHR ''.'') (rev n)"

lemma leaf_dotted [simp]: "leaf (m @ CHR ''.'' # n) = leaf n"
proof (cases "CHR ''.'' \<in> set n")
  case True
  then show ?thesis by (simp add: leaf_def takeWhile_append1 [of "CHR ''.''"])
next
  case False
  then have "takeWhile (\<lambda>ch. ch \<noteq> CHR ''.'') (rev n @ CHR ''.'' # rev m) = rev n"
    by (subst takeWhile_append2) auto
  moreover have "takeWhile (\<lambda>ch. ch \<noteq> CHR ''.'') (rev n) = rev n"
    using False by (subst takeWhile_eq_all_conv) auto
  ultimately show ?thesis by (simp only: leaf_def rev_append rev.simps append_assoc append_Cons append_Nil)
qed

lemma leaves_submodule [simp]: "(\<lambda>x. leaf (fst x)) ` set (submodule m ps) = (\<lambda>x. leaf (fst x)) ` set ps"
  by (force simp: submodule_def)

definition leaves :: "params \<Rightarrow> bool" where
  "leaves ps \<longleftrightarrow> (\<lambda>x. leaf (fst x)) ` set ps \<subseteq> {leaf ''weight'', leaf ''bias''}"

lemma leaves_simps [simp]:
  "leaves (submodule m ps) = leaves ps" "leaves (ps @ qs) \<longleftrightarrow> leaves ps \<and> leaves qs"
  "leaves (concat pss) \<longleftrightarrow> (\<forall>ps \<in> set pss. leaves ps)"
  by (auto simp only: leaves_def leaves_submodule set_append set_concat image_Un image_UN)

lemma leaves_GPT:
  assumes "nn_documented N" "GPT N c = Inr ps"
  shows "leaves ps"
proof -
  have lin: "leaves (Linear N i out v)" for i out v
    using assms(1) by (auto simp: nn_documented_def leaves_def)
  have emb: "leaves (Embedding N n d)" for n d
    using assms(1) by (auto simp: nn_documented_def leaves_def)
  have norm: "leaves (LayerNorm d v)" for d v
    by (auto simp: LayerNorm_def leaves_def)
  have block: "leaves b" if "Block N c = Inr b" for b
    using that by (auto simp: Block_def CausalSelfAttention_def MLP_def lin norm split: if_splits)
  have blocks: "leaves b" if "res_mapM (\<lambda>i. res_bind (Block N c) (\<lambda>b. Inr (submodule (f i) b))) is = Inr bs"
    "b \<in> set bs" for f and "is" :: "nat list" and bs b
    using that
  proof (induction "is" arbitrary: bs)
    case (Cons i "is")
    then show ?case using block by (auto simp: res_bind_eq_Inr)
  qed simp
  show ?thesis
    using assms(2) blocks by (auto simp: GPT_def res_bind_eq_Inr emb norm)
qed

lemma leaves_not_masked:
  assumes "leaves ps" "n \<in> fst ` set ps"
  shows "\<not> suffix ''.attn.masked_bias'' n"
proof
  assume "suffix ''.attn.masked_bias'' n"
  then obtain m where "n = (m @ ''.attn'') @ ''.'' @ ''masked_bias''" by (auto simp: suffix_def)
  then have "leaf n = leaf ''masked_bias''" by (simp only: append_Cons append_Nil leaf_dotted)
  moreover have "leaf n \<in> {leaf ''weight'', leaf ''bias''}" using assms by (auto simp: leaves_def)
  moreover have "leaf ''masked_bias'' \<notin> {leaf ''weight'', leaf ''bias''}" by code_simp
  ultimately show False by simp
qed

text \<open>Tensors that are only shapes, and the pretrained dictionary of a model's parameters.\<close>

definition shape_ops :: "shape tensor_ops" where
  "shape_ops = \<lparr>shape_of = (\<lambda>sh. sh), transposed_tensor = rev\<rparr>"

definition hf_dict :: "params \<Rightarrow> (string, shape) dict" where
  "hf_dict ps = map (\<lambda>(n, sh). (n, if is_transposed n then rev sh else sh)) ps @ [(''lm_head.weight'', snd (hd ps))]"

lemma keys_hf_dict: "dict_keys (hf_dict ps) = map fst ps @ [''lm_head.weight'']"
  by (auto simp: hf_dict_def)

lemma hf_keys_hf_dict:
  assumes "leaves ps"
  shows "hf_keys (hf_dict ps) = filter not_mask (dict_keys (state_dict ps flash n))"
proof -
  have "filter (\<lambda>k. \<not> suffix ''.attn.masked_bias'' k \<and> not_mask k) (map fst ps) = filter not_mask (map fst ps)"
    using leaves_not_masked [OF assms] by (intro filter_cong) auto
  moreover have "\<not> suffix ''.attn.masked_bias'' ''lm_head.weight''" by code_simp
  ultimately show ?thesis by (simp only: hf_keys_def keys_hf_dict state_dict_keys filter_append) simp
qed

lemma hf_dict_param:
  assumes "distinct (map fst ps)" "i < length ps"
  shows "dict_get (state_dict ps True n) (fst (ps ! i)) = Some i \<and>
    dict_get (hf_dict ps) (fst (ps ! i)) =
      Some (if is_transposed (fst (ps ! i)) then rev (snd (ps ! i)) else snd (ps ! i))"
proof -
  have "dict_get (zip (map fst ps) [0..<length ps]) (fst (ps ! i)) = Some i"
    using map_of_zip_nth [of "map fst ps" "[0..<length ps]" i] assms by simp
  moreover have "dict_get (map (\<lambda>(n, sh). (n, if is_transposed n then rev sh else sh)) ps) (fst (ps ! i)) =
      Some (if is_transposed (fst (ps ! i)) then rev (snd (ps ! i)) else snd (ps ! i))"
    by (rule map_of_is_SomeI)
      (use assms in \<open>auto simp: comp_def case_prod_unfold in_set_conv_nth intro!: exI [of _ i]\<close>)
  ultimately show ?thesis by (simp add: state_dict_def hf_dict_def map_add_def)
qed

lemma hf_dict_head:
  assumes "''lm_head.weight'' \<notin> fst ` set ps"
  shows "dict_get (state_dict ps True n) ''lm_head.weight'' = Some 0 \<and>
    dict_get (hf_dict ps) ''lm_head.weight'' = Some (snd (hd ps))"
proof -
  have "dict_get (zip (map fst ps) [0..<length ps]) ''lm_head.weight'' = None"
    "dict_get (map (\<lambda>(n, sh). (n, if is_transposed n then rev sh else sh)) ps) ''lm_head.weight'' = None"
    using assms by (force simp: map_of_eq_None_iff dest: set_zip_leftD)+
  then show ?thesis
    by (simp only: state_dict_def hf_dict_def map_of_append map_add_def if_True append_Nil
        map_of.simps fst_conv snd_conv fun_upd_same option.case simp_thms)
qed

lemma hf_dict_loads:
  assumes "nn_documented N" "GPT N c = Inr ps"
  shows "\<exists>store'. copy_params shape_ops (state_dict ps True (n_layer c)) (hf_dict ps) (hf_keys (hf_dict ps)) (\<lambda>a. snd (ps ! a))
    = (Return (), store')"
proof (rule copy_params_total [where sh = "\<lambda>a. snd (ps ! a)"])
  note names = distinct_GPT [OF assms]
  have first: "ps \<noteq> []" using names(3) by (metis list.distinct(1) list.simps(8))
  show "\<forall>k \<in> set (hf_keys (hf_dict ps)). \<exists>a v. dict_get (state_dict ps True (n_layer c)) k = Some a \<and>
      dict_get (hf_dict ps) k = Some v \<and>
      (if is_transposed k then rev (shape_of shape_ops v) else shape_of shape_ops v) = snd (ps ! a)"
  proof
    fix k assume "k \<in> set (hf_keys (hf_dict ps))"
    then consider i where "i < length ps" "k = fst (ps ! i)" | "k = ''lm_head.weight''"
      by (auto simp only: hf_keys_def keys_hf_dict set_filter set_append list.set set_map) (auto simp: in_set_conv_nth)
    then show "\<exists>a v. dict_get (state_dict ps True (n_layer c)) k = Some a \<and>
      dict_get (hf_dict ps) k = Some v \<and>
      (if is_transposed k then rev (shape_of shape_ops v) else shape_of shape_ops v) = snd (ps ! a)"
    proof cases
      case (1 i)
      with hf_dict_param [OF names(1) 1(1)] show ?thesis by (simp add: shape_ops_def)
    next
      case 2
      with hf_dict_head [OF names(2)] first show ?thesis
        by (simp add: shape_ops_def embeddings_not_transposed hd_conv_nth)
    qed
  qed
qed (simp_all add: shape_ops_def)

theorem pretrained_copies_witness:
  "\<exists>ps sd store'. GPT sample_nn gpt2_config = Inr ps \<and>
     from_pretrained sample_nn shape_ops True ''gpt2'' [''dropout''] (hf_dict ps) (\<lambda>a. snd (ps ! a)) = (Return sd, store') \<and>
     store' (the (dict_get sd ''transformer.wte.weight'')) = [50257, 768]"
proof -
  have "Block sample_nn gpt2_config \<noteq> Inl e" for e
    using Block_ok_iff [of sample_nn gpt2_config] by (auto simp: gpt2_config_def)
  then obtain b where "Block sample_nn gpt2_config = Inr b" by (cases "Block sample_nn gpt2_config") auto
  then obtain ps where ps: "GPT sample_nn gpt2_config = Inr ps"
    and head: "hd ps = (''transformer.wte.weight'', [50257, 768])" "ps \<noteq> []"
    by (auto simp: GPT_eq [OF sample_nn_documented] gpt2_config_def)
  let ?sd = "state_dict ps True (n_layer gpt2_config)"
  note names = distinct_GPT [OF sample_nn_documented ps]
  have config: "pretrained_config ''gpt2'' = Some gpt2_config"
    by (simp add: pretrained_config_def pretrained_sizes_def gpt2_config_def)
  obtain store' where "copy_params shape_ops ?sd (hf_dict ps) (hf_keys (hf_dict ps)) (\<lambda>a. snd (ps ! a)) = (Return (), store')"
    using hf_dict_loads [OF sample_nn_documented ps] by blast
  then have loaded: "from_pretrained sample_nn shape_ops True ''gpt2'' [''dropout''] (hf_dict ps) (\<lambda>a. snd (ps ! a))
      = (Return ?sd, store')"
    using hf_keys_hf_dict [OF leaves_GPT [OF sample_nn_documented ps], of True "n_layer gpt2_config"]
    by (simp add: from_pretrained_def config ps py_bind_def py_lift_def py_return_def py_seq_def Let_def)
  have distinct: "distinct (dict_keys (hf_dict ps))"
    using names(1,2) by (simp add: keys_hf_dict)
  have "ps ! 0 = (''transformer.wte.weight'', [50257, 768])" "0 < length ps"
    using head by (simp_all add: hd_conv_nth)
  with hf_dict_param [OF names(1), of 0]
  have wte: "dict_get (hf_dict ps) ''transformer.wte.weight'' = Some [50257, 768]"
    "dict_get ?sd ''transformer.wte.weight'' = Some 0"
    by (simp_all add: embeddings_not_transposed)
  have tied: "dict_get (hf_dict ps) ''lm_head.weight'' = dict_get (hf_dict ps) ''transformer.wte.weight''"
    using hf_dict_head [OF names(2)] wte(1) head(1) by simp
  have "not_mask ''transformer.wte.weight''" by code_simp
  with pretrained_copies [OF sample_nn_documented distinct tied loaded] wte embeddings_not_transposed
  have "store' 0 = [50257, 768]" by force
  with ps loaded wte show ?thesis by force
qed

end
