(* ===== verification/Gpt_Init.thy ===== *)
theory Gpt_Init
  imports Gpt_Params
begin

text \<open>
  The initial weights of the language model (\<open>GPT.__init__\<close> and \<open>_init_weights\<close> of \<open>model.py\<close>): from
  which distribution the value of each tensor comes that is there when the constructor returns.  A tensor
  is named like the first parameter that refers to it; the head and the token embedding share one.
\<close>

section \<open>Program\<close>

text \<open>A normal distribution has a mean and a standard deviation.  \<open>LibraryDefault\<close> is whatever PyTorch puts
  into the tensors of its own layers.\<close>

datatype init_law = LibraryDefault | Ones | Zeros | Normal real real

datatype layer_kind = LinearLayer bool | EmbeddingLayer | OtherModule

type_synonym laws = "string \<Rightarrow> init_law"

definition tensor_of :: "string \<Rightarrow> string" where
  "tensor_of n = (if n = ''lm_head.weight'' then ''transformer.wte.weight'' else n)"

text \<open>The modules in the order in which \<open>apply\<close> visits them, the parts of a module before the module.\<close>

definition block_modules :: "GPTConfig \<Rightarrow> string \<Rightarrow> (string \<times> layer_kind) list" where
  "block_modules c h =
     [(h @ ''.ln_1'', OtherModule),
      (h @ ''.attn.c_attn'', LinearLayer (bias c)), (h @ ''.attn.c_proj'', LinearLayer (bias c)),
      (h @ ''.attn.attn_dropout'', OtherModule), (h @ ''.attn.resid_dropout'', OtherModule), (h @ ''.attn'', OtherModule),
      (h @ ''.ln_2'', OtherModule),
      (h @ ''.mlp.c_fc'', LinearLayer (bias c)), (h @ ''.mlp.gelu'', OtherModule),
      (h @ ''.mlp.c_proj'', LinearLayer (bias c)), (h @ ''.mlp.dropout'', OtherModule), (h @ ''.mlp'', OtherModule),
      (h, OtherModule)]"

definition block_name :: "nat \<Rightarrow> string" where
  "block_name i = ''transformer.h.'' @ str_of_nat i"

definition gpt_modules :: "GPTConfig \<Rightarrow> (string \<times> layer_kind) list" where
  "gpt_modules c =
     [(''transformer.wte'', EmbeddingLayer), (''transformer.wpe'', EmbeddingLayer), (''transformer.drop'', OtherModule)] @
     concat (map (\<lambda>i. block_modules c (block_name i)) [0..<n_layer c]) @
     [(''transformer.h'', OtherModule), (''transformer.ln_f'', OtherModule), (''transformer'', OtherModule),
      (''lm_head'', LinearLayer False), ([], OtherModule)]"

text \<open>The norms create their own tensors.\<close>

definition norm_modules :: "GPTConfig \<Rightarrow> string list" where
  "norm_modules c = concat (map (\<lambda>i. [block_name i @ ''.ln_1'', block_name i @ ''.ln_2'']) [0..<n_layer c]) @
     [''transformer.ln_f'']"

definition created :: "GPTConfig \<Rightarrow> laws" where
  "created c n =
     (if n \<in> set (map (\<lambda>m. m @ ''.weight'') (norm_modules c)) then Ones
      else if bias c \<and> n \<in> set (map (\<lambda>m. m @ ''.bias'') (norm_modules c)) then Zeros
      else LibraryDefault)"

definition init_weights :: "laws \<Rightarrow> string \<times> layer_kind \<Rightarrow> laws" where
  "init_weights l m = (case m of
       (name, LinearLayer b) \<Rightarrow>
         (let l' = l(tensor_of (name @ ''.weight'') := Normal 0 (2/100))
          in if b then l'(name @ ''.bias'' := Zeros) else l')
     | (name, EmbeddingLayer) \<Rightarrow> l(tensor_of (name @ ''.weight'') := Normal 0 (2/100))
     | (name, OtherModule) \<Rightarrow> l)"

definition scaled_law :: "nat \<Rightarrow> init_law" where
  "scaled_law layers = Normal 0 (2/100 / sqrt (2 * real layers))"

definition scale_projections :: "nat \<Rightarrow> params \<Rightarrow> laws \<Rightarrow> laws" where
  "scale_projections layers ps l =
     foldl (\<lambda>l (pn, sh). if suffix ''c_proj.weight'' pn then l(pn := scaled_law layers) else l) l ps"

definition initial_laws :: "nn_lib \<Rightarrow> GPTConfig \<Rightarrow> laws result" where
  "initial_laws N c = res_bind (GPT N c) (\<lambda>ps.
     Inr (scale_projections (n_layer c) ps (foldl init_weights (created c) (gpt_modules c))))"

section \<open>Folding\<close>

fun weights_of :: "(string \<times> layer_kind) list \<Rightarrow> string set" where
  "weights_of [] = {}"
| "weights_of ((m, k) # ms) =
     (if k = OtherModule then weights_of ms else insert (tensor_of (m @ ''.weight'')) (weights_of ms))"

fun biases_of :: "(string \<times> layer_kind) list \<Rightarrow> string set" where
  "biases_of [] = {}"
| "biases_of ((m, k) # ms) = (if k = LinearLayer True then insert (m @ ''.bias'') (biases_of ms) else biases_of ms)"

lemma tensor_not_bias: "tensor_of (m @ ''.weight'') \<noteq> k @ ''.bias''"
proof
  assume eq: "tensor_of (m @ ''.weight'') = k @ ''.bias''"
  have "last (tensor_of (m @ ''.weight'')) = CHR ''t''" by (simp add: tensor_of_def)
  moreover have "last (k @ ''.bias'') = CHR ''s''" by simp
  ultimately show False unfolding eq by simp
qed

lemma weights_of_append: "weights_of (ms @ ks) = weights_of ms \<union> weights_of ks"
  by (induction ms rule: weights_of.induct) simp_all

lemma biases_of_append: "biases_of (ms @ ks) = biases_of ms \<union> biases_of ks"
  by (induction ms rule: biases_of.induct) simp_all

lemma weights_of_concat: "weights_of (concat (map f is)) = (\<Union>i \<in> set is. weights_of (f i))"
  by (induction "is") (simp_all add: weights_of_append)

lemma biases_of_concat: "biases_of (concat (map f is)) = (\<Union>i \<in> set is. biases_of (f i))"
  by (induction "is") (simp_all add: biases_of_append)

lemma not_weight: "m @ ''.bias'' \<notin> weights_of ms"
proof (induction ms rule: weights_of.induct)
  case (2 k a ms)
  then show ?case using tensor_not_bias [of k m] by simp
qed simp

lemma not_bias: "tensor_of (m @ ''.weight'') \<notin> biases_of ms"
proof (induction ms rule: biases_of.induct)
  case (2 k a ms)
  then show ?case using tensor_not_bias [of m k] by simp
qed simp

lemma init_weights_law:
  "foldl init_weights l ms n =
     (if n \<in> weights_of ms then Normal 0 (2/100) else if n \<in> biases_of ms then Zeros else l n)"
proof (induction ms arbitrary: l rule: weights_of.induct)
  case (2 m k ms)
  define w where "w = tensor_of (m @ ''.weight'')"
  define v where "v = m @ ''.bias''"
  have wv: "w \<noteq> v" "v \<notin> weights_of ms" "w \<notin> biases_of ms"
    unfolding w_def v_def by (rule tensor_not_bias not_weight not_bias)+
  have IH: "foldl init_weights l' ms n =
     (if n \<in> weights_of ms then Normal 0 (2/100) else if n \<in> biases_of ms then Zeros else l' n)" for l'
    by (cases "k = OtherModule") (simp_all add: 2)
  have step: "init_weights l (m, k) = (case k of
       LinearLayer b \<Rightarrow> if b then l(w := Normal 0 (2/100), v := Zeros) else l(w := Normal 0 (2/100))
     | EmbeddingLayer \<Rightarrow> l(w := Normal 0 (2/100)) | OtherModule \<Rightarrow> l)"
    by (cases k) (simp_all add: init_weights_def w_def v_def)
  show ?case
    unfolding foldl.simps weights_of.simps biases_of.simps IH step w_def [symmetric] v_def [symmetric]
    using wv by (cases k) auto
qed simp

lemma scale_projections_law:
  "scale_projections layers ps l n =
     (if n \<in> fst ` set ps \<and> suffix ''c_proj.weight'' n then scaled_law layers else l n)"
  unfolding scale_projections_def by (induction ps arbitrary: l) (auto split: prod.splits)

section \<open>Names\<close>

text \<open>What a name ends with does not depend on the block it belongs to.\<close>

definition ending :: "nat \<Rightarrow> string \<Rightarrow> string" where
  "ending k n = take k (rev n)"

lemma ending_append: "k \<le> length x \<Longrightarrow> ending k (p @ x) = ending k x"
  by (simp add: ending_def)

lemma suffix_ending: "suffix w n \<Longrightarrow> k \<le> length w \<Longrightarrow> ending k n = ending k w"
  by (auto simp: suffix_def ending_append)

lemma tensor_of_block [simp]: "tensor_of (block_name i @ x) = block_name i @ x"
  by (simp add: tensor_of_def block_name_def)

lemma weights_of_gpt:
  "weights_of (gpt_modules c) = {''transformer.wte.weight'', ''transformer.wpe.weight''} \<union>
     (\<Union>i < n_layer c. (\<lambda>x. block_name i @ x) `
        {''.attn.c_attn.weight'', ''.attn.c_proj.weight'', ''.mlp.c_fc.weight'', ''.mlp.c_proj.weight''})"
proof -
  have block: "weights_of (block_modules c (block_name i)) = (\<lambda>x. block_name i @ x) `
        {''.attn.c_attn.weight'', ''.attn.c_proj.weight'', ''.mlp.c_fc.weight'', ''.mlp.c_proj.weight''}" for i
    by (simp add: block_modules_def)
  show ?thesis
    unfolding gpt_modules_def weights_of_append weights_of_concat block by (simp add: tensor_of_def atLeast0LessThan insert_commute)
qed

lemma biases_of_gpt:
  "biases_of (gpt_modules c) = (if bias c then \<Union>i < n_layer c. (\<lambda>x. block_name i @ x) `
        {''.attn.c_attn.bias'', ''.attn.c_proj.bias'', ''.mlp.c_fc.bias'', ''.mlp.c_proj.bias''} else {})"
proof -
  have block: "biases_of (block_modules c (block_name i)) = (if bias c then (\<lambda>x. block_name i @ x) `
        {''.attn.c_attn.bias'', ''.attn.c_proj.bias'', ''.mlp.c_fc.bias'', ''.mlp.c_proj.bias''} else {})" for i
    by (simp add: block_modules_def)
  show ?thesis
    unfolding gpt_modules_def biases_of_append biases_of_concat block by (simp add: atLeast0LessThan)
qed

lemma in_submodule: "(n, sh) \<in> set (submodule m ps) \<longleftrightarrow> (\<exists>x. n = m @ ''.'' @ x \<and> (x, sh) \<in> set ps)"
  by (force simp: submodule_def)

text \<open>The parameters of a block, without the block's name.\<close>

definition matrices :: "string list" where
  "matrices = [''.attn.c_attn'', ''.attn.c_proj'', ''.mlp.c_fc'', ''.mlp.c_proj'']"

definition norms :: "string list" where
  "norms = [''.ln_1'', ''.ln_2'']"

lemma block_parameters:
  assumes "nn_documented N" "Block N c = Inr b" "(x, sh) \<in> set b"
  shows "(\<exists>m \<in> set matrices. ''.'' @ x = m @ ''.weight'' \<and> length sh = 2) \<or>
     (\<exists>m \<in> set norms. ''.'' @ x = m @ ''.weight'' \<and> length sh = 1) \<or>
     (bias c \<and> (\<exists>m \<in> set matrices \<union> set norms. ''.'' @ x = m @ ''.bias'' \<and> length sh = 1))"
proof -
  have lin: "Linear N i out v = (''weight'', [out, i]) # (if v then [(''bias'', [out])] else [])" for i out v
    using assms(1) by (simp add: nn_documented_def)
  let ?norm = "LayerNorm (n_embd c) (bias c)" and ?e = "n_embd c"
  have b: "b = submodule ''ln_1'' ?norm @
      submodule ''attn'' (submodule ''c_attn'' (Linear N ?e (3 * ?e) (bias c)) @ submodule ''c_proj'' (Linear N ?e ?e (bias c))) @
      submodule ''ln_2'' ?norm @
      submodule ''mlp'' (submodule ''c_fc'' (Linear N ?e (4 * ?e) (bias c)) @ submodule ''c_proj'' (Linear N (4 * ?e) ?e (bias c)))"
    using assms(2) by (auto simp: Block_def CausalSelfAttention_def MLP_def split: if_splits)
  let ?goal = "\<exists>y m. ''.'' @ x = m @ ''.'' @ y \<and>
      (m \<in> set norms \<and> (y, sh) \<in> set ?norm \<or> m \<in> set matrices \<and> (\<exists>i out. (y, sh) \<in> set (Linear N i out (bias c))))"
  have norm: ?goal if "''.'' @ k \<in> set norms" "(x, sh) \<in> set (submodule k ?norm)" for k
  proof -
    from that(2) obtain y where "x = k @ ''.'' @ y" "(y, sh) \<in> set ?norm" by (auto simp only: in_submodule)
    with that(1) show ?thesis by (intro exI [of _ y] exI [of _ "''.'' @ k"]) simp
  qed
  have matrix: ?goal if "''.'' @ k @ ''.'' @ l \<in> set matrices"
    "(x, sh) \<in> set (submodule k (submodule l (Linear N i out (bias c))))" for k l i out
  proof -
    from that(2) obtain y where "x = k @ ''.'' @ l @ ''.'' @ y" "(y, sh) \<in> set (Linear N i out (bias c))"
      by (auto simp only: in_submodule)
    with that(1) show ?thesis by (intro exI [of _ y] exI [of _ "''.'' @ k @ ''.'' @ l"]) auto
  qed
  have append: "submodule k (ps @ qs) = submodule k ps @ submodule k qs" for k ps qs by (simp add: submodule_def)
  have ?goal
    using assms(3) unfolding b append set_append Un_iff
  proof (elim disjE)
  qed (rule norm matrix; simp add: norms_def matrices_def; fail)+
  then obtain y m where x: "''.'' @ x = m @ ''.'' @ y" and
    y: "m \<in> set norms \<and> (y, sh) \<in> set ?norm \<or> m \<in> set matrices \<and> (\<exists>i out. (y, sh) \<in> set (Linear N i out (bias c)))"
    by blast
  from y show ?thesis unfolding x by (auto simp: lin LayerNorm_def split: if_splits)
qed

lemma gpt_parameters:
  assumes "nn_documented N" "GPT N c = Inr ps" "(n, sh) \<in> set ps"
  obtains (embedding) "n \<in> {''transformer.wte.weight'', ''transformer.wpe.weight''}" "length sh = 2"
    | (matrix) i m where "i < n_layer c" "m \<in> set matrices" "n = block_name i @ m @ ''.weight''" "length sh = 2"
    | (norm) i m where "i < n_layer c" "m \<in> set norms" "n = block_name i @ m @ ''.weight''" "length sh = 1"
    | (bias) i m where "i < n_layer c" "bias c" "m \<in> set matrices \<union> set norms" "n = block_name i @ m @ ''.bias''" "length sh = 1"
    | (last_norm) "n = ''transformer.ln_f.weight''" "length sh = 1"
    | (last_bias) "bias c" "n = ''transformer.ln_f.bias''" "length sh = 1"
proof -
  obtain b where b: "0 < n_layer c \<longrightarrow> Block N c = Inr b"
    and ps: "ps = (''transformer.wte.weight'', [vocab_size c, n_embd c]) #
          (''transformer.wpe.weight'', [block_size c, n_embd c]) #
          submodule ''transformer'' (gpt_blocks N c b @ submodule ''ln_f'' (LayerNorm (n_embd c) (bias c)))"
    using assms(2) by (auto simp: GPT_eq [OF assms(1)])
  from assms(3) consider "n \<in> {''transformer.wte.weight'', ''transformer.wpe.weight''}" "length sh = 2"
    | x where "n = ''transformer.ln_f.'' @ x" "(x, sh) \<in> set (LayerNorm (n_embd c) (bias c))"
    | i x where "i < n_layer c" "(x, sh) \<in> set b" "n = block_name i @ ''.'' @ x"
    by (auto simp: ps in_submodule gpt_blocks_def block_name_def)
  then show thesis
  proof cases
    case 1
    then show thesis by (rule embedding)
  next
    case (2 x)
    then show thesis using last_norm last_bias by (auto simp: LayerNorm_def split: if_splits)
  next
    case (3 i x)
    with b have "Block N c = Inr b" by auto
    from block_parameters [OF assms(1) this 3(2)] 3(1,3) matrix norm bias show thesis by (metis append.assoc)
  qed
qed

section \<open>The laws\<close>

text \<open>Suffixes of literal endings.\<close>

lemma not_suffix_ending:
  assumes "ending k x \<noteq> ending k w" "k \<le> length w" "k \<le> length x"
  shows "\<not> suffix w (p @ x)"
  using suffix_ending [of w "p @ x" k] assms by (auto simp: ending_append)

lemma proj_suffix:
  "suffix ''c_proj.weight'' (p @ ''.attn.c_proj.weight'')" "suffix ''c_proj.weight'' (p @ ''.mlp.c_proj.weight'')"
  "\<not> suffix ''c_proj.weight'' (p @ ''.attn.c_attn.weight'')" "\<not> suffix ''c_proj.weight'' (p @ ''.mlp.c_fc.weight'')"
proof -
  have "p @ ''.attn.c_proj.weight'' = (p @ ''.attn.'') @ ''c_proj.weight''" by simp
  then show "suffix ''c_proj.weight'' (p @ ''.attn.c_proj.weight'')" by (rule suffixI)
  have "p @ ''.mlp.c_proj.weight'' = (p @ ''.mlp.'') @ ''c_proj.weight''" by simp
  then show "suffix ''c_proj.weight'' (p @ ''.mlp.c_proj.weight'')" by (rule suffixI)
qed (rule not_suffix_ending [where k = 9]; simp add: ending_def)+

lemma proj_suffix_matrix:
  assumes "m \<in> set matrices"
  shows "suffix ''c_proj.weight'' (p @ m @ ''.weight'') \<longleftrightarrow> m \<in> {''.attn.c_proj'', ''.mlp.c_proj''}"
proof -
  from assms consider "m = ''.attn.c_attn''" | "m = ''.attn.c_proj''" | "m = ''.mlp.c_fc''" | "m = ''.mlp.c_proj''"
    unfolding matrices_def by auto
  then show ?thesis using proj_suffix [of p] by cases simp_all
qed

lemma norm_not_proj: "m \<in> set norms \<Longrightarrow> \<not> suffix ''c_proj.weight'' (p @ m @ ''.weight'')"
  by (rule not_suffix_ending [where k = 9]; auto simp: norms_def ending_def)

lemma bias_not_proj: "\<not> suffix ''c_proj.weight'' (p @ m @ ''.bias'')"
  using not_suffix_ending [where k = 4 and x = "''.bias''" and p = "p @ m" and w = "''c_proj.weight''"]
  by (simp add: ending_def)

lemma weight_not_bias: "\<not> suffix ''.bias'' (p @ ''.weight'')"
  by (rule not_suffix_ending [where k = 5]) (simp_all add: ending_def)

text \<open>The norms are not among the tensors that \<open>_init_weights\<close> writes.\<close>

lemma written_endings:
  assumes "n \<in> weights_of (gpt_modules c)"
  shows "ending 9 n \<in> {''thgiew.et'', ''thgiew.ep'', ''thgiew.nt'', ''thgiew.jo'', ''thgiew.cf''}"
  using assms unfolding weights_of_gpt by (auto simp: ending_append) (simp_all add: ending_def)

lemma norm_not_written:
  assumes "m \<in> set norms"
  shows "block_name i @ m @ ''.weight'' \<notin> weights_of (gpt_modules c)"
proof -
  have "ending 9 (block_name i @ ''.ln_1.weight'') = ''thgiew.1_''" "ending 9 (block_name i @ ''.ln_2.weight'') = ''thgiew.2_''"
    by (subst ending_append; simp add: ending_def)+
  then show ?thesis
    using written_endings [of "block_name i @ m @ ''.weight''" c] assms unfolding norms_def by auto
qed

lemma last_norm_not_written: "''transformer.ln_f.weight'' \<notin> weights_of (gpt_modules c)"
  using written_endings [of "''transformer.ln_f.weight''" c] by (auto simp: ending_def)

lemma initial_laws_at:
  assumes "GPT N c = Inr ps" "initial_laws N c = Inr l" "n \<in> fst ` set ps"
  shows "l n = (if suffix ''c_proj.weight'' n then scaled_law (n_layer c)
     else if n \<in> weights_of (gpt_modules c) then Normal 0 (2/100)
     else if n \<in> biases_of (gpt_modules c) then Zeros else created c n)"
proof -
  have "l = scale_projections (n_layer c) ps (foldl init_weights (created c) (gpt_modules c))"
    using assms(1,2) by (simp add: initial_laws_def)
  with assms(3) show ?thesis by (simp add: scale_projections_law init_weights_law)
qed

lemma created_norm:
  assumes "m \<in> set (norm_modules c)"
  shows "created c (m @ ''.weight'') = Ones" "bias c \<Longrightarrow> created c (m @ ''.bias'') = Zeros"
proof -
  have "m @ ''.bias'' \<noteq> k @ ''.weight''" for k
    using tensor_not_bias [of k m] by (auto simp: tensor_of_def split: if_splits)
  then show "created c (m @ ''.weight'') = Ones" "bias c \<Longrightarrow> created c (m @ ''.bias'') = Zeros"
    using assms by (auto simp: created_def)
qed

lemma norm_modules_members:
  "i < n_layer c \<Longrightarrow> m \<in> set norms \<Longrightarrow> block_name i @ m \<in> set (norm_modules c)"
  "''transformer.ln_f'' \<in> set (norm_modules c)"
  by (auto simp: norm_modules_def norms_def)

lemma matrix_written:
  "i < n_layer c \<Longrightarrow> m \<in> set matrices \<Longrightarrow> block_name i @ m @ ''.weight'' \<in> weights_of (gpt_modules c)"
  "i < n_layer c \<Longrightarrow> m \<in> set matrices \<Longrightarrow> bias c \<Longrightarrow> block_name i @ m @ ''.bias'' \<in> biases_of (gpt_modules c)"
  unfolding weights_of_gpt biases_of_gpt matrices_def by auto

text \<open>Every parameter is a matrix, a bias or the weight of a norm.\<close>

lemma parameter_kinds:
  assumes "nn_documented N" "GPT N c = Inr ps" "(n, sh) \<in> set ps"
  obtains (matrix) "length sh = 2" "n \<in> weights_of (gpt_modules c)"
    | (bias) "length sh = 1" "n \<notin> weights_of (gpt_modules c)" "\<not> suffix ''c_proj.weight'' n" "suffix ''.bias'' n"
        "n \<in> biases_of (gpt_modules c) \<or> created c n = Zeros"
    | (norm) "length sh = 1" "n \<notin> weights_of (gpt_modules c)" "\<not> suffix ''c_proj.weight'' n" "\<not> suffix ''.bias'' n"
        "n \<notin> biases_of (gpt_modules c)" "created c n = Ones"
  using assms
proof (cases rule: gpt_parameters)
  case embedding
  then show thesis using matrix unfolding weights_of_gpt by blast
next
  case (matrix i m)
  then show thesis using that(1) matrix_written(1) by simp
next
  case (norm i m)
  show thesis
  proof (rule that(3))
    show "n \<notin> weights_of (gpt_modules c)" unfolding norm(3) by (rule norm_not_written [OF norm(2)])
    show "n \<notin> biases_of (gpt_modules c)" using not_bias [of "block_name i @ m"] unfolding norm(3) by simp
    show "\<not> suffix ''c_proj.weight'' n" "\<not> suffix ''.bias'' n" "created c n = Ones"
      using norm_not_proj [OF norm(2)] weight_not_bias [of "block_name i @ m"]
        created_norm(1) [OF norm_modules_members(1) [OF norm(1,2)]] unfolding norm(3) by simp_all
  qed (rule norm(4))
next
  case (bias i m)
  have whole: "n = (block_name i @ m) @ ''.bias''" using bias(4) by simp
  show thesis
  proof (rule that(2))
    show "n \<notin> weights_of (gpt_modules c)" unfolding whole by (rule not_weight)
    show "\<not> suffix ''c_proj.weight'' n" unfolding bias(4) by (rule bias_not_proj)
    show "suffix ''.bias'' n" unfolding whole by (rule suffixI) (rule refl)
    show "n \<in> biases_of (gpt_modules c) \<or> created c n = Zeros"
    proof (cases "m \<in> set matrices")
      case True
      from matrix_written(2) [OF bias(1) True bias(2)] show ?thesis unfolding bias(4) by (rule disjI1)
    next
      case False
      with bias(3) have "m \<in> set norms" by blast
      from created_norm(2) [OF norm_modules_members(1) [OF bias(1) this] bias(2)] show ?thesis
        unfolding whole by (rule disjI2)
    qed
  qed (rule bias(5))
next
  case last_norm
  have "\<not> suffix ''c_proj.weight'' ''transformer.ln_f.weight''" "\<not> suffix ''.bias'' ''transformer.ln_f.weight''"
    by code_simp+
  moreover have "''transformer.ln_f.weight'' \<notin> biases_of (gpt_modules c)"
    using not_bias [of "''transformer.ln_f''"] by (simp add: tensor_of_def)
  moreover have "created c ''transformer.ln_f.weight'' = Ones"
    using created_norm(1) [OF norm_modules_members(2)] by simp
  ultimately show thesis using that(3) last_norm last_norm_not_written by blast
next
  case last_bias
  have "\<not> suffix ''c_proj.weight'' ''transformer.ln_f.bias''" "suffix ''.bias'' ''transformer.ln_f.bias''"
    by code_simp+
  moreover have "''transformer.ln_f.bias'' \<notin> weights_of (gpt_modules c)"
    using not_weight [of "''transformer.ln_f''"] by simp
  moreover have "created c ''transformer.ln_f.bias'' = Zeros"
    using created_norm(2) [OF norm_modules_members(2) last_bias(1)] by simp
  ultimately show thesis using that(2) last_bias by blast
qed

lemma parameter_law:
  assumes "nn_documented N" "GPT N c = Inr ps" "initial_laws N c = Inr l" "(n, sh) \<in> set ps"
  shows "l n = (if suffix ''c_proj.weight'' n then scaled_law (n_layer c)
     else if length sh = 2 then Normal 0 (2/100) else if suffix ''.bias'' n then Zeros else Ones)"
proof -
  have "n \<in> fst ` set ps" using assms(4) by force
  note at = initial_laws_at [OF assms(2,3) this]
  from assms(1,2,4) show ?thesis by (cases rule: parameter_kinds) (auto simp: at)
qed

section \<open>Properties\<close>

text \<open>C31: No parameter of a new model keeps the value PyTorch gave it: the residual projections get the scaled
  normal distribution, the other matrices and embeddings the standard deviation 0.02, biases are zero
  and the weights of the norms one; the head has the law of the token embedding, its own tensor.\<close>

theorem initial_weights:
  assumes "nn_documented N" "GPT N c = Inr ps"
  shows "\<exists>l. initial_laws N c = Inr l \<and> l (tensor_of ''lm_head.weight'') = Normal 0 (2/100) \<and>
     (\<forall>(n, sh) \<in> set ps. l n =
        (if suffix ''c_proj.weight'' n then Normal 0 (2/100 / sqrt (2 * real (n_layer c)))
         else if length sh = 2 then Normal 0 (2/100)
         else if suffix ''.bias'' n then Zeros else Ones))"
proof -
  obtain l where l: "initial_laws N c = Inr l" using assms(2) by (simp add: initial_laws_def)
  note law = parameter_law [OF assms l]
  have "(''transformer.wte.weight'', [vocab_size c, n_embd c]) \<in> set ps" using assms by (auto simp: GPT_eq)
  moreover have "\<not> suffix ''c_proj.weight'' ''transformer.wte.weight''" by code_simp
  ultimately have "l (tensor_of ''lm_head.weight'') = Normal 0 (2/100)"
    using law by (simp add: tensor_of_def del: suffix_Cons)
  with l law show ?thesis unfolding scaled_law_def by blast
qed

theorem initial_weights_witness:
  "\<exists>l. initial_laws sample_nn gpt2_config = Inr l \<and> l ''transformer.wte.weight'' = Normal 0 (2/100)"
proof -
  have "Block sample_nn gpt2_config \<noteq> Inl e" for e
    using Block_ok_iff [of sample_nn gpt2_config] by (auto simp: gpt2_config_def)
  then obtain b where "Block sample_nn gpt2_config = Inr b" by (cases "Block sample_nn gpt2_config") auto
  then obtain ps where ps: "GPT sample_nn gpt2_config = Inr ps"
    by (auto simp: GPT_eq [OF sample_nn_documented])
  from initial_weights [OF sample_nn_documented ps] show ?thesis by (auto simp: tensor_of_def)
qed

end
