(* ===== verification/Gpt_Model.thy ===== *)
theory Gpt_Model
  imports Gpt_Params
begin

text \<open>
  The forward pass and the text generation of \<open>compute-engine/user_code/model.py\<close> on one sequence (a
  batch handles its rows independently).  A layer with weights is the function it computes on one
  position; the numeric operations that look at several positions are parameters with their
  documented behaviour.  Dropout is left out: its rate is zero in every configuration here.
\<close>

type_synonym vec = "real list"

text \<open>
  \<open>softmax\<close> of a row of scores in which \<open>None\<close> is minus infinity, the scalar product of a row and a
  column, a row of weights times a matrix, and the fused attention of newer PyTorch versions.
\<close>

record att_lib =
  softmax :: "real option list \<Rightarrow> vec"
  dot :: "vec \<Rightarrow> vec \<Rightarrow> real"
  weighted_sum :: "vec \<Rightarrow> vec list \<Rightarrow> vec"
  fused_attention :: "vec list \<Rightarrow> vec list \<Rightarrow> vec list \<Rightarrow> vec list"

record attention_mod =
  c_attn :: "vec \<Rightarrow> vec"
  att_proj :: "vec \<Rightarrow> vec"
  flash :: bool

record block_mod =
  ln_1 :: "vec \<Rightarrow> vec"
  attn :: attention_mod
  ln_2 :: "vec \<Rightarrow> vec"
  c_fc :: "vec \<Rightarrow> vec"
  gelu :: "vec \<Rightarrow> vec"
  mlp_proj :: "vec \<Rightarrow> vec"

record gpt_mod =
  config :: GPTConfig
  wte :: "vec list"
  wpe :: "vec list"
  h :: "block_mod list"
  ln_f :: "vec \<Rightarrow> vec"
  lm_head :: "vec \<Rightarrow> vec"

section \<open>Forward pass\<close>

definition add_vec :: "vec \<Rightarrow> vec \<Rightarrow> vec" where
  "add_vec = map2 (+)"

definition add_seq :: "vec list \<Rightarrow> vec list \<Rightarrow> vec list" where
  "add_seq = map2 add_vec"

text \<open>The scores of position \<open>i\<close>: later positions are masked.\<close>

definition masked_scores :: "att_lib \<Rightarrow> vec list \<Rightarrow> vec list \<Rightarrow> nat \<Rightarrow> real option list" where
  "masked_scores A q k i =
     map (\<lambda>j. if j \<le> i then Some (dot A (q ! i) (k ! j) * (1 / sqrt (of_nat (length (k ! j))))) else None)
       [0..<length k]"

definition attend :: "att_lib \<Rightarrow> bool \<Rightarrow> vec list \<Rightarrow> vec list \<Rightarrow> vec list \<Rightarrow> vec list" where
  "attend A fl q k v =
     (if fl then fused_attention A q k v
      else map (\<lambda>i. weighted_sum A (softmax A (masked_scores A q k i)) v) [0..<length q])"

text \<open>The part of each row that belongs to head \<open>n\<close> of the third starting at \<open>off\<close>.\<close>

definition head_slice :: "nat \<Rightarrow> nat \<Rightarrow> nat \<Rightarrow> vec list \<Rightarrow> vec list" where
  "head_slice off hs n = map (\<lambda>r. take hs (drop (off + n * hs) r))"

definition attention_forward :: "att_lib \<Rightarrow> GPTConfig \<Rightarrow> attention_mod \<Rightarrow> vec list \<Rightarrow> vec list" where
  "attention_forward A c m x =
     (let qkv = map (c_attn m) x;
          hs = n_embd c div n_head c;
          heads = map (\<lambda>n. attend A (flash m) (head_slice 0 hs n qkv) (head_slice (n_embd c) hs n qkv)
                                   (head_slice (2 * n_embd c) hs n qkv)) [0..<n_head c];
          y = map (\<lambda>t. concat (map (\<lambda>hd. hd ! t) heads)) [0..<length x]
      in map (att_proj m) y)"

definition mlp_forward :: "block_mod \<Rightarrow> vec \<Rightarrow> vec" where
  "mlp_forward b x = mlp_proj b (gelu b (c_fc b x))"

definition block_forward :: "att_lib \<Rightarrow> GPTConfig \<Rightarrow> block_mod \<Rightarrow> vec list \<Rightarrow> vec list" where
  "block_forward A c b x =
     (let x1 = add_seq x (attention_forward A c (attn b) (map (ln_1 b) x))
      in add_seq x1 (map (mlp_forward b) (map (ln_2 b) x1)))"

text \<open>Looking up an embedding needs a number of one of its rows.\<close>

definition embed :: "vec list \<Rightarrow> nat list \<Rightarrow> vec list result" where
  "embed table ix = res_mapM (\<lambda>i. if i < length table then Inr (table ! i) else Inl IndexError) ix"

definition hidden :: "att_lib \<Rightarrow> gpt_mod \<Rightarrow> nat list \<Rightarrow> vec list result" where
  "hidden A m idx =
     (let t = length idx in
      if \<not> t \<le> block_size (config m) then Inl AssertionError
      else res_bind (embed (wte m) idx) (\<lambda>tok_emb.
           res_bind (embed (wpe m) [0..<t]) (\<lambda>pos_emb.
             let x = fold (block_forward A (config m)) (h m) (add_seq tok_emb pos_emb)
             in Inr (map (ln_f m) x))))"

text \<open>With targets: the logits of every position.  Without: those of the last one.\<close>

definition forward_train :: "att_lib \<Rightarrow> gpt_mod \<Rightarrow> nat list \<Rightarrow> vec list result" where
  "forward_train A m idx = res_bind (hidden A m idx) (\<lambda>x. Inr (map (lm_head m) x))"

definition forward_infer :: "att_lib \<Rightarrow> gpt_mod \<Rightarrow> nat list \<Rightarrow> vec result" where
  "forward_infer A m idx = res_bind (hidden A m idx) (\<lambda>x.
     if x = [] then Inl IndexError else Inr (lm_head m (last x)))"

text \<open>
  The documented behaviour: minus infinity gets weight zero and does not influence the other weights,
  weights of zero do not contribute, and the fused operation computes the same as the written-out one.
\<close>

definition att_documented :: "att_lib \<Rightarrow> bool" where
  "att_documented A \<longleftrightarrow>
     (\<forall>xs n. length (softmax A xs) = length xs \<and>
        softmax A (xs @ replicate n None) = softmax A xs @ replicate n 0) \<and>
     (\<forall>ws n vs us. length ws = length vs \<longrightarrow> length us = n \<longrightarrow>
        weighted_sum A (ws @ replicate n 0) (vs @ us) = weighted_sum A ws vs) \<and>
     (\<forall>q k v. fused_attention A q k v =
        map (\<lambda>i. weighted_sum A (softmax A (masked_scores A q k i)) v) [0..<length q])"

section \<open>Causality\<close>

text \<open>
  A map on sequences is causal when the results for a prefix do not depend on what follows.
\<close>

definition causal :: "('a list \<Rightarrow> 'b list) \<Rightarrow> bool" where
  "causal f \<longleftrightarrow> (\<forall>x z. length (f x) = length x \<and> take (length x) (f (x @ z)) = f x)"

lemma causalD: "causal f \<Longrightarrow> length (f x) = length x" "causal f \<Longrightarrow> take (length x) (f (x @ z)) = f x"
  by (simp_all add: causal_def)

lemma causal_map: "causal (map f)"
  by (simp add: causal_def)

lemma causal_comp: "causal f \<Longrightarrow> causal g \<Longrightarrow> causal (\<lambda>x. g (f x))"
proof -
  assume f: "causal f" and g: "causal g"
  have "take (length x) (g (f (x @ z))) = g (f x)" for x z
  proof -
    have "f (x @ z) = f x @ drop (length x) (f (x @ z))"
      using causalD(2) [OF f, of x z] by (metis append_take_drop_id)
    then show ?thesis
      using causalD(2) [OF g, of "f x"] causalD(1) [OF f, of x] by metis
  qed
  with f g show ?thesis by (simp add: causal_def)
qed

lemma causal_add: "causal f \<Longrightarrow> causal (\<lambda>x. add_seq x (f x))"
proof -
  assume f: "causal f"
  have "take (length x) (add_seq (x @ z) (f (x @ z))) = add_seq x (f x)" for x z
    using causalD(2) [OF f, of x z] by (simp add: add_seq_def take_map take_zip)
  then show ?thesis using causalD(1) [OF f] by (simp add: causal_def add_seq_def)
qed

lemma causal_fold: "(\<And>b. b \<in> set bs \<Longrightarrow> causal (f b)) \<Longrightarrow> causal (fold f bs)"
proof (induction bs)
  case Nil
  then show ?case by (simp add: causal_def)
next
  case (Cons b bs)
  then have "causal (\<lambda>x. fold f bs (f b x))"
    by (intro causal_comp [of "f b" "fold f bs"]) simp_all
  then show ?case by (simp add: comp_def)
qed

lemma masked_scores_append:
  assumes "i < length k" "i < length q"
  shows "masked_scores A (q @ q') (k @ k') i = masked_scores A q k i @ replicate (length k') None"
proof (rule nth_equalityI)
  fix j assume "j < length (masked_scores A (q @ q') (k @ k') i)"
  then have "j < length k + length k'" by (simp add: masked_scores_def)
  with assms show "masked_scores A (q @ q') (k @ k') i ! j =
      (masked_scores A q k i @ replicate (length k') None) ! j"
    by (cases "j < length k") (simp_all add: masked_scores_def nth_append del: upt_Suc)
qed (simp add: masked_scores_def)

lemma attend_written_out:
  "att_documented A \<Longrightarrow> attend A fl q k v =
     map (\<lambda>i. weighted_sum A (softmax A (masked_scores A q k i)) v) [0..<length q]"
  by (simp add: attend_def att_documented_def)

lemma attend_append:
  assumes A: "att_documented A" and "length q = n" "length k = n" "length v = n" "length k' = length v'"
  shows "take n (attend A fl (q @ q') (k @ k') (v @ v')) = attend A fl q k v"
proof -
  have "weighted_sum A (softmax A (masked_scores A (q @ q') (k @ k') i)) (v @ v') =
      weighted_sum A (softmax A (masked_scores A q k i)) v" if "i < n" for i
  proof -
    have "length (softmax A (masked_scores A q k i)) = length v"
      using A assms by (simp add: att_documented_def masked_scores_def)
    then show ?thesis
      using A that assms by (simp add: masked_scores_append att_documented_def)
  qed
  then show ?thesis
    using assms by (simp add: attend_written_out [OF A] take_map take_upt)
qed

lemma attention_causal:
  assumes A: "att_documented A"
  shows "causal (attention_forward A c m)"
proof -
  have len: "length (attend A fl q k v) = length q" for fl q k v
    by (simp add: attend_written_out [OF A])
  have step: "attend A (flash m) (head_slice a hs n (qkv @ r)) (head_slice b hs n (qkv @ r))
      (head_slice d hs n (qkv @ r)) ! t =
     attend A (flash m) (head_slice a hs n qkv) (head_slice b hs n qkv) (head_slice d hs n qkv) ! t"
    if "t < length qkv" for a b d hs n qkv r t
  proof -
    have "take (length qkv) (attend A (flash m) (head_slice a hs n (qkv @ r)) (head_slice b hs n (qkv @ r))
      (head_slice d hs n (qkv @ r))) =
      attend A (flash m) (head_slice a hs n qkv) (head_slice b hs n qkv) (head_slice d hs n qkv)"
      unfolding head_slice_def map_append by (rule attend_append [OF A]) simp_all
    with that show ?thesis by (metis nth_take)
  qed
  show ?thesis
    unfolding causal_def
    by (auto simp: attention_forward_def Let_def take_map take_upt step comp_def)
qed

lemma block_causal:
  assumes "att_documented A"
  shows "causal (block_forward A c b)"
proof -
  have "causal (\<lambda>x. add_seq x (attention_forward A c (attn b) (map (ln_1 b) x)))"
    by (rule causal_add [OF causal_comp [OF causal_map attention_causal [OF assms]]])
  moreover have "causal (\<lambda>x. add_seq x (map (mlp_forward b) (map (ln_2 b) x)))"
    by (rule causal_add [OF causal_comp [OF causal_map causal_map]])
  ultimately show ?thesis
    unfolding block_forward_def Let_def by (rule causal_comp)
qed

section \<open>The model\<close>

lemma embed_append:
  "embed tab (xs @ ys) = res_bind (embed tab xs) (\<lambda>us. res_bind (embed tab ys) (\<lambda>vs. Inr (us @ vs)))"
proof (induction xs)
  case Nil
  show ?case by (cases "embed tab ys") (simp_all add: embed_def)
next
  case (Cons x xs)
  then show ?case
    by (cases "embed tab xs"; cases "embed tab ys") (simp_all add: embed_def)
qed

lemma embed_length: "embed tab xs = Inr us \<Longrightarrow> length us = length xs"
  by (auto simp: embed_def res_mapM_Inr_iff dest: list_all2_lengthD)

lemma embed_total: "(\<forall>i \<in> set xs. i < length tab) \<Longrightarrow> embed tab xs = Inr (map ((!) tab) xs)"
  unfolding embed_def by (rule res_mapM_total) simp

definition well_formed :: "gpt_mod \<Rightarrow> bool" where
  "well_formed m \<longleftrightarrow> length (wte m) = vocab_size (config m) \<and> length (wpe m) = block_size (config m)"

definition hidden_ok :: "att_lib \<Rightarrow> gpt_mod \<Rightarrow> nat list \<Rightarrow> vec list" where
  "hidden_ok A m idx = map (ln_f m) (fold (block_forward A (config m)) (h m)
     (add_seq (map ((!) (wte m)) idx) (map ((!) (wpe m)) [0..<length idx])))"

lemma hidden_total:
  assumes "well_formed m" "length idx \<le> block_size (config m)" "\<forall>i \<in> set idx. i < vocab_size (config m)"
  shows "hidden A m idx = Inr (hidden_ok A m idx)"
  using assms by (simp add: hidden_def hidden_ok_def well_formed_def embed_total Let_def del: upt_Suc)

lemma hidden_too_long: "block_size (config m) < length idx \<Longrightarrow> hidden A m idx = Inl AssertionError"
  by (simp add: hidden_def)

lemma hidden_ok_causal:
  assumes A: "att_documented A"
  shows "causal (hidden_ok A m)"
proof -
  let ?f = "\<lambda>x. map (ln_f m) (fold (block_forward A (config m)) (h m) x)"
  have f: "causal ?f"
    by (rule causal_comp [OF causal_fold causal_map]) (rule block_causal [OF A])
  have "causal (\<lambda>idx. add_seq (map ((!) (wte m)) idx) (map ((!) (wpe m)) [0..<length idx]))"
    by (auto simp: causal_def add_seq_def take_map take_zip take_upt simp del: upt_Suc)
  from causal_comp [OF this f] show ?thesis
    unfolding hidden_ok_def .
qed

section \<open>Properties\<close>

text \<open>C13: The model is causal, and inference is training at the last position: on a sequence no longer than the
  block and within the vocabulary there is one row of logits per position; the rows of a prefix are the
  same whatever tokens follow it; and without targets the logits are the last of these rows.  A longer
  sequence is refused.\<close>

theorem gpt_causal:
  assumes "att_documented A" "well_formed m" "xs \<noteq> []"
    and "length (xs @ zs) \<le> block_size (config m)" "\<forall>i \<in> set (xs @ zs). i < vocab_size (config m)"
  shows "\<exists>rows more. forward_train A m xs = Inr rows \<and> length rows = length xs \<and>
     forward_train A m (xs @ zs) = Inr (rows @ more) \<and> length more = length zs \<and>
     forward_infer A m xs = Inr (last rows) \<and>
     (\<forall>ys. block_size (config m) < length ys \<longrightarrow> forward_train A m ys = Inl AssertionError)"
proof -
  let ?h = "hidden_ok A m"
  note c = hidden_ok_causal [OF assms(1), of m]
  have xs: "hidden A m xs = Inr (?h xs)" and both: "hidden A m (xs @ zs) = Inr (?h (xs @ zs))"
    by (rule hidden_total [OF assms(2)]; use assms(4,5) in simp)+
  have len: "length (?h xs) = length xs" "length (?h (xs @ zs)) = length xs + length zs"
    using causalD(1) [OF c] by simp_all
  have "?h (xs @ zs) = ?h xs @ drop (length xs) (?h (xs @ zs))"
    using causalD(2) [OF c, of xs zs] by (metis append_take_drop_id)
  then have "map (lm_head m) (?h (xs @ zs)) =
      map (lm_head m) (?h xs) @ map (lm_head m) (drop (length xs) (?h (xs @ zs)))"
    by (metis map_append)
  moreover have "?h xs \<noteq> []" using len(1) assms(3) by auto
  ultimately show ?thesis
    using len by (intro exI [of _ "map (lm_head m) (?h xs)"]
        exI [of _ "map (lm_head m) (drop (length xs) (?h (xs @ zs)))"])
      (simp add: forward_train_def forward_infer_def xs both hidden_too_long last_map)
qed

text \<open>A small model for the witnesses: two tokens, blocks of two, one block of attention.\<close>

definition sample_att :: att_lib where
  "sample_att =
     (let sm = (\<lambda>xs. map (\<lambda>x. case x of None \<Rightarrow> 0 | Some r \<Rightarrow> 1) xs);
          ws = (\<lambda>w vs. [sum_list (map2 (\<lambda>a v. a * hd v) w vs)])
      in \<lparr>softmax = sm, dot = (\<lambda>a b. 0), weighted_sum = ws,
          fused_attention = (\<lambda>q k v. map (\<lambda>i. ws (map (\<lambda>j. if j \<le> i then 1 else 0) [0..<length k]) v) [0..<length q])\<rparr>)"

lemma sample_att_documented: "att_documented sample_att"
proof -
  have att: "masked_scores A q k i = map (\<lambda>j. if j \<le> i then Some (dot A (q ! i) (k ! j) * (1 / sqrt (of_nat (length (k ! j))))) else None)
       [0..<length k]" for A q k i
    by (simp add: masked_scores_def)
  have "map (\<lambda>x. case x of None \<Rightarrow> 0 :: real | Some r \<Rightarrow> 1) (masked_scores A q k i) =
      map (\<lambda>j. if j \<le> i then 1 else 0) [0..<length k]" for A q k i
    by (simp add: att comp_def if_distrib [of "case_option 0 (\<lambda>r. 1)"] del: upt_Suc)
  then show ?thesis
    by (simp add: att_documented_def sample_att_def Let_def map_replicate_const zip_append
        sum_list_replicate zip_replicate1 comp_def case_prod_beta)
qed

definition sample_gpt :: gpt_mod where
  "sample_gpt = \<lparr>config = \<lparr>block_size = 2, vocab_size = 3, n_layer = 1, n_head = 1, n_embd = 1, bias = False\<rparr>,
     wte = [[1], [2], [3]], wpe = [[0], [1]],
     h = [\<lparr>ln_1 = id, attn = \<lparr>c_attn = (\<lambda>x. x @ x @ x), att_proj = id, flash = False\<rparr>, ln_2 = id,
           c_fc = id, gelu = id, mlp_proj = id\<rparr>],
     ln_f = id, lm_head = (\<lambda>x. [hd x, 0, - hd x])\<rparr>"

lemma sample_gpt_well_formed: "well_formed sample_gpt"
  by (simp add: well_formed_def sample_gpt_def)

theorem gpt_causal_witness:
  "\<exists>rows more. forward_train sample_att sample_gpt [2] = Inr rows \<and> length rows = 1 \<and>
     forward_train sample_att sample_gpt [2, 0] = Inr (rows @ more) \<and> length more = 1"
proof -
  have "[2 :: nat] \<noteq> []" "length ([2 :: nat] @ [0]) \<le> block_size (config sample_gpt)"
    "\<forall>i \<in> set ([2] @ [0]). i < vocab_size (config sample_gpt)"
    by (simp_all add: sample_gpt_def)
  from gpt_causal [OF sample_att_documented sample_gpt_well_formed this] show ?thesis by auto
qed

section \<open>Generation\<close>

lemma length_block_forward [simp]: "length (block_forward A c b x) = length x"
  by (simp add: block_forward_def attention_forward_def add_seq_def Let_def)

lemma length_hidden_ok: "length (hidden_ok A m idx) = length idx"
proof -
  have "length (fold (block_forward A c) bs x) = length x" for c bs x
    by (induction bs arbitrary: x) simp_all
  then show ?thesis by (simp add: hidden_ok_def add_seq_def)
qed

text \<open>
  \<open>kth\<close> is the last value \<open>torch.topk\<close> returns, \<open>draw\<close> the sample of \<open>torch.multinomial\<close> after
  \<open>softmax\<close> of the step at which the sequence has the given length.
\<close>

record sampler =
  kth :: "nat \<Rightarrow> vec \<Rightarrow> real"
  draw :: "nat \<Rightarrow> real option list \<Rightarrow> nat"

text \<open>
  Dividing by a temperature of zero gives infinities, on which the sampling raises; asking for the top
  zero gives no value to compare with.
\<close>

definition scale_logits :: "real \<Rightarrow> vec \<Rightarrow> vec result" where
  "scale_logits temperature l =
     (if temperature = 0 then Inl RuntimeError else Inr (map (\<lambda>x. x / temperature) l))"

definition crop_logits :: "sampler \<Rightarrow> nat option \<Rightarrow> vec \<Rightarrow> real option list result" where
  "crop_logits S top_k l = (case top_k of
       None \<Rightarrow> Inr (map Some l)
     | Some k \<Rightarrow>
         if min k (length l) = 0 then Inl IndexError
         else let v = kth S (min k (length l)) l
              in Inr (map (\<lambda>x. if x < v then None else Some x) l))"

definition context_of :: "gpt_mod \<Rightarrow> nat list \<Rightarrow> nat list" where
  "context_of m idx =
     (if length idx \<le> block_size (config m) then idx
      else drop (length idx - block_size (config m)) idx)"

primrec generate ::
  "att_lib \<Rightarrow> sampler \<Rightarrow> gpt_mod \<Rightarrow> nat \<Rightarrow> real \<Rightarrow> nat option \<Rightarrow> nat list \<Rightarrow> nat list result" where
  "generate A S m 0 temperature top_k idx = Inr idx"
| "generate A S m (Suc n) temperature top_k idx =
     res_bind (forward_infer A m (context_of m idx)) (\<lambda>logits.
     res_bind (scale_logits temperature logits) (\<lambda>scaled.
     res_bind (crop_logits S top_k scaled) (\<lambda>cropped.
       generate A S m n temperature top_k (idx @ [draw S (length idx) cropped]))))"

text \<open>
  \<open>topk\<close> finds a value of the row with fewer than \<open>k\<close> larger ones; \<open>multinomial\<close> never draws a token
  of probability zero.
\<close>

definition sampler_documented :: "sampler \<Rightarrow> bool" where
  "sampler_documented S \<longleftrightarrow>
     (\<forall>k l. 0 < k \<and> k \<le> length l \<longrightarrow> kth S k l \<in> set l \<and> length (filter (\<lambda>x. x > kth S k l) l) < k) \<and>
     (\<forall>n l. (\<exists>x. Some x \<in> set l) \<longrightarrow> draw S n l < length l \<and> l ! draw S n l \<noteq> None)"

lemma larger_count_le:
  "v \<le> w \<Longrightarrow> length (filter (\<lambda>x. x > w) l) \<le> length (filter (\<lambda>x. x > (v :: real)) l)"
  by (induction l) auto

lemma crop_total: "l \<noteq> [] \<Longrightarrow> top_k \<noteq> Some 0 \<Longrightarrow> \<exists>cr. crop_logits S top_k l = Inr cr"
  by (cases top_k) (auto simp: crop_logits_def Let_def)

lemma crop_draw:
  assumes S: "sampler_documented S" and "l \<noteq> []" "top_k \<noteq> Some 0" "crop_logits S top_k l = Inr cr"
  shows "draw S n cr < length l"
    and "\<forall>k. top_k = Some k \<longrightarrow> length (filter (\<lambda>x. x > l ! draw S n cr) l) < k"
proof -
  have drawn: "draw S n l < length l \<and> l ! draw S n l \<noteq> None" if "Some x \<in> set l" for x n l
    using S that unfolding sampler_documented_def by blast
  have "draw S n cr < length l \<and>
     (\<forall>k. top_k = Some k \<longrightarrow> length (filter (\<lambda>x. x > l ! draw S n cr) l) < k)"
  proof (cases top_k)
    case None
    with assms(4) have cr: "cr = map Some l" by (simp add: crop_logits_def)
    with assms(2) have "Some (hd l) \<in> set cr" by (cases l) auto
    from drawn [OF this, of n] cr None show ?thesis by simp
  next
    case (Some k)
    let ?k = "min k (length l)" let ?v = "kth S ?k l"
    have k: "0 < ?k" "?k \<le> length l" using Some assms(2,3) by auto
    then have kth: "?v \<in> set l" "length (filter (\<lambda>x. x > ?v) l) < ?k"
      using S unfolding sampler_documented_def by blast+
    have cr: "cr = map (\<lambda>x. if x < ?v then None else Some x) l"
      using assms(4) Some k by (auto simp: crop_logits_def Let_def)
    then have "Some ?v \<in> set cr" using kth(1) by force
    from drawn [OF this, of n] have d: "draw S n cr < length l" "?v \<le> l ! draw S n cr"
      by (auto simp: cr split: if_splits)
    from larger_count_le [OF d(2), of l] kth(2) Some d(1) show ?thesis by simp
  qed
  then show "draw S n cr < length l"
    "\<forall>k. top_k = Some k \<longrightarrow> length (filter (\<lambda>x. x > l ! draw S n cr) l) < k" by blast+
qed

text \<open>C39: Generation never trips over the block size: from a non-empty sequence of tokens it returns the sequence
  extended by exactly the number of tokens asked for, all in the vocabulary, each drawn from the logits of
  the last block of what precedes it, and with \<open>top_k\<close> each with fewer than \<open>top_k\<close> tokens above it.\<close>

theorem generate_extends:
  assumes "well_formed m" "0 < block_size (config m)" "0 < vocab_size (config m)"
    and "\<forall>x. length (lm_head m x) = vocab_size (config m)" "sampler_documented S"
    and "0 < temperature" "top_k \<noteq> Some 0"
    and "idx \<noteq> []" "\<forall>i \<in> set idx. i < vocab_size (config m)"
  shows "\<exists>new. generate A S m n temperature top_k idx = Inr (idx @ new) \<and> length new = n \<and>
     (\<forall>i < n. new ! i < vocab_size (config m) \<and>
        (\<exists>logits. forward_infer A m (context_of m (idx @ take i new)) = Inr logits \<and>
           length logits = vocab_size (config m) \<and>
           (\<forall>k. top_k = Some k \<longrightarrow> length (filter (\<lambda>x. x > logits ! (new ! i)) logits) < k)))"
  using assms(8,9)
proof (induction n arbitrary: idx)
  case 0
  then show ?case by simp
next
  case (Suc n)
  let ?c = "context_of m idx"
  have ctx: "?c \<noteq> []" "length ?c \<le> block_size (config m)" "\<forall>i \<in> set ?c. i < vocab_size (config m)"
    using Suc.prems assms(2) by (auto simp: context_of_def dest: in_set_dropD)
  have hid: "hidden A m ?c = Inr (hidden_ok A m ?c)"
    by (rule hidden_total [OF assms(1) ctx(2,3)])
  have "hidden_ok A m ?c \<noteq> []" using ctx(1) length_hidden_ok [of A m ?c] by auto
  with hid obtain logits
    where logits: "forward_infer A m ?c = Inr logits" "length logits = vocab_size (config m)"
    using assms(4) by (auto simp: forward_infer_def)
  let ?scaled = "map (\<lambda>x. x / temperature) logits"
  have some: "?scaled \<noteq> []" using logits(2) assms(3) by auto
  obtain cr where cr: "crop_logits S top_k ?scaled = Inr cr"
    using crop_total [OF some assms(7)] by blast
  let ?t = "draw S (length idx) cr"
  note drawn = crop_draw [OF assms(5) some assms(7) cr, of "length idx"]
  then have t: "?t < vocab_size (config m)" by (simp add: logits(2))
  have "length (filter (\<lambda>x. x > logits ! ?t) logits) = length (filter (\<lambda>x. x > ?scaled ! ?t) ?scaled)"
    using drawn(1) assms(6) by (simp add: filter_map comp_def divide_less_cancel)
  with drawn(2) have top: "\<forall>k. top_k = Some k \<longrightarrow> length (filter (\<lambda>x. x > logits ! ?t) logits) < k" by simp
  from Suc.IH [of "idx @ [?t]"] Suc.prems t obtain new
    where new: "generate A S m n temperature top_k (idx @ [?t]) = Inr ((idx @ [?t]) @ new)" "length new = n"
      and each: "\<forall>i < n. new ! i < vocab_size (config m) \<and>
        (\<exists>logits. forward_infer A m (context_of m ((idx @ [?t]) @ take i new)) = Inr logits \<and>
           length logits = vocab_size (config m) \<and>
           (\<forall>k. top_k = Some k \<longrightarrow> length (filter (\<lambda>x. x > logits ! (new ! i)) logits) < k))"
    by auto
  have "generate A S m (Suc n) temperature top_k idx = Inr (idx @ ?t # new)"
    using logits(1) assms(6) cr new(1) by (simp add: scale_logits_def)
  moreover have "(?t # new) ! i < vocab_size (config m) \<and>
      (\<exists>logits. forward_infer A m (context_of m (idx @ take i (?t # new))) = Inr logits \<and>
         length logits = vocab_size (config m) \<and>
         (\<forall>k. top_k = Some k \<longrightarrow> length (filter (\<lambda>x. x > logits ! ((?t # new) ! i)) logits) < k))"
    if "i < Suc n" for i
  proof (cases i)
    case 0
    with logits t top show ?thesis by auto
  next
    case (Suc j)
    with each that show ?thesis by simp
  qed
  ultimately show ?case using new(2) by (intro exI [of _ "?t # new"]) simp
qed

definition sample_sampler :: sampler where
  "sample_sampler = \<lparr>kth = (\<lambda>k l. rev (sort l) ! (k - 1)),
     draw = (\<lambda>n l. length (takeWhile (\<lambda>x. x = None) l))\<rparr>"

lemma larger_than_nth:
  assumes "sorted s" "i < length s"
  shows "length (filter (\<lambda>x. x > s ! i) s) < length s - i"
proof -
  have split: "s = take (Suc i) s @ drop (Suc i) s" by simp
  have "\<not> x > s ! i" if "x \<in> set (take (Suc i) s)" for x
  proof -
    from that obtain j where "j < Suc i" "x = s ! j" using assms(2) by (auto simp: in_set_conv_nth)
    with assms show ?thesis using sorted_nth_mono [of s j i] by simp
  qed
  then have "filter (\<lambda>x. x > s ! i) (take (Suc i) s) = []" by (auto simp: filter_empty_conv)
  then have "filter (\<lambda>x. x > s ! i) s = filter (\<lambda>x. x > s ! i) (drop (Suc i) s)"
    by (subst split) (simp only: filter_append append_Nil)
  then have "length (filter (\<lambda>x. x > s ! i) s) \<le> length s - Suc i"
    using length_filter_le [of "\<lambda>x. x > s ! i" "drop (Suc i) s"] by simp
  with assms(2) show ?thesis by simp
qed

lemma sample_sampler_documented: "sampler_documented sample_sampler"
  unfolding sampler_documented_def
proof (intro conjI allI impI)
  fix k :: nat and l :: vec assume k: "0 < k \<and> k \<le> length l"
  let ?i = "length l - k"
  have nth: "rev (sort l) ! (k - 1) = sort l ! ?i" using k by (cases k) (simp_all add: rev_nth)
  with k show "kth sample_sampler k l \<in> set l"
    by (simp add: sample_sampler_def) (metis diff_less length_sort less_le_trans nth_mem set_sort)
  have "length (filter (\<lambda>x. x > sort l ! ?i) (sort l)) < k"
  proof -
    have i: "?i < length (sort l)" "length (sort l) - ?i = k" using k by auto
    from larger_than_nth [OF sorted_sort i(1)] i(2) show ?thesis by simp
  qed
  moreover have "length (filter P (sort l)) = length (filter P l)" for P
    by (metis mset_filter mset_sort size_mset)
  ultimately show "length (filter (\<lambda>x. x > kth sample_sampler k l) l) < k"
    using nth by (simp add: sample_sampler_def)
next
  fix n :: nat and l :: "real option list" assume "\<exists>x. Some x \<in> set l"
  then have ex: "\<exists>y \<in> set l. y \<noteq> None" by auto
  then have "length (takeWhile (\<lambda>x. x = None) l) < length l"
    by (metis (mono_tags, lifting) length_takeWhile_le nat_less_le takeWhile_eq_take take_all_iff takeWhile_eq_all_conv le_refl)
  then show "draw sample_sampler n l < length l" "l ! draw sample_sampler n l \<noteq> None"
    using nth_length_takeWhile [of "\<lambda>x. x = None" l] by (simp_all add: sample_sampler_def)
qed

theorem generate_extends_witness:
  "\<exists>new. generate sample_att sample_sampler sample_gpt 5 (1 / 2) (Some 2) [0] = Inr ([0] @ new) \<and> length new = 5"
proof -
  have "0 < block_size (config sample_gpt)" "0 < vocab_size (config sample_gpt)"
    "\<forall>x. length (lm_head sample_gpt x) = vocab_size (config sample_gpt)"
    by (simp_all add: sample_gpt_def)
  note gen = generate_extends [OF sample_gpt_well_formed this sample_sampler_documented,
      of "1 / 2" "Some 2" "[0]" sample_att 5]
  have "\<forall>i \<in> set [0]. i < vocab_size (config sample_gpt)" by (simp add: sample_gpt_def)
  with gen show ?thesis by auto
qed

end
