(* ===== verification/Char_Dataset.thy ===== *)
theory Char_Dataset
  imports C4D_Prelude "HOL-Library.Word"
begin

text \<open>
  The preparation of the training data, \<open>workspace/prepare_shakespeare.py\<close>: download, character
  vocabulary, encoding as 16-bit tokens, split.  A text is a list of code points.  The download and
  NumPy's conversion to \<open>uint16\<close> are parameters; a binary file is the list of the numbers in it.
\<close>

type_synonym codepoint = nat

section \<open>A code for the elements of a list\<close>

text \<open>What decoding relies on: each element of \<open>A\<close> has a code that decodes to it.\<close>

locale codec =
  fixes enc :: "'a \<Rightarrow> 'b option"
    and dec :: "'b \<Rightarrow> 'a option"
    and A :: "'a set"
  assumes enc_dec: "x \<in> A \<Longrightarrow> \<exists>c. enc x = Some c \<and> dec c = Some x"
begin

lemma enc_total: "x \<in> A \<Longrightarrow> enc x \<noteq> None"
  using enc_dec by fastforce

lemma enc_inj: "x \<in> A \<Longrightarrow> y \<in> A \<Longrightarrow> enc x = enc y \<Longrightarrow> x = y"
  using enc_dec by (metis option.inject)

lemma decode_encoded:
  "set xs \<subseteq> A \<Longrightarrow> map (\<lambda>c. dec c) (map (\<lambda>x. the (enc x)) xs) = map Some xs"
  using enc_dec by (induction xs) force+

end

section \<open>Program\<close>

record meta =
  vocab_size :: nat
  itos :: "(nat, codepoint) dict"
  stoi :: "(codepoint, nat) dict"

text \<open>The files of \<open>data/shakespeare\<close>.\<close>

record dataset_dir =
  input_txt :: "codepoint list option"
  meta_pkl :: "meta option"
  train_bin :: "16 word list option"
  val_bin :: "16 word list option"

text \<open>A file opened for reading in text mode has its line ends translated.\<close>

fun universal_newlines :: "codepoint list \<Rightarrow> codepoint list" where
  "universal_newlines [] = []"
| "universal_newlines [c] = [if c = 13 then 10 else c]"
| "universal_newlines (c # d # cs) =
     (if c = 13 then 10 # universal_newlines (if d = 10 then cs else d # cs)
      else c # universal_newlines (d # cs))"

text \<open>\<open>requests.get(url)\<close> answers with a text, whatever its status, or raises.\<close>

definition download_shakespeare :: "codepoint list result \<Rightarrow> (dataset_dir, unit) py" where
  "download_shakespeare fetch =
     py_bind (py_get input_txt) (\<lambda>f.
       if f = None then
         py_bind (py_lift fetch) (\<lambda>chs. py_modify (\<lambda>s. s\<lparr>input_txt := Some chs\<rparr>))
       else py_return ())"

definition text_chars :: "codepoint list \<Rightarrow> codepoint list" where
  "text_chars chs = sort (remdups chs)"

text \<open>A dictionary comprehension stores its pairs one after the other.\<close>

definition dict_of :: "('k \<times> 'v) list \<Rightarrow> ('k, 'v) dict" where
  "dict_of kvs = fold (\<lambda>(k, v). dict_set k v) kvs []"

definition char_to_int :: "codepoint list \<Rightarrow> (codepoint, nat) dict" where
  "char_to_int cs = dict_of (map (\<lambda>(i, ch). (ch, i)) (zip [0..<length cs] cs))"

definition int_to_char :: "codepoint list \<Rightarrow> (nat, codepoint) dict" where
  "int_to_char cs = dict_of (zip [0..<length cs] cs)"

definition token_of :: "(codepoint, nat) dict \<Rightarrow> codepoint \<Rightarrow> nat result" where
  "token_of d ch = (case dict_get d ch of None \<Rightarrow> Inl (KeyError ''ch'') | Some i \<Rightarrow> Inr i)"

text \<open>\<open>int(n*0.9)\<close>\<close>

definition split_point :: "nat \<Rightarrow> nat" where
  "split_point n = nat (trunc_rat (of_nat n * (9 / 10)))"

definition prepare_shakespeare ::
  "codepoint list result \<Rightarrow> (nat list \<Rightarrow> 16 word list result) \<Rightarrow> (dataset_dir, unit) py" where
  "prepare_shakespeare fetch np_uint16 =
     py_bind (download_shakespeare fetch) (\<lambda>_.
     py_bind (py_get input_txt) (\<lambda>f. case f of
       None \<Rightarrow> py_raise FileNotFoundError
     | Some raw \<Rightarrow>
         let chs = universal_newlines raw; cs = text_chars chs; to_int = char_to_int cs in
         py_bind (py_modify (\<lambda>s. s\<lparr>meta_pkl :=
           Some \<lparr>vocab_size = length cs, itos = int_to_char cs, stoi = to_int\<rparr>\<rparr>)) (\<lambda>_.
         py_bind (py_lift (res_bind (res_mapM (token_of to_int) chs) np_uint16)) (\<lambda>data.
           let n = length data in
           py_seq (py_modify (\<lambda>s. s\<lparr>train_bin := Some (take (split_point n) data)\<rparr>))
                  (py_modify (\<lambda>s. s\<lparr>val_bin := Some (drop (split_point n) data)\<rparr>))))))"

text \<open>The token files by the paths they are written to.\<close>

definition open_dataset :: "dataset_dir \<Rightarrow> string \<Rightarrow> 16 word list result" where
  "open_dataset s filename =
     (let data_dir = path_join ''data'' ''shakespeare'';
          file = (if filename = path_join data_dir ''train.bin'' then train_bin s
                  else if filename = path_join data_dir ''val.bin'' then val_bin s else None)
      in case file of None \<Rightarrow> Inl FileNotFoundError | Some data \<Rightarrow> Inr data)"

text \<open>NumPy keeps the values that fit.\<close>

definition uint16_documented :: "(nat list \<Rightarrow> 16 word list result) \<Rightarrow> bool" where
  "uint16_documented np \<longleftrightarrow> (\<forall>ns. (\<forall>n \<in> set ns. n < 65536) \<longrightarrow> np ns = Inr (map of_nat ns))"

section \<open>The vocabulary\<close>

lemma split_point_eq: "split_point n = 9 * n div 10"
proof -
  have "\<lfloor>of_nat n * (9 / 10) :: rat\<rfloor> = int (9 * n div 10)"
  proof (rule floor_unique)
    have "10 * (9 * n div 10) \<le> 9 * n" "9 * n < 10 * (9 * n div 10) + 10" by linarith+
    then have "(of_nat (10 * (9 * n div 10)) :: rat) \<le> of_nat (9 * n)"
      "(of_nat (9 * n) :: rat) < of_nat (10 * (9 * n div 10) + 10)"
      by (simp_all only: of_nat_le_iff of_nat_less_iff)
    then show "of_int (int (9 * n div 10)) \<le> (of_nat n * (9 / 10) :: rat)"
      "(of_nat n * (9 / 10) :: rat) < of_int (int (9 * n div 10)) + 1"
      by simp_all
  qed
  moreover have "\<not> (of_nat n * (9 / 10) :: rat) < 0" by (simp add: not_less)
  ultimately show ?thesis by (simp add: split_point_def trunc_rat_def)
qed

lemma split_point_le: "split_point n \<le> n"
  by (simp add: split_point_eq)

lemma set_text_chars [simp]: "set (text_chars chs) = set chs"
  by (simp add: text_chars_def)

lemma distinct_text_chars [simp]: "distinct (text_chars chs)"
  by (simp add: text_chars_def)

lemma sorted_text_chars: "sorted (text_chars chs)"
  by (simp add: text_chars_def)

lemma length_text_chars: "length (text_chars chs) = card (set chs)"
  by (simp add: text_chars_def length_remdups_card_conv)

lemma dict_of_get: "distinct (map fst kvs) \<Longrightarrow> dict_get (dict_of kvs) k = map_of kvs k"
  by (simp add: dict_of_def dict.lookup_stores map_of_rev split: option.splits)

lemma int_to_char_get:
  "dict_get (int_to_char cs) i = (if i < length cs then Some (cs ! i) else None)"
proof (cases "i < length cs")
  case True
  then have "map_of (zip [0..<length cs] cs) ([0..<length cs] ! i) = Some (cs ! i)"
    by (intro map_of_zip_nth) simp_all
  with True show ?thesis by (simp add: int_to_char_def dict_of_get)
next
  case False
  then show ?thesis by (auto simp: int_to_char_def dict_of_get map_of_eq_None_iff dest: set_zip_leftD)
qed

lemma char_to_int_get:
  "distinct cs \<Longrightarrow> dict_get (char_to_int cs) ch = Some i \<longleftrightarrow> i < length cs \<and> cs ! i = ch"
proof -
  assume d: "distinct cs"
  have "map (\<lambda>(i, ch). (ch, i)) (zip [0..<length cs] cs) = zip cs [0..<length cs]"
    by (rule nth_equalityI) auto
  moreover have "map fst (zip cs [0..<length cs]) = cs" by simp
  ultimately show ?thesis
    using d by (auto simp: char_to_int_def dict_of_get in_set_zip
        dest!: map_of_SomeD intro!: map_of_is_SomeI)
qed

text \<open>The vocabulary is a code for the characters of its text.\<close>

interpretation vocab: codec "dict_get (char_to_int (text_chars chs))"
    "dict_get (int_to_char (text_chars chs))" "set chs" for chs
proof
  fix x assume "x \<in> set chs"
  then obtain i where i: "i < length (text_chars chs)" "text_chars chs ! i = x"
    by (metis in_set_conv_nth set_text_chars)
  then have "dict_get (char_to_int (text_chars chs)) x = Some i" by (simp add: char_to_int_get)
  with i show "\<exists>c. dict_get (char_to_int (text_chars chs)) x = Some c \<and>
      dict_get (int_to_char (text_chars chs)) c = Some x"
    by (simp add: int_to_char_get)
qed

definition encode_text :: "codepoint list \<Rightarrow> nat list" where
  "encode_text chs = map (\<lambda>ch. the (dict_get (char_to_int (text_chars chs)) ch)) chs"

lemma encode_text_ok: "res_mapM (token_of (char_to_int (text_chars chs))) chs = Inr (encode_text chs)"
  unfolding encode_text_def
proof (rule res_mapM_total)
  fix ch assume "ch \<in> set chs"
  then obtain c where "dict_get (char_to_int (text_chars chs)) ch = Some c"
    using vocab.enc_dec by blast
  then show "token_of (char_to_int (text_chars chs)) ch
      = Inr (the (dict_get (char_to_int (text_chars chs)) ch))"
    by (simp add: token_of_def)
qed

lemma encode_text_bound:
  assumes "n \<in> set (encode_text chs)"
  shows "n < card (set chs)"
proof -
  from assms obtain ch where ch: "ch \<in> set chs" "n = the (dict_get (char_to_int (text_chars chs)) ch)"
    by (auto simp: encode_text_def)
  from vocab.enc_total [OF ch(1)] ch(2) have "dict_get (char_to_int (text_chars chs)) ch = Some n"
    by auto
  then show ?thesis by (simp add: char_to_int_get length_text_chars)
qed

lemma decode_encode_text:
  "map (\<lambda>c. dict_get (int_to_char (text_chars chs)) c) (encode_text chs) = map Some chs"
  unfolding encode_text_def by (rule vocab.decode_encoded) simp

section \<open>Properties\<close>

definition text_tokens :: "codepoint list \<Rightarrow> 16 word list" where
  "text_tokens chs = map of_nat (encode_text chs)"

lemma text_tokens_ok:
  assumes "card (set chs) \<le> 65536"
  shows "length (text_tokens chs) = length chs"
    and "t \<in> set (text_tokens chs) \<Longrightarrow> unat t < card (set chs)"
    and "map (\<lambda>t. dict_get (int_to_char (text_chars chs)) (unat t)) (text_tokens chs) = map Some chs"
proof -
  have unat: "unat (of_nat n :: 16 word) = n" if "n \<in> set (encode_text chs)" for n
    using encode_text_bound [OF that] assms by (simp add: unat_of_nat take_bit_nat_eq_self)
  show "map (\<lambda>t. dict_get (int_to_char (text_chars chs)) (unat t)) (text_tokens chs) = map Some chs"
    using decode_encode_text [of chs] unat by (simp add: text_tokens_def o_def cong: map_cong)
  show "t \<in> set (text_tokens chs) \<Longrightarrow> unat t < card (set chs)"
    using unat encode_text_bound by (auto simp: text_tokens_def)
qed (simp add: text_tokens_def encode_text_def)

text \<open>What the preparation leaves behind.\<close>

lemma prepare_apply:
  assumes "uint16_documented np" "input_txt s = Some raw \<or> input_txt s = None \<and> fetch = Inr raw"
    and "chs = universal_newlines raw" "card (set chs) \<le> 65536"
  shows "prepare_shakespeare fetch np s = (Return (), s\<lparr>input_txt := Some raw,
      meta_pkl := Some \<lparr>vocab_size = card (set chs), itos = int_to_char (text_chars chs),
                        stoi = char_to_int (text_chars chs)\<rparr>,
      train_bin := Some (take (9 * length chs div 10) (text_tokens chs)),
      val_bin := Some (drop (9 * length chs div 10) (text_tokens chs))\<rparr>)"
proof -
  have "\<forall>n \<in> set (encode_text chs). n < 65536" using encode_text_bound assms(4) by force
  with assms(1) have "np (encode_text chs) = Inr (map of_nat (encode_text chs))"
    by (simp add: uint16_documented_def)
  moreover have "length (encode_text chs) = length chs" by (simp add: encode_text_def)
  moreover have "download_shakespeare fetch s = (Return (), s\<lparr>input_txt := Some raw\<rparr>)"
    using assms(2) by (auto simp: download_shakespeare_def py_simps)
  ultimately show ?thesis
    by (simp add: prepare_shakespeare_def py_simps encode_text_ok length_text_chars assms(3)
        split_point_eq Let_def text_tokens_def)
qed

text \<open>C16: Preparing a text with at most 65536 different characters succeeds, from a stored text or a
  download: the vocabulary is exactly its characters, the two token files are nine tenths of the text,
  rounded down, and the rest, every token is below the vocabulary size, and decoding the tokens of both
  files one after the other gives back the text.\<close>

theorem prepare_roundtrip:
  assumes "uint16_documented np" "input_txt s = Some raw \<or> input_txt s = None \<and> fetch = Inr raw"
    and "chs = universal_newlines raw" "card (set chs) \<le> 65536"
  shows "\<exists>s' m tr va. prepare_shakespeare fetch np s = (Return (), s') \<and>
     input_txt s' = Some raw \<and> meta_pkl s' = Some m \<and> train_bin s' = Some tr \<and> val_bin s' = Some va \<and>
     vocab_size m = card (set chs) \<and> length tr = 9 * length chs div 10 \<and>
     (\<forall>t \<in> set (tr @ va). unat t < vocab_size m) \<and>
     map (\<lambda>t. dict_get (itos m) (unat t)) (tr @ va) = map Some chs \<and>
     (\<forall>ch i. dict_get (stoi m) ch = Some i \<longleftrightarrow> dict_get (itos m) i = Some ch)"
proof -
  define ts where "ts = text_tokens chs"
  note ts = text_tokens_ok [OF assms(4), folded ts_def]
  have inv: "dict_get (char_to_int (text_chars chs)) ch = Some i \<longleftrightarrow>
      dict_get (int_to_char (text_chars chs)) i = Some ch" for ch i
    by (auto simp: char_to_int_get int_to_char_get)
  define m where "m = \<lparr>vocab_size = card (set chs), itos = int_to_char (text_chars chs),
      stoi = char_to_int (text_chars chs)\<rparr>"
  let ?k = "9 * length chs div 10"
  have m: "vocab_size m = card (set chs)" "itos m = int_to_char (text_chars chs)"
      "stoi m = char_to_int (text_chars chs)" by (simp_all add: m_def)
  have both: "take ?k ts @ drop ?k ts = ts" and k: "length (take ?k ts) = ?k"
    using ts(1) by simp_all
  have run: "prepare_shakespeare fetch np s = (Return (), s\<lparr>input_txt := Some raw,
      meta_pkl := Some m, train_bin := Some (take ?k ts), val_bin := Some (drop ?k ts)\<rparr>)"
    unfolding m_def ts_def by (rule prepare_apply [OF assms])
  show ?thesis
    by (rule exI, rule exI [of _ m], rule exI [of _ "take ?k ts"], rule exI [of _ "drop ?k ts"],
        unfold both k m, intro conjI, rule run)
       (use ts inv in simp_all)
qed

theorem prepare_roundtrip_witness:
  "\<exists>s' m tr va. prepare_shakespeare (Inr [98, 97, 13, 10, 97]) (\<lambda>ns. Inr (map of_nat ns))
       \<lparr>input_txt = None, meta_pkl = None, train_bin = None, val_bin = None\<rparr> = (Return (), s') \<and>
     meta_pkl s' = Some m \<and> train_bin s' = Some tr \<and> val_bin s' = Some va \<and> vocab_size m = 3 \<and>
     length tr = 3 \<and> map (\<lambda>t. dict_get (itos m) (unat t)) (tr @ va) = map Some [98, 97, 10, 97]"
proof -
  let ?s = "\<lparr>input_txt = None, meta_pkl = None, train_bin = None, val_bin = None\<rparr>"
  have np: "uint16_documented (\<lambda>ns. Inr (map of_nat ns))" by (simp add: uint16_documented_def)
  have raw: "input_txt ?s = Some [98, 97, 13, 10, 97] \<or>
      input_txt ?s = None \<and> (Inr [98, 97, 13, 10, 97] :: codepoint list result) = Inr [98, 97, 13, 10, 97]"
    by simp
  have chs: "[98, 97, 10, 97] = universal_newlines [98, 97, 13, 10, 97]" by simp
  have card: "card (set [98, 97, 10, 97 :: nat]) = 3" by (simp add: card_insert_if)
  then have "card (set [98, 97, 10, 97 :: nat]) \<le> 65536" by simp
  from prepare_roundtrip [OF np raw chs this] show ?thesis
    unfolding card by simp blast
qed

end
