(* ===== verification/Data_Loader.thy ===== *)
theory Data_Loader
  imports Char_Dataset
begin

text \<open>
  \<open>get_batch\<close> of the training programs (\<open>compute-engine/user_code/train.py\<close>; the same text is in
  \<open>workspace/compute/train.py\<close> and \<open>workspace/train_single.py\<close>).  The state is the cache the
  function keeps as an attribute of itself, \<open>None\<close> before the first call.  What NumPy and PyTorch
  do is a record of parameters; what the program relies on of it is \<open>tensor_documented\<close>.
\<close>

section \<open>Memoised loading\<close>

locale memo =
  fixes load :: "'k \<Rightarrow> 'v result"
    and lookup :: "'c \<Rightarrow> 'k \<Rightarrow> 'v option"
    and insert :: "'k \<Rightarrow> 'v \<Rightarrow> 'c \<Rightarrow> 'c"
    and fetch :: "'k \<Rightarrow> ('c, 'v) py"
  assumes lookup_insert: "lookup (insert k v c) k' = (if k' = k then Some v else lookup c k')"
    and fetch_hit: "lookup c k = Some v \<Longrightarrow> fetch k c = (Return v, c)"
    and fetch_miss: "lookup c k = None \<Longrightarrow> load k = Inr v \<Longrightarrow> fetch k c = (Return v, insert k v c)"
    and fetch_fail: "lookup c k = None \<Longrightarrow> load k = Inl e \<Longrightarrow>
      \<exists>c'. fetch k c = (Raise e, c') \<and> lookup c' = lookup c"
begin

definition coherent :: "'c \<Rightarrow> bool" where
  "coherent c \<longleftrightarrow> (\<forall>k v. lookup c k = Some v \<longrightarrow> load k = Inr v)"

lemma fetch_result: "coherent c \<Longrightarrow> fst (fetch k c) = (case load k of Inl e \<Rightarrow> Raise e | Inr v \<Rightarrow> Return v)"
  by (cases "lookup c k"; cases "load k")
     (auto simp: coherent_def fetch_hit fetch_miss dest: fetch_fail)

lemma fetch_coherent: "coherent c \<Longrightarrow> coherent (snd (fetch k c))"
  by (cases "lookup c k"; cases "load k")
     (auto simp: coherent_def fetch_hit fetch_miss lookup_insert dest: fetch_fail)

text \<open>A key is loaded once: a second fetch finds it.\<close>

lemma fetch_again: "fetch k c = (Return v, c') \<Longrightarrow> fetch k c' = (Return v, c')"
  by (cases "lookup c k"; cases "load k")
     (auto simp: fetch_hit fetch_miss lookup_insert dest: fetch_fail)

end

section \<open>Program\<close>

record tensor_lib =
  randint :: "int \<Rightarrow> nat \<Rightarrow> nat list result"
  stack_rows :: "64 word list list \<Rightarrow> 64 word list list result"
  to_int64 :: "16 word \<Rightarrow> 64 word"

type_synonym data_cache = "(string, 16 word list) dict option"

definition cache_lookup :: "data_cache \<Rightarrow> string \<Rightarrow> 16 word list option" where
  "cache_lookup c k = (case c of None \<Rightarrow> None | Some d \<Rightarrow> dict_get d k)"

text \<open>\<open>load\<close> is \<open>np.memmap(filename, \<dots>)\<close>.\<close>

definition cached_data :: "(string \<Rightarrow> 16 word list result) \<Rightarrow> string \<Rightarrow> (data_cache, 16 word list) py" where
  "cached_data load filename =
     py_bind (py_get (\<lambda>c. cache_lookup c filename)) (\<lambda>hit. case hit of
       None \<Rightarrow> py_bind (py_lift (load filename)) (\<lambda>data.
                 py_seq (py_modify (map_option (dict_set filename data))) (py_return data))
     | Some data \<Rightarrow> py_return data)"

definition batch_row :: "tensor_lib \<Rightarrow> 16 word list \<Rightarrow> nat \<Rightarrow> nat \<Rightarrow> 64 word list" where
  "batch_row L data block_size i = map (to_int64 L) (py_slice data i (i + block_size))"

definition get_batch ::
  "tensor_lib \<Rightarrow> (string \<Rightarrow> 16 word list result) \<Rightarrow> string \<Rightarrow> string \<Rightarrow> nat \<Rightarrow> nat
     \<Rightarrow> (data_cache, 64 word list list \<times> 64 word list list) py" where
  "get_batch L load data_dir split batch_size block_size =
     py_bind (py_modify (\<lambda>c. if c = None then Some [] else c)) (\<lambda>_.
     py_bind (cached_data load (path_join data_dir (split @ ''.bin''))) (\<lambda>data.
     py_bind (py_lift (randint L (int (length data) - int block_size) batch_size)) (\<lambda>ix.
     py_bind (py_lift (stack_rows L (map (batch_row L data block_size) ix))) (\<lambda>x.
     py_bind (py_lift (stack_rows L (map (\<lambda>i. batch_row L data block_size (i + 1)) ix))) (\<lambda>y.
       py_return (x, y))))))"

text \<open>
  The documented behaviour: \<open>randint\<close> draws from \<open>[0, high)\<close> and raises when that is empty,
  \<open>stack\<close> wants at least one row and rows of one length, and the conversion keeps the value.
\<close>

definition tensor_documented :: "tensor_lib \<Rightarrow> bool" where
  "tensor_documented L \<longleftrightarrow>
     (\<forall>high n. 0 < high \<longrightarrow> (\<exists>ix. randint L high n = Inr ix \<and> length ix = n \<and> (\<forall>i \<in> set ix. int i < high))) \<and>
     (\<forall>high n. high \<le> 0 \<longrightarrow> randint L high n = Inl RuntimeError) \<and>
     (\<forall>rows n. rows \<noteq> [] \<and> (\<forall>r \<in> set rows. length r = n) \<longrightarrow> stack_rows L rows = Inr rows) \<and>
     stack_rows L [] = Inl RuntimeError \<and>
     (\<forall>w. sint (to_int64 L w) = uint w)"

section \<open>The cache\<close>

definition add_entry :: "string \<Rightarrow> 16 word list \<Rightarrow> data_cache \<Rightarrow> data_cache" where
  "add_entry k v c = Some (dict_set k v (case c of None \<Rightarrow> [] | Some d \<Rightarrow> d))"

text \<open>The function as it is called in \<open>get_batch\<close>, after the attribute has been created.\<close>

definition open_data :: "(string \<Rightarrow> 16 word list result) \<Rightarrow> string \<Rightarrow> (data_cache, 16 word list) py" where
  "open_data load k = py_bind (py_modify (\<lambda>c. if c = None then Some [] else c)) (\<lambda>_. cached_data load k)"

lemma open_data_simps:
  "cache_lookup c k = Some v \<Longrightarrow> open_data load k c = (Return v, c)"
  "cache_lookup c k = None \<Longrightarrow> load k = Inr v \<Longrightarrow> open_data load k c = (Return v, add_entry k v c)"
  "cache_lookup c k = None \<Longrightarrow> load k = Inl e \<Longrightarrow>
     open_data load k c = (Raise e, if c = None then Some [] else c)"
  by (cases c; simp add: open_data_def cached_data_def py_simps cache_lookup_def add_entry_def)+

interpretation files: memo load cache_lookup add_entry "open_data load" for load
proof
  show "cache_lookup (add_entry k v c) k' = (if k' = k then Some v else cache_lookup c k')"
    for k v c k'
    by (cases c) (simp_all add: cache_lookup_def add_entry_def)
  show "\<exists>c'. open_data load k c = (Raise e, c') \<and> cache_lookup c' = cache_lookup c"
    if "cache_lookup c k = None" "load k = Inl e" for c k e
    using that by (cases c) (simp_all add: open_data_simps, simp_all add: cache_lookup_def fun_eq_iff)
qed (simp_all add: open_data_simps)

text \<open>What a call gives when its file holds \<open>data\<close>.\<close>

definition batch_of :: "tensor_lib \<Rightarrow> 16 word list \<Rightarrow> nat \<Rightarrow> nat \<Rightarrow> (64 word list list \<times> 64 word list list) result" where
  "batch_of L data bs blk = res_bind (randint L (int (length data) - int blk) bs) (\<lambda>ix.
     res_bind (stack_rows L (map (batch_row L data blk) ix)) (\<lambda>x.
     res_bind (stack_rows L (map (\<lambda>i. batch_row L data blk (i + 1)) ix)) (\<lambda>y. Inr (x, y))))"

lemma get_batch_open:
  "get_batch L load data_dir split bs blk =
     py_bind (open_data load (path_join data_dir (split @ ''.bin''))) (\<lambda>data. py_lift (batch_of L data bs blk))"
  unfolding get_batch_def open_data_def py_bind_assoc batch_of_def
  by (rule ext) (auto simp: py_bind_def py_lift_def py_simps res_bind_def split: outcome.splits sum.splits prod.splits)

lemma get_batch_result:
  assumes "files.coherent load c"
  shows "fst (get_batch L load data_dir split bs blk c) =
    (case res_bind (load (path_join data_dir (split @ ''.bin''))) (\<lambda>data. batch_of L data bs blk) of
       Inl e \<Rightarrow> Raise e | Inr b \<Rightarrow> Return b)"
  using files.fetch_result [OF assms, of "path_join data_dir (split @ ''.bin'')"]
  by (auto simp: get_batch_open py_bind_def py_lift_def py_simps
      split: prod.splits outcome.splits sum.splits)

lemma get_batch_coherent:
  assumes "files.coherent load c"
  shows "files.coherent load (snd (get_batch L load data_dir split bs blk c))"
  using files.fetch_coherent [OF assms, of "path_join data_dir (split @ ''.bin'')"]
  by (auto simp: get_batch_open py_bind_def py_lift_def py_simps
      split: prod.splits outcome.splits sum.splits)

text \<open>A call of the program, with the draws it will see.\<close>

record batch_call =
  call_lib :: tensor_lib
  call_dir :: string
  call_split :: string
  call_batch :: nat
  call_block :: nat

definition run_call :: "(string \<Rightarrow> 16 word list result) \<Rightarrow> batch_call \<Rightarrow>
    (data_cache, 64 word list list \<times> 64 word list list) py" where
  "run_call load r = get_batch (call_lib r) load (call_dir r) (call_split r) (call_batch r) (call_block r)"

interpretation batches: request_server "run_call load" "files.coherent load" for load
  by unfold_locales (simp add: run_call_def get_batch_coherent)

lemma coherent_None: "files.coherent load None"
  by (simp add: files.coherent_def cache_lookup_def)

section \<open>Rows\<close>

lemma length_batch_row:
  "i + blk \<le> length data \<Longrightarrow> length (batch_row L data blk i) = blk"
  by (simp add: batch_row_def length_py_slice)

lemma nth_batch_row:
  "i + blk \<le> length data \<Longrightarrow> j < blk \<Longrightarrow> batch_row L data blk i ! j = to_int64 L (data ! (i + j))"
  by (simp add: batch_row_def length_py_slice nth_py_slice)

lemma batch_row_pair:
  assumes "tensor_documented L" "i + blk < length data"
  shows "length (batch_row L data blk i) = blk" "length (batch_row L data blk (i + 1)) = blk"
    and "j < blk \<Longrightarrow> sint (batch_row L data blk i ! j) = uint (data ! (i + j))"
    and "j < blk \<Longrightarrow> sint (batch_row L data blk (i + 1) ! j) = uint (data ! (i + j + 1))"
    and "j + 1 < blk \<Longrightarrow> batch_row L data blk (i + 1) ! j = batch_row L data blk i ! (j + 1)"
proof -
  have "sint (to_int64 L w) = uint w" for w
    using assms(1) by (simp add: tensor_documented_def)
  then show "j < blk \<Longrightarrow> sint (batch_row L data blk i ! j) = uint (data ! (i + j))"
    "j < blk \<Longrightarrow> sint (batch_row L data blk (i + 1) ! j) = uint (data ! (i + j + 1))"
    using assms(2) by (simp_all add: nth_batch_row)
qed (use assms(2) in \<open>simp_all add: length_batch_row nth_batch_row\<close>)

lemma batch_row_decode:
  assumes "tensor_documented L"
  shows "map (\<lambda>t. f (nat (sint t))) (batch_row L data blk i) =
      py_slice (map (\<lambda>w. f (unat w)) data) i (i + blk)"
    and "t \<in> set (batch_row L data blk i) \<Longrightarrow> \<exists>w \<in> set data. sint t = int (unat w)"
proof -
  have keeps: "sint (to_int64 L w) = uint w" for w
    using assms by (simp add: tensor_documented_def)
  show "map (\<lambda>t. f (nat (sint t))) (batch_row L data blk i) =
      py_slice (map (\<lambda>w. f (unat w)) data) i (i + blk)"
    by (simp add: batch_row_def keeps o_def flip: py_slice_map)
  show "\<exists>w \<in> set data. sint t = int (unat w)" if t: "t \<in> set (batch_row L data blk i)"
  proof -
    from t obtain w where "w \<in> set data" "t = to_int64 L w"
      by (auto simp: batch_row_def py_slice_def dest: in_set_takeD in_set_dropD)
    with keeps show ?thesis by auto
  qed
qed

lemma stack_documented:
  "tensor_documented L \<Longrightarrow> rows \<noteq> [] \<Longrightarrow> (\<And>r. r \<in> set rows \<Longrightarrow> length r = n) \<Longrightarrow>
   stack_rows L rows = Inr rows"
  by (simp add: tensor_documented_def)

lemma batch_of_documented:
  assumes L: "tensor_documented L" and "blk < length data" "0 < bs"
  shows "\<exists>ix. batch_of L data bs blk =
      Inr (map (batch_row L data blk) ix, map (\<lambda>i. batch_row L data blk (i + 1)) ix) \<and>
     length ix = bs \<and> (\<forall>i \<in> set ix. i + blk < length data)"
proof -
  have "0 < int (length data) - int blk" using assms(2) by simp
  with L obtain ix where ix: "randint L (int (length data) - int blk) bs = Inr ix" "length ix = bs"
      "\<forall>i \<in> set ix. int i < int (length data) - int blk"
    unfolding tensor_documented_def by blast
  then have range: "i + blk < length data" if "i \<in> set ix" for i using that by force
  have "ix \<noteq> []" using ix(2) assms(3) by auto
  have rows: "stack_rows L (map (\<lambda>i. batch_row L data blk (i + k)) ix)
      = Inr (map (\<lambda>i. batch_row L data blk (i + k)) ix)" if "k \<le> 1" for k
  proof (rule stack_documented [OF L])
    show "map (\<lambda>i. batch_row L data blk (i + k)) ix \<noteq> []" using \<open>ix \<noteq> []\<close> by simp
    fix r assume "r \<in> set (map (\<lambda>i. batch_row L data blk (i + k)) ix)"
    then obtain i where "i \<in> set ix" "r = batch_row L data blk (i + k)" by auto
    with range [of i] that show "length r = blk" by (simp add: length_batch_row)
  qed
  from rows [of 0] rows [of 1] ix(1) have "batch_of L data bs blk =
      Inr (map (batch_row L data blk) ix, map (\<lambda>i. batch_row L data blk (i + 1)) ix)"
    by (simp add: batch_of_def)
  with ix(2) range show ?thesis by blast
qed

section \<open>Properties\<close>

text \<open>C36: The cache changes no result: in any sequence of calls with any splits and sizes, each call
  answers (or raises) what it would as the very first one, with its file read afresh.\<close>

theorem batch_cache_transparent:
  "fst (serve (run_call load) calls None) = map (\<lambda>r. fst (run_call load r None)) calls"
proof -
  have "fst (serve (run_call load) calls c) = map (\<lambda>r. fst (run_call load r None)) calls"
    if "files.coherent load c" for c
    using that
  proof (induction calls arbitrary: c)
    case (Cons r rs)
    then have "fst (run_call load r c) = fst (run_call load r None)"
      by (simp add: run_call_def get_batch_result coherent_None)
    with Cons.IH [OF batches.handle_good [OF Cons.prems, of r]] show ?case
      by (simp add: Let_def case_prod_beta)
  qed simp
  then show ?thesis using coherent_None by blast
qed

text \<open>With a file longer than the block and at least one row asked for, a batch has that many rows of
  the block's length in inputs and targets; each input row is a stretch of the file as signed numbers of
  the same value, its target row is the stretch one token later, so that target \<open>j\<close> is input \<open>j + 1\<close>.\<close>

theorem get_batch_shifted:
  assumes "tensor_documented L" "load (path_join data_dir (split @ ''.bin'')) = Inr data"
    and "blk < length data" "0 < bs"
  shows "\<exists>x y. fst (get_batch L load data_dir split bs blk None) = Return (x, y) \<and>
     length x = bs \<and> length y = bs \<and>
     (\<forall>r < bs. length (x ! r) = blk \<and> length (y ! r) = blk \<and>
        (\<exists>i. i + blk < length data \<and>
           (\<forall>j < blk. sint (x ! r ! j) = uint (data ! (i + j)) \<and>
                      sint (y ! r ! j) = uint (data ! (i + j + 1)))) \<and>
        (\<forall>j. j + 1 < blk \<longrightarrow> y ! r ! j = x ! r ! (j + 1)))"
proof -
  obtain ix where ix: "batch_of L data bs blk =
      Inr (map (batch_row L data blk) ix, map (\<lambda>i. batch_row L data blk (i + 1)) ix)"
      and len: "length ix = bs" and range: "\<forall>i \<in> set ix. i + blk < length data"
    using batch_of_documented [OF assms(1,3,4)] by blast
  have "fst (get_batch L load data_dir split bs blk None) =
      Return (map (batch_row L data blk) ix, map (\<lambda>i. batch_row L data blk (i + 1)) ix)"
    by (simp add: get_batch_result [OF coherent_None] assms(2) ix)
  moreover have at: "ix ! r + blk < length data" if "r < bs" for r using range len that by simp
  have "\<forall>r < bs. length (batch_row L data blk (ix ! r)) = blk \<and>
        length (batch_row L data blk (ix ! r + 1)) = blk \<and>
        (\<exists>i. i + blk < length data \<and>
           (\<forall>j < blk. sint (batch_row L data blk (ix ! r) ! j) = uint (data ! (i + j)) \<and>
                      sint (batch_row L data blk (ix ! r + 1) ! j) = uint (data ! (i + j + 1)))) \<and>
        (\<forall>j. j + 1 < blk \<longrightarrow> batch_row L data blk (ix ! r + 1) ! j = batch_row L data blk (ix ! r) ! (j + 1))"
    using at batch_row_pair [OF assms(1) at] by blast
  ultimately show ?thesis using len by simp
qed

definition sample_lib :: tensor_lib where
  "sample_lib = \<lparr>randint = (\<lambda>high n. if 0 < high then Inr (replicate n 0) else Inl RuntimeError),
     stack_rows = (\<lambda>rows. if rows = [] then Inl RuntimeError else Inr rows), to_int64 = ucast\<rparr>"

lemma sint_ucast_16_64: "sint (ucast (w :: 16 word) :: 64 word) = uint w"
proof -
  have "uint w < 2 ^ 16" using uint_lt2p [of w] by simp
  moreover have "- (2 ^ 63) \<le> uint w" by (rule order_trans [OF _ uint_ge_0]) simp
  ultimately show ?thesis
    by (simp add: sint_uint uint_up_ucast is_up signed_take_bit_int_eq_self [of 63 "uint w"])
qed

lemma sample_lib_documented: "tensor_documented sample_lib"
  by (simp add: tensor_documented_def sample_lib_def sint_ucast_16_64)

theorem get_batch_shifted_witness:
  "\<exists>x y. fst (get_batch sample_lib (\<lambda>_. Inr [5, 6, 65535]) ''d'' ''train'' 1 2 None) = Return (x, y) \<and>
     length x = 1 \<and> length y = 1"
  using get_batch_shifted [OF sample_lib_documented, of "\<lambda>_. Inr [5, 6, 65535]" "''d''" "''train''"
      "[5, 6, 65535]" 2 1] by auto

text \<open>A batch is refused in every case it cannot be drawn: a missing file, a file no longer than the
  block, or no row asked for; the call raises and the cache stays usable.\<close>

theorem get_batch_refused:
  assumes "tensor_documented L" "files.coherent load c"
    and "load (path_join data_dir (split @ ''.bin'')) = Inl e \<or>
         load (path_join data_dir (split @ ''.bin'')) = Inr data \<and> e = RuntimeError \<and>
           (length data \<le> blk \<or> bs = 0)"
  shows "fst (get_batch L load data_dir split bs blk c) = Raise e \<and>
     files.coherent load (snd (get_batch L load data_dir split bs blk c))"
proof -
  have "batch_of L data bs blk = Inl RuntimeError" if "length data \<le> blk \<or> bs = 0"
  proof (cases "length data \<le> blk")
    case True
    with assms(1) show ?thesis by (simp add: tensor_documented_def batch_of_def)
  next
    case False
    then have "0 < int (length data) - int blk" by simp
    with assms(1) obtain ix where "randint L (int (length data) - int blk) bs = Inr ix" "length ix = bs"
      unfolding tensor_documented_def by blast
    with False that assms(1) show ?thesis by (simp add: tensor_documented_def batch_of_def)
  qed
  with assms(3) get_batch_coherent [OF assms(2)] show ?thesis
    by (auto simp: get_batch_result [OF assms(2)])
qed

theorem get_batch_refused_witness:
  "fst (get_batch sample_lib (\<lambda>_. Inr [1, 2]) ''d'' ''val'' 1 2 None) = Raise RuntimeError"
  using get_batch_refused [OF sample_lib_documented coherent_None, of "\<lambda>_. Inr [1, 2]" "''d''" "''val''"
      RuntimeError "[1, 2]" 2 1] by simp

section \<open>Batches of a prepared text\<close>

lemma decode_slice:
  assumes "card (set chs) \<le> 65536" "part = take k chs \<and> data = take k (text_tokens chs) \<or>
      part = drop k chs \<and> data = drop k (text_tokens chs)"
  shows "map (\<lambda>t. dict_get (int_to_char (text_chars chs)) (unat t)) data = map Some part"
    and "length data = length part" and "t \<in> set data \<Longrightarrow> unat t < card (set chs)"
  using assms(2) text_tokens_ok [OF assms(1)]
  by (auto simp flip: take_map drop_map dest: in_set_takeD in_set_dropD)

text \<open>The batch that is drawn after a successful preparation, from the tokens of the split.\<close>

lemma prepared_batch:
  assumes "uint16_documented np" "input_txt s = Some raw \<or> input_txt s = None \<and> fetch = Inr raw"
    and "chs = universal_newlines raw" "card (set chs) \<le> 65536" "tensor_documented L"
    and "(split, part) \<in> {(''train'', take (9 * length chs div 10) chs), (''val'', drop (9 * length chs div 10) chs)}"
    and "blk < length part" "0 < bs"
  obtains s' m data ix where "prepare_shakespeare fetch np s = (Return (), s')" "meta_pkl s' = Some m"
    and "m = \<lparr>vocab_size = card (set chs), itos = int_to_char (text_chars chs), stoi = char_to_int (text_chars chs)\<rparr>"
    and "part = take (9 * length chs div 10) chs \<and> data = take (9 * length chs div 10) (text_tokens chs) \<or>
      part = drop (9 * length chs div 10) chs \<and> data = drop (9 * length chs div 10) (text_tokens chs)"
    and "fst (get_batch L (open_dataset s') (path_join ''data'' ''shakespeare'') split bs blk None) =
      Return (map (batch_row L data blk) ix, map (\<lambda>i. batch_row L data blk (i + 1)) ix)"
    and "length ix = bs" "\<forall>i \<in> set ix. i + blk < length data"
proof -
  let ?k = "9 * length chs div 10"
  define s' where "s' = snd (prepare_shakespeare fetch np s)"
  define m where "m = \<lparr>vocab_size = card (set chs), itos = int_to_char (text_chars chs),
      stoi = char_to_int (text_chars chs)\<rparr>"
  define data where "data = (if split = ''train'' then take ?k (text_tokens chs) else drop ?k (text_tokens chs))"
  have run: "prepare_shakespeare fetch np s = (Return (), s')" and meta: "meta_pkl s' = Some m"
    and bins: "train_bin s' = Some (take ?k (text_tokens chs))" "val_bin s' = Some (drop ?k (text_tokens chs))"
    unfolding s'_def prepare_apply [OF assms(1-4)] by (simp_all add: m_def)
  have load: "open_dataset s' (path_join (path_join ''data'' ''shakespeare'') (split @ ''.bin'')) = Inr data"
    using assms(6) bins by (auto simp: open_dataset_def Let_def path_join_def data_def)
  have part: "part = take ?k chs \<and> data = take ?k (text_tokens chs) \<or>
      part = drop ?k chs \<and> data = drop ?k (text_tokens chs)"
    using assms(6) by (auto simp: data_def)
  obtain ix where ix: "batch_of L data bs blk =
      Inr (map (batch_row L data blk) ix, map (\<lambda>i. batch_row L data blk (i + 1)) ix)"
      and len: "length ix = bs" "\<forall>i \<in> set ix. i + blk < length data"
    using batch_of_documented [OF assms(5)] assms(7,8) decode_slice(2) [OF assms(4) part] by metis
  have "fst (get_batch L (open_dataset s') (path_join ''data'' ''shakespeare'') split bs blk None) =
      Return (map (batch_row L data blk) ix, map (\<lambda>i. batch_row L data blk (i + 1)) ix)"
    by (simp add: get_batch_result [OF coherent_None] load ix)
  from that [OF run meta m_def part this len] show thesis .
qed

lemma batch_token_bounds:
  assumes "tensor_documented L" "card (set chs) \<le> 65536"
    and "part = take k chs \<and> data = take k (text_tokens chs) \<or> part = drop k chs \<and> data = drop k (text_tokens chs)"
    and "t \<in> set (batch_row L data blk i)"
  shows "0 \<le> sint t \<and> sint t < int (card (set chs))"
proof -
  obtain w where "w \<in> set data" "sint t = int (unat w)"
    using batch_row_decode(2) [OF assms(1,4)] by blast
  with decode_slice(3) [OF assms(2,3), of w] show ?thesis by (simp only: of_nat_less_iff of_nat_0_le_iff simp_thms)
qed

text \<open>C12: From the text to the model: after a successful preparation, every row of a batch of either split
  decodes, through the saved vocabulary, to a stretch of that split's part of the text, its target row to
  the stretch one character later, and every token is a valid row number of an embedding of the saved
  vocabulary size.\<close>

theorem prepared_batches:
  assumes "uint16_documented np" "input_txt s = Some raw \<or> input_txt s = None \<and> fetch = Inr raw"
    and "chs = universal_newlines raw" "card (set chs) \<le> 65536" "tensor_documented L"
    and "(split, part) \<in> {(''train'', take (9 * length chs div 10) chs), (''val'', drop (9 * length chs div 10) chs)}"
    and "blk < length part" "0 < bs"
  shows "\<exists>s' m x y. prepare_shakespeare fetch np s = (Return (), s') \<and> meta_pkl s' = Some m \<and>
     fst (get_batch L (open_dataset s') (path_join ''data'' ''shakespeare'') split bs blk None) = Return (x, y) \<and>
     length x = bs \<and> length y = bs \<and>
     (\<forall>r < bs. \<exists>i. i + blk < length part \<and>
        map (\<lambda>t. dict_get (itos m) (nat (sint t))) (x ! r) = map Some (py_slice part i (i + blk)) \<and>
        map (\<lambda>t. dict_get (itos m) (nat (sint t))) (y ! r) = map Some (py_slice part (i + 1) (i + 1 + blk)) \<and>
        (\<forall>t \<in> set (x ! r) \<union> set (y ! r). 0 \<le> sint t \<and> sint t < int (vocab_size m)))"
proof -
  obtain s' m data ix where run: "prepare_shakespeare fetch np s = (Return (), s')" "meta_pkl s' = Some m"
    and m: "m = \<lparr>vocab_size = card (set chs), itos = int_to_char (text_chars chs), stoi = char_to_int (text_chars chs)\<rparr>"
    and part: "part = take (9 * length chs div 10) chs \<and> data = take (9 * length chs div 10) (text_tokens chs) \<or>
      part = drop (9 * length chs div 10) chs \<and> data = drop (9 * length chs div 10) (text_tokens chs)"
    and batch: "fst (get_batch L (open_dataset s') (path_join ''data'' ''shakespeare'') split bs blk None) =
      Return (map (batch_row L data blk) ix, map (\<lambda>i. batch_row L data blk (i + 1)) ix)"
    and len: "length ix = bs" "\<forall>i \<in> set ix. i + blk < length data"
    by (rule prepared_batch [OF assms])
  note dec = decode_slice [OF assms(4) part]
  have "map (\<lambda>t. dict_get (itos m) (nat (sint t))) (batch_row L data blk i) =
      map Some (py_slice part i (i + blk))" for i
    using batch_row_decode(1) [OF assms(5), of "dict_get (itos m)"] dec(1)
    by (simp add: m py_slice_map)
  moreover have "0 \<le> sint t \<and> sint t < int (vocab_size m)" if "t \<in> set (batch_row L data blk i)" for t i
    using batch_token_bounds [OF assms(5,4) part that] by (simp add: m)
  moreover have "ix ! r + blk < length part" if "r < bs" for r using len that dec(2) by simp
  ultimately show ?thesis using run batch len(1)
    by (rule_tac exI [of _ s'], rule_tac exI [of _ m], rule_tac exI [of _ "map (batch_row L data blk) ix"],
        rule_tac exI [of _ "map (\<lambda>i. batch_row L data blk (i + 1)) ix"]) (auto intro!: exI [of _ "ix ! _"])
qed

theorem prepared_batches_witness:
  "\<exists>s' m x y. prepare_shakespeare (Inr [98, 97, 97, 98]) (\<lambda>ns. Inr (map of_nat ns))
       \<lparr>input_txt = None, meta_pkl = None, train_bin = None, val_bin = None\<rparr> = (Return (), s') \<and>
     meta_pkl s' = Some m \<and>
     fst (get_batch sample_lib (open_dataset s') (path_join ''data'' ''shakespeare'') ''train'' 1 2 None) = Return (x, y) \<and>
     length x = 1"
proof -
  let ?s = "\<lparr>input_txt = None, meta_pkl = None, train_bin = None, val_bin = None\<rparr>"
  have np: "uint16_documented (\<lambda>ns. Inr (map of_nat ns))" by (simp add: uint16_documented_def)
  have raw: "input_txt ?s = Some [98, 97, 97, 98] \<or>
      input_txt ?s = None \<and> (Inr [98, 97, 97, 98] :: codepoint list result) = Inr [98, 97, 97, 98]"
    by simp
  have chs: "[98, 97, 97, 98] = universal_newlines [98, 97, 97, 98]" by simp
  have card: "card (set [98, 97, 97, 98 :: nat]) \<le> 65536" by (simp add: card_insert_if)
  have split: "(''train'', [98, 97, 97 :: nat]) \<in>
      {(''train'', take (9 * length [98, 97, 97, 98 :: nat] div 10) [98, 97, 97, 98]),
       (''val'', drop (9 * length [98, 97, 97, 98 :: nat] div 10) [98, 97, 97, 98])}" by simp
  have "2 < length [98, 97, 97 :: nat]" "(0 :: nat) < 1" by simp_all
  from prepared_batches [OF np raw chs card sample_lib_documented split this] show ?thesis
    by blast
qed

end
