(* ===== verification/Training_Model.thy ===== *)
theory Training_Model
  imports Gpt_Init Gpt_Model Data_Loader Training
begin

text \<open>
  The language model that the training programs build, from their module settings to the optimizer:
  \<open>compute-engine/user_code/train.py\<close>, \<open>workspace/compute/train.py\<close> and \<open>workspace/train_single.py\<close>, on
  top of the constructors and the initial weights of \<open>model.py\<close>; and that the batches of prepared data
  fit it.  The constants that control the loops are also in \<open>Lr_Schedule\<close> and \<open>Training\<close>.
\<close>

section \<open>Settings\<close>

text \<open>The program of the compute engine takes its output directory from the environment.\<close>

record settings =
  out_dir :: "string option"
  eval_interval_s :: int
  log_interval_s :: int
  eval_iters_s :: nat
  eval_only :: bool
  always_save_checkpoint :: bool
  init_from :: string
  dataset :: string
  gradient_accumulation_steps :: int
  batch_size_s :: int
  block_size_s :: nat
  n_layer_s :: nat
  n_head_s :: nat
  n_embd_s :: nat
  dropout :: rat
  bias_s :: bool
  learning_rate_s :: rat
  max_iters_s :: int
  weight_decay :: rat
  beta1 :: rat
  beta2 :: rat
  grad_clip_s :: rat
  decay_lr :: bool
  warmup_iters_s :: int
  lr_decay_iters_s :: int
  min_lr_s :: rat
  backend_s :: string

definition train_settings :: settings where
  "train_settings = \<lparr>out_dir = None, eval_interval_s = 20, log_interval_s = 1, eval_iters_s = 20, eval_only = False,
     always_save_checkpoint = True, init_from = ''scratch'',
     dataset = ''shakespeare'', gradient_accumulation_steps = 1, batch_size_s = 8, block_size_s = 64,
     n_layer_s = 4, n_head_s = 4, n_embd_s = 128, dropout = 0, bias_s = True,
     learning_rate_s = 3 / 10 ^ 4, max_iters_s = 1000, weight_decay = 1 / 10, beta1 = 9 / 10, beta2 = 95 / 100,
     grad_clip_s = 1 / 2, decay_lr = True, warmup_iters_s = 100, lr_decay_iters_s = 1000, min_lr_s = 1 / 10 ^ 4,
     backend_s = ''gloo''\<rparr>"

definition compute_settings :: settings where
  "compute_settings = \<lparr>out_dir = Some ''out'', eval_interval_s = 20, log_interval_s = 1, eval_iters_s = 20, eval_only = False,
     always_save_checkpoint = True, init_from = ''scratch'',
     dataset = ''shakespeare'', gradient_accumulation_steps = 1, batch_size_s = 8, block_size_s = 64,
     n_layer_s = 4, n_head_s = 4, n_embd_s = 128, dropout = 0, bias_s = True,
     learning_rate_s = 3 / 10 ^ 4, max_iters_s = 1000, weight_decay = 1 / 10, beta1 = 9 / 10, beta2 = 95 / 100,
     grad_clip_s = 1 / 2, decay_lr = True, warmup_iters_s = 100, lr_decay_iters_s = 1000, min_lr_s = 1 / 10 ^ 4,
     backend_s = ''gloo''\<rparr>"

definition single_settings :: settings where
  "single_settings = \<lparr>out_dir = Some ''out'', eval_interval_s = 20, log_interval_s = 1, eval_iters_s = 20, eval_only = False,
     always_save_checkpoint = True, init_from = ''scratch'',
     dataset = ''shakespeare'', gradient_accumulation_steps = 1, batch_size_s = 32, block_size_s = 64,
     n_layer_s = 4, n_head_s = 4, n_embd_s = 128, dropout = 0, bias_s = True,
     learning_rate_s = 1 / 10 ^ 3, max_iters_s = 1000, weight_decay = 1 / 10, beta1 = 9 / 10, beta2 = 95 / 100,
     grad_clip_s = 1, decay_lr = True, warmup_iters_s = 100, lr_decay_iters_s = 1000, min_lr_s = 1 / 10 ^ 4,
     backend_s = ''gloo''\<rparr>"

text \<open>\<open>GPTConfig(**model_args)\<close>; the rate of dropout is not part of the modelled configuration.\<close>

definition model_args :: "settings \<Rightarrow> nat \<Rightarrow> GPTConfig" where
  "model_args S vocab = \<lparr>GPTConfig.block_size = block_size_s S, vocab_size = vocab, n_layer = n_layer_s S,
     n_head = n_head_s S, n_embd = n_embd_s S, bias = bias_s S\<rparr>"

definition meta_vocab :: "dataset_dir \<Rightarrow> nat" where
  "meta_vocab d = nat (vocab_size_of (map_option (\<lambda>m. int (meta.vocab_size m)) (meta_pkl d)))"

section \<open>Building\<close>

text \<open>The function \<open>_init_weights\<close> inside \<open>train\<close>.\<close>

definition train_init_weights :: "laws \<Rightarrow> string \<times> layer_kind \<Rightarrow> laws" where
  "train_init_weights l m = (case m of (name, kind) \<Rightarrow>
     if kind \<noteq> OtherModule then
       let l' = l(tensor_of (name @ ''.weight'') := Normal 0 (2/100))
       in if kind = LinearLayer True then l'(name @ ''.bias'' := Zeros) else l'
     else l)"

record built =
  built_config :: GPTConfig
  built_params :: params
  built_laws :: laws
  built_optimizer :: adamw

text \<open>\<open>fa\<close> says whether this version of \<open>AdamW\<close> has the argument \<open>fused\<close>.\<close>

definition optimizer_of :: "bool \<Rightarrow> settings \<Rightarrow> params \<Rightarrow> adamw" where
  "optimizer_of fa S ps =
     create_optimizer fa ps (\<lambda>_. True) (weight_decay S) (learning_rate_s S) (beta1 S, beta2 S) ''cpu''"

definition build_train_model :: "nn_lib \<Rightarrow> bool \<Rightarrow> nat \<Rightarrow> built result" where
  "build_train_model N fa vocab =
     (let c = model_args train_settings vocab
      in res_bind (GPT N c) (\<lambda>ps.
         res_bind (initial_laws N c) (\<lambda>l.
           Inr \<lparr>built_config = c, built_params = ps, built_laws = foldl train_init_weights l (gpt_modules c),
                built_optimizer = optimizer_of fa train_settings ps\<rparr>)))"

definition build_compute_model :: "nn_lib \<Rightarrow> bool \<Rightarrow> nat \<Rightarrow> built result" where
  "build_compute_model N fa vocab =
     (let c = model_args compute_settings vocab
      in res_bind (GPT N c) (\<lambda>ps.
         res_bind (initial_laws N c) (\<lambda>l.
           Inr \<lparr>built_config = c, built_params = ps, built_laws = foldl train_init_weights l (gpt_modules c),
                built_optimizer = optimizer_of fa compute_settings ps\<rparr>)))"

definition build_single_model :: "nn_lib \<Rightarrow> bool \<Rightarrow> nat \<Rightarrow> built result" where
  "build_single_model N fa vocab =
     (let c = model_args single_settings vocab
      in res_bind (GPT N c) (\<lambda>ps.
         res_bind (initial_laws N c) (\<lambda>l.
           Inr \<lparr>built_config = c, built_params = ps, built_laws = l,
                built_optimizer = optimizer_of fa single_settings ps\<rparr>)))"

text \<open>The settings are those the loops and schedules are modelled with.\<close>

lemma settings_of_the_loops:
  assumes "S \<in> {train_settings, compute_settings, single_settings}"
  shows "eval_interval_s S = eval_interval" "log_interval_s S = log_interval" "eval_iters_s S = eval_iters"
    "max_iters_s S = max_iters" "warmup_iters_s S = warmup_iters" "lr_decay_iters_s S = lr_decay_iters"
    "of_rat (min_lr_s S) = min_lr" "path_join ''data'' (dataset S) = ''data/shakespeare''"
  using assms
  by (auto simp: train_settings_def compute_settings_def single_settings_def constants path_join_def of_rat_divide of_rat_power)

lemma settings_of_the_programs:
  "of_rat (learning_rate_s train_settings) = learning_rate" "of_rat (learning_rate_s single_settings) = single_learning_rate"
  "batch_size_s train_settings = module_batch_size" "gradient_accumulation_steps train_settings = module_grad_accum"
  "grad_clip_s train_settings = grad_clip"
  by (simp_all add: train_settings_def single_settings_def constants module_batch_size_def module_grad_accum_def
      grad_clip_def of_rat_divide of_rat_power)

lemma train_init_weights_eq: "train_init_weights = init_weights"
  by (auto simp: fun_eq_iff train_init_weights_def init_weights_def Let_def split: layer_kind.splits)

lemma same_architecture:
  "model_args compute_settings = model_args train_settings" "model_args single_settings = model_args train_settings"
  by (simp_all add: fun_eq_iff model_args_def train_settings_def compute_settings_def single_settings_def)

lemma model_args_fields [simp]:
  "GPTConfig.block_size (model_args train_settings v) = 64" "GPTConfig.vocab_size (model_args train_settings v) = v"
  "n_layer (model_args train_settings v) = 4" "n_head (model_args train_settings v) = 4"
  "n_embd (model_args train_settings v) = 128" "bias (model_args train_settings v)"
  "block_size_s train_settings = 64" "dataset train_settings = ''shakespeare''"
  by (simp_all add: model_args_def train_settings_def)

section \<open>The model that is built\<close>

lemma architecture_built:
  assumes "nn_documented N"
  obtains ps l where "GPT N (model_args train_settings v) = Inr ps" "initial_laws N (model_args train_settings v) = Inr l"
proof -
  have "n_head (model_args train_settings v) dvd n_embd (model_args train_settings v)" by simp
  then obtain b where "Block N (model_args train_settings v) = Inr b"
    using Block_ok_iff [of N "model_args train_settings v"] by auto
  then obtain ps where "GPT N (model_args train_settings v) = Inr ps" by (auto simp: GPT_eq [OF assms])
  then show thesis using that by (simp add: initial_laws_def)
qed

lemma architecture_size:
  assumes "nn_documented N" "GPT N (model_args train_settings v) = Inr ps"
  shows "get_num_params ps False = 128 * int v + 801536"
proof -
  obtain b where b: "Block N (model_args train_settings v) = Inr b"
    and ps: "count_params ps = v * 128 + 64 * 128 + 4 * count_params b + 2 * 128"
    using assms(2) by (auto simp: GPT_eq [OF assms(1)] count_gpt_blocks)
  from count_Block [OF assms(1) b] show ?thesis by (simp add: get_num_params_def ps block_weights_def)
qed

lemma projections_present:
  assumes "nn_documented N" "GPT N (model_args train_settings v) = Inr ps" "i < 4"
  shows "(block_name i @ ''.attn.c_proj.weight'', [128, 128]) \<in> set ps"
    "(block_name i @ ''.mlp.c_proj.weight'', [128, 512]) \<in> set ps"
proof -
  have lin: "Linear N k out w = (''weight'', [out, k]) # (if w then [(''bias'', [out])] else [])" for k out w
    using assms(1) by (simp add: nn_documented_def)
  obtain b where b: "Block N (model_args train_settings v) = Inr b"
    and ps: "ps = (''transformer.wte.weight'', [v, 128]) # (''transformer.wpe.weight'', [64, 128]) #
      submodule ''transformer'' (gpt_blocks N (model_args train_settings v) b @ submodule ''ln_f'' (LayerNorm 128 True))"
    using assms(2) by (auto simp: GPT_eq [OF assms(1)])
  have "(block_name i @ ''.'' @ x, sh) \<in> set ps" if "(x, sh) \<in> set b" for x sh
    using ps that assms(3) by (force simp: in_submodule gpt_blocks_def block_name_def)
  moreover have "(''attn.c_proj.weight'', [128, 128]) \<in> set b" "(''mlp.c_proj.weight'', [128, 512]) \<in> set b"
    using b by (auto simp: Block_def CausalSelfAttention_def MLP_def lin submodule_def split: if_splits)
  ultimately show "(block_name i @ ''.attn.c_proj.weight'', [128, 128]) \<in> set ps"
    "(block_name i @ ''.mlp.c_proj.weight'', [128, 512]) \<in> set ps"
    by (metis append_Cons append_Nil)+
qed

text \<open>Initialising again gives every matrix the plain law.\<close>

lemma law_after_second_init:
  assumes "nn_documented N" "GPT N c = Inr ps" "initial_laws N c = Inr l" "(n, sh) \<in> set ps"
  shows "foldl train_init_weights l (gpt_modules c) n =
     (if length sh = 2 then Normal 0 (2/100) else if suffix ''.bias'' n then Zeros else Ones)"
  unfolding train_init_weights_eq init_weights_law
  using assms(1,2,4)
proof (cases rule: parameter_kinds)
qed (use parameter_law [OF assms] in auto)

lemma optimizer_of_cpu: "adam_fused (optimizer_of fa S ps) = None"
  by (simp add: optimizer_of_def create_optimizer_def Let_def)

text \<open>C14: All three training programs build the same architecture of 801,536 parameters and 128 per token of the
  vocabulary, and none gets the fused optimizer.  Those of the compute engine and of the worker initialise
  the weights a second time, which undoes the smaller scale that the model gives its residual projections:
  these get the standard deviation of every other matrix, while the single trainer keeps the scale.\<close>

theorem training_models:
  assumes "nn_documented N"
  shows "\<exists>t u. build_train_model N fa v = Inr t \<and> build_compute_model N fa v = Inr t \<and> build_single_model N fa v = Inr u \<and>
     built_config u = built_config t \<and> built_params u = built_params t \<and>
     get_num_params (built_params t) False = 128 * int v + 801536 \<and>
     adam_fused (built_optimizer t) = None \<and> adam_fused (built_optimizer u) = None \<and>
     (\<forall>(n, sh) \<in> set (built_params t).
        built_laws t n = (if length sh = 2 then Normal 0 (2/100) else if suffix ''.bias'' n then Zeros else Ones) \<and>
        built_laws u n = (if suffix ''c_proj.weight'' n then Normal 0 (2/100 / sqrt 8) else built_laws t n)) \<and>
     (\<forall>i < 4. (block_name i @ ''.attn.c_proj.weight'', [128, 128]) \<in> set (built_params t) \<and>
              (block_name i @ ''.mlp.c_proj.weight'', [128, 512]) \<in> set (built_params t))"
proof -
  let ?c = "model_args train_settings v"
  obtain ps l where ps: "GPT N ?c = Inr ps" and l: "initial_laws N ?c = Inr l"
    by (rule architecture_built [OF assms])
  have same: "optimizer_of fa compute_settings ps = optimizer_of fa train_settings ps"
    by (simp add: optimizer_of_def train_settings_def compute_settings_def)
  let ?t = "\<lparr>built_config = ?c, built_params = ps, built_laws = foldl train_init_weights l (gpt_modules ?c),
      built_optimizer = optimizer_of fa train_settings ps\<rparr>"
  let ?u = "\<lparr>built_config = ?c, built_params = ps, built_laws = l, built_optimizer = optimizer_of fa single_settings ps\<rparr>"
  have "build_train_model N fa v = Inr ?t" "build_compute_model N fa v = Inr ?t" "build_single_model N fa v = Inr ?u"
    by (simp_all add: build_train_model_def build_compute_model_def build_single_model_def same_architecture ps l same Let_def)
  moreover have "l n = (if suffix ''c_proj.weight'' n then Normal 0 (2/100 / sqrt 8)
      else foldl train_init_weights l (gpt_modules ?c) n)" if "(n, sh) \<in> set ps" for n sh
    unfolding law_after_second_init [OF assms ps l that] parameter_law [OF assms ps l that] by (simp add: scaled_law_def)
  ultimately show ?thesis
    using architecture_size [OF assms ps] projections_present [OF assms ps] law_after_second_init [OF assms ps l]
    by (intro exI [of _ ?t] exI [of _ ?u]) (auto simp: optimizer_of_cpu)
qed

theorem training_models_witness:
  "\<exists>t u. build_train_model sample_nn True 65 = Inr t \<and> build_single_model sample_nn True 65 = Inr u \<and>
     get_num_params (built_params t) False = 809856 \<and>
     built_laws t ''transformer.h.0.attn.c_proj.weight'' = Normal 0 (2/100) \<and>
     built_laws u ''transformer.h.0.attn.c_proj.weight'' = Normal 0 (2/100 / sqrt 8)"
proof -
  have "block_name 0 @ ''.attn.c_proj.weight'' = ''transformer.h.0.attn.c_proj.weight''"
    by code_simp
  moreover have "suffix ''c_proj.weight'' ''transformer.h.0.attn.c_proj.weight''" by code_simp
  ultimately show ?thesis
    using training_models [OF sample_nn_documented, of True 65] by fastforce
qed

section \<open>Batches and model\<close>

text \<open>The values of the tokens that the embedding is indexed with.\<close>

definition tokens_of :: "64 word list \<Rightarrow> nat list" where
  "tokens_of row = map (\<lambda>t. nat (sint t)) row"

lemma forward_total:
  assumes "well_formed g" "length idx \<le> GPTConfig.block_size (config g)" "\<forall>i \<in> set idx. i < GPTConfig.vocab_size (config g)"
  shows "\<exists>rows. forward_train A g idx = Inr rows \<and> length rows = length idx"
  by (simp add: forward_train_def hidden_total [OF assms] length_hidden_ok)

text \<open>C25: Prepared data fits the model that the programs build for it: with the block size of the settings and
  the vocabulary size from \<open>meta.pkl\<close>, every row of every batch passes the forward pass, with a row of
  logits for each of its 64 positions, and every target is the number of a logit.\<close>

theorem prepared_batch_fits_model:
  assumes "uint16_documented np" "input_txt s = Some raw \<or> input_txt s = None \<and> fetch = Inr raw"
    and "chs = universal_newlines raw" "card (set chs) \<le> 65536" "tensor_documented L"
    and "(split, part) \<in> {(''train'', take (9 * length chs div 10) chs), (''val'', drop (9 * length chs div 10) chs)}"
    and "64 < length part" "0 < bs"
  shows "\<exists>s' x y. prepare_shakespeare fetch np s = (Return (), s') \<and>
     fst (get_batch L (open_dataset s') (path_join ''data'' (dataset train_settings)) split bs
       (block_size_s train_settings) None) = Return (x, y) \<and> length x = bs \<and> length y = bs \<and>
     (\<forall>A g. well_formed g \<and> config g = model_args train_settings (meta_vocab s') \<longrightarrow>
        (\<forall>row \<in> set x. \<exists>logits. forward_train A g (tokens_of row) = Inr logits \<and> length logits = 64) \<and>
        (\<forall>row \<in> set y. length row = 64 \<and> (\<forall>t \<in> set (tokens_of row). t < GPTConfig.vocab_size (config g))))"
proof -
  obtain s' m data ix where run: "prepare_shakespeare fetch np s = (Return (), s')" "meta_pkl s' = Some m"
    and m: "m = \<lparr>meta.vocab_size = card (set chs), itos = int_to_char (text_chars chs), stoi = char_to_int (text_chars chs)\<rparr>"
    and part: "part = take (9 * length chs div 10) chs \<and> data = take (9 * length chs div 10) (text_tokens chs) \<or>
      part = drop (9 * length chs div 10) chs \<and> data = drop (9 * length chs div 10) (text_tokens chs)"
    and batch: "fst (get_batch L (open_dataset s') (path_join ''data'' ''shakespeare'') split bs 64 None) =
      Return (map (batch_row L data 64) ix, map (\<lambda>i. batch_row L data 64 (i + 1)) ix)"
    and len: "length ix = bs" "\<forall>i \<in> set ix. i + 64 < length data"
    by (rule prepared_batch [OF assms])
  have vocab: "meta_vocab s' = card (set chs)" by (simp add: meta_vocab_def vocab_size_of_def run m)
  have tokens: "t < card (set chs)" if "t \<in> set (tokens_of (batch_row L data 64 i))" for t i
    using that batch_token_bounds [OF assms(5,4) part, of _ 64 i] by (force simp: tokens_of_def)
  have row: "length (batch_row L data 64 i) = 64" "length (batch_row L data 64 (i + 1)) = 64" if "i \<in> set ix" for i
    using len(2) that by (auto simp: batch_row_def py_slice_def)
  have "\<exists>logits. forward_train A g (tokens_of (batch_row L data 64 i)) = Inr logits \<and> length logits = 64"
    if "i \<in> set ix" "well_formed g" "config g = model_args train_settings (meta_vocab s')" for A g i
    using forward_total [OF that(2), of "tokens_of (batch_row L data 64 i)" A] row(1) [OF that(1)] tokens [of _ i]
    by (simp add: that(3) vocab tokens_of_def)
  with run batch len(1) row(2) tokens show ?thesis
    by (intro exI [of _ s'] exI [of _ "map (batch_row L data 64) ix"] exI [of _ "map (\<lambda>i. batch_row L data 64 (i + 1)) ix"])
       (auto simp: vocab)
qed

text \<open>A model of the given configuration without blocks of attention, for the witness.\<close>

definition sample_built :: "GPTConfig \<Rightarrow> gpt_mod" where
  "sample_built c = \<lparr>config = c, wte = replicate (GPTConfig.vocab_size c) [], wpe = replicate (GPTConfig.block_size c) [],
     h = [], ln_f = id, lm_head = id\<rparr>"

lemma sample_built_config: "well_formed (sample_built c)" "config (sample_built c) = c"
  by (simp_all add: well_formed_def sample_built_def)

theorem prepared_batch_fits_model_witness:
  "\<exists>s' x y. prepare_shakespeare (Inr (replicate 80 97)) (\<lambda>ns. Inr (map of_nat ns))
       \<lparr>input_txt = None, meta_pkl = None, train_bin = None, val_bin = None\<rparr> = (Return (), s') \<and>
     fst (get_batch sample_lib (open_dataset s') (path_join ''data'' (dataset train_settings)) ''train'' 1
       (block_size_s train_settings) None) = Return (x, y) \<and> length x = 1 \<and>
     (\<forall>row \<in> set x. \<exists>logits. forward_train sample_att (sample_built (model_args train_settings (meta_vocab s')))
        (tokens_of row) = Inr logits \<and> length logits = 64)"
proof -
  let ?s = "\<lparr>input_txt = None, meta_pkl = None, train_bin = None, val_bin = None\<rparr>"
  let ?raw = "replicate 80 97 :: codepoint list"
  have np: "uint16_documented (\<lambda>ns. Inr (map of_nat ns))" by (simp add: uint16_documented_def)
  have raw: "input_txt ?s = Some ?raw \<or> input_txt ?s = None \<and> (Inr ?raw :: codepoint list result) = Inr ?raw" by simp
  have chs: "?raw = universal_newlines ?raw" by code_simp
  have card: "card (set ?raw) \<le> 65536" by simp
  have split: "(''train'', replicate 72 97) \<in> {(''train'', take (9 * length ?raw div 10) ?raw), (''val'', drop (9 * length ?raw div 10) ?raw)}"
    by simp
  have "64 < length (replicate 72 (97 :: nat))" "(0 :: nat) < 1" by simp_all
  from prepared_batch_fits_model [OF np raw chs card sample_lib_documented split this]
  show ?thesis using sample_built_config by blast
qed

end
