(* ===== verification/Ccl_Simulator.thy ===== *)
theory Ccl_Simulator
  imports Monitor_Agent
begin

text \<open>
  The simulator of communication logs, \<open>components/monitor/python_test/test.py\<close>: the class
  \<open>CCLSimulator\<close> invents operations and posts the start and the end of each to the agent.  The module
  \<open>random\<close> is a sequence of natural numbers that the calls consume one after the other, so that every
  sequence of outcomes is one of the model; floating-point rounding is left out.
\<close>

section \<open>State and random numbers\<close>

record simulator =
  sim_running :: bool
  operation_counter :: nat
  num_ranks :: int
  current_time_us :: int
  ongoing_operations :: "(string, record_dict) dict"
  random_source :: "nat \<Rightarrow> nat"
  random_used :: nat

text \<open>\<open>NUM_RANKS\<close> unset or empty means four.\<close>

definition num_ranks_of :: "environ \<Rightarrow> int result" where
  "num_ranks_of env = (case dict_get env ''NUM_RANKS'' of
       None \<Rightarrow> Inr 4
     | Some s \<Rightarrow> if s = [] then Inr 4 else py_int (JStr s))"

text \<open>\<open>now\<close> is \<open>time.time()\<close>.\<close>

definition simulator_init :: "int \<Rightarrow> rat \<Rightarrow> (nat \<Rightarrow> nat) \<Rightarrow> simulator" where
  "simulator_init ranks now source =
     \<lparr>sim_running = True, operation_counter = 0, num_ranks = ranks,
      current_time_us = trunc_rat (now * 1000000), ongoing_operations = [],
      random_source = source, random_used = 0\<rparr>"

definition randint_value :: "int \<Rightarrow> int \<Rightarrow> nat \<Rightarrow> int" where
  "randint_value lo hi d = lo + int d mod (hi - lo + 1)"

definition next_draw :: "(simulator, nat) py" where
  "next_draw = (\<lambda>s. (Return (random_source s (random_used s)), s\<lparr>random_used := Suc (random_used s)\<rparr>))"

definition randint :: "int \<Rightarrow> int \<Rightarrow> (simulator, int) py" where
  "randint lo hi = (if hi < lo then py_raise ValueError
                    else py_bind next_draw (\<lambda>d. py_return (randint_value lo hi d)))"

definition rand_choice :: "'a list \<Rightarrow> (simulator, 'a) py" where
  "rand_choice xs = (if xs = [] then py_raise IndexError
                     else py_bind next_draw (\<lambda>d. py_return (xs ! (d mod length xs))))"

text \<open>\<open>random.random()\<close> is a multiple of two to the power of minus 53 below one.\<close>

definition rand_unit :: "(simulator, rat) py" where
  "rand_unit = py_bind next_draw (\<lambda>d. py_return (of_nat (d mod 2 ^ 53) / 2 ^ 53))"

definition rand_uniform :: "rat \<Rightarrow> rat \<Rightarrow> (simulator, rat) py" where
  "rand_uniform a b = py_bind rand_unit (\<lambda>r. py_return (a + (b - a) * r))"

section \<open>Operations\<close>

definition collective_ops :: "string list" where
  "collective_ops = [''allreduce'', ''broadcast'', ''allgather'', ''reduce'']"

definition algorithms :: "string list" where
  "algorithms = [''ring'', ''butterfly'', ''pairwise'', ''bcube'']"

definition data_types :: "string list" where
  "data_types = [''float32'', ''float64'', ''int32'', ''int64'']"

definition get_random_bytes :: "(simulator, int) py" where
  "get_random_bytes = randint 1024 (1024 * 1024 * 1024)"

definition get_random_count :: "(simulator, int) py" where
  "get_random_count = randint 100 1000000"

definition collective_event ::
  "string \<Rightarrow> string \<Rightarrow> string \<Rightarrow> int \<Rightarrow> int \<Rightarrow> int \<Rightarrow> int \<Rightarrow> int \<Rightarrow> int \<Rightarrow> bool \<Rightarrow> record_dict" where
  "collective_event op_type algorithm data_type cnt root_rank rank n t t_end fin =
     [(''opType'', JStr op_type), (''algorithm'', JStr algorithm), (''dataType'', JStr data_type),
      (''count'', JInt cnt), (''rootRank'', JInt root_rank), (''context_rank'', JInt rank),
      (''context_size'', JInt n), (''startTime'', JInt t), (''endTime'', JInt t_end),
      (''filename'', JStr (op_type @ ''_op.cpp'')), (''finished'', JBool fin)]"

definition generate_collective_operation :: "(simulator, record_dict) py" where
  "generate_collective_operation =
     py_bind (rand_choice collective_ops) (\<lambda>op_type.
     py_bind (py_get num_ranks) (\<lambda>n.
     py_bind (randint 0 (n - 1)) (\<lambda>rank.
     py_bind (rand_choice algorithms) (\<lambda>algorithm.
     py_bind (rand_choice data_types) (\<lambda>data_type.
     py_bind get_random_count (\<lambda>cnt.
     py_bind (if op_type \<in> set [''broadcast'', ''reduce''] then randint 0 (n - 1) else py_return (- 1)) (\<lambda>root_rank.
     py_bind (py_get current_time_us) (\<lambda>t.
       py_return (collective_event op_type algorithm data_type cnt root_rank rank n t 0 False)))))))))"

text \<open>
  The loop that draws another rank until it differs from the own one, from the draw with number
  \<open>i\<close> on: \<open>None\<close> if it never ends.
\<close>

partial_function (option) pick_remote ::
  "(nat \<Rightarrow> nat) \<Rightarrow> int \<Rightarrow> int \<Rightarrow> nat \<Rightarrow> (int \<times> nat) option" where
  "pick_remote source n rank i =
     (let remote = randint_value 0 (n - 1) (source i)
      in if remote = rank then pick_remote source n rank (Suc i) else Some (remote, Suc i))"

definition remote_rank_loop :: "int \<Rightarrow> int \<Rightarrow> (simulator, int) py" where
  "remote_rank_loop n rank = (\<lambda>s. case pick_remote (random_source s) n rank (random_used s) of
       None \<Rightarrow> (Blocked, s)
     | Some (remote, i) \<Rightarrow> (Return remote, s\<lparr>random_used := i\<rparr>))"

definition p2p_event ::
  "string \<Rightarrow> int \<Rightarrow> int \<Rightarrow> int \<Rightarrow> int \<Rightarrow> int \<Rightarrow> int \<Rightarrow> bool \<Rightarrow> record_dict" where
  "p2p_event op_type remote_rank rank n bytes t t_end fin =
     [(''opType'', JStr op_type), (''remoteRank'', JInt remote_rank), (''context_rank'', JInt rank),
      (''context_size'', JInt n), (''bytes'', JInt bytes), (''startTime'', JInt t),
      (''endTime'', JInt t_end), (''filename'', JStr ''p2p_comm.cpp''), (''finished'', JBool fin)]"

definition generate_p2p_operation :: "(simulator, record_dict) py" where
  "generate_p2p_operation =
     py_bind (rand_choice [''send'', ''recv'']) (\<lambda>op_type.
     py_bind (py_get num_ranks) (\<lambda>n.
     py_bind (randint 0 (n - 1)) (\<lambda>rank.
     py_bind (remote_rank_loop n rank) (\<lambda>remote_rank.
     py_bind get_random_bytes (\<lambda>bytes.
     py_bind (py_get current_time_us) (\<lambda>t.
       py_return (p2p_event op_type remote_rank rank n bytes t 0 False)))))))"

definition lower_char :: "char \<Rightarrow> char" where
  "lower_char c = (let n = of_char c :: nat in if 65 \<le> n \<and> n \<le> 90 then char_of (n + 32) else c)"

text \<open>
  The microseconds an operation takes: \<open>elapsed\<close> is the time since the start of the simulator.
\<close>

definition simulated_latency :: "environ \<Rightarrow> rat \<Rightarrow> int" where
  "simulated_latency env elapsed =
     (if map lower_char (getenv env ''FAIL'' ''false'') = ''true'' then
        if elapsed > 5 then trunc_rat ((4/10 + (elapsed - 5) * (1/10)) * 1000000)
        else trunc_rat (4/10 * 1000000)
      else trunc_rat (4/10 * 1000000))"

text \<open>The generators write an integer start time.\<close>

definition complete_operation :: "environ \<Rightarrow> rat \<Rightarrow> record_dict \<Rightarrow> record_dict result" where
  "complete_operation env elapsed event =
     res_bind (log_index event ''startTime'') (\<lambda>v.
       case v of
         JInt t \<Rightarrow> Inr (dict_set ''finished'' (JBool True)
                    (dict_set ''endTime'' (JInt (t + simulated_latency env elapsed)) event))
       | _ \<Rightarrow> Inl TypeError)"

text \<open>
  One pass of the loop: the two events it posts.  Sleeping is left out.
\<close>

definition simulation_round :: "environ \<Rightarrow> rat \<Rightarrow> (simulator, record_dict \<times> record_dict) py" where
  "simulation_round env elapsed =
     py_bind rand_unit (\<lambda>r.
     py_bind (if r < 7/10 then generate_collective_operation else generate_p2p_operation) (\<lambda>event.
     py_bind (rand_uniform (1/1000) (1/10)) (\<lambda>completion_delay.
     py_bind (py_lift (complete_operation env elapsed event)) (\<lambda>completion_event.
     py_seq (py_modify (\<lambda>s. s\<lparr>current_time_us := current_time_us s + trunc_rat (completion_delay * 1000000)\<rparr>))
     (py_bind (rand_uniform (1/100) (1/2)) (\<lambda>pause.
       py_return (event, completion_event)))))))"

text \<open>A thread of the simulator for as many rounds as the list has: the events it posts, in order, and
  how it ended.\<close>

primrec simulation_loop :: "environ \<Rightarrow> rat list \<Rightarrow> simulator \<Rightarrow> record_dict list \<times> unit outcome \<times> simulator" where
  "simulation_loop env [] s = ([], Return (), s)"
| "simulation_loop env (elapsed # rest) s =
     (if \<not> sim_running s then ([], Return (), s)
      else (case simulation_round env elapsed s of
              (Return (event, done), t) \<Rightarrow>
                (case simulation_loop env rest t of (events, out, u) \<Rightarrow> (event # done # events, out, u))
            | (Raise e, t) \<Rightarrow> ([], Raise e, t)
            | (Blocked, t) \<Rightarrow> ([], Blocked, t)))"

section \<open>Random numbers stay in range\<close>

text \<open>The operations that draw change only how many numbers were used.\<close>

definition drawn :: "simulator \<Rightarrow> simulator \<Rightarrow> bool" where
  "drawn s t \<longleftrightarrow> (\<exists>i. t = s\<lparr>random_used := i\<rparr>)"

lemma drawn_refl [intro, simp]: "drawn s s"
  unfolding drawn_def by (rule exI [of _ "random_used s"]) simp

lemma drawn_step [intro, simp]: "drawn s (s\<lparr>random_used := i\<rparr>)"
  by (auto simp: drawn_def)

lemma drawn_trans [trans]: "drawn s t \<Longrightarrow> drawn t u \<Longrightarrow> drawn s u"
  by (auto simp: drawn_def)

lemma drawn_same:
  "drawn s t \<Longrightarrow> num_ranks t = num_ranks s \<and> current_time_us t = current_time_us s \<and>
     random_source t = random_source s \<and> sim_running t = sim_running s"
  by (auto simp: drawn_def)

lemma randint_value_range: "lo \<le> hi \<Longrightarrow> lo \<le> randint_value lo hi d \<and> randint_value lo hi d \<le> hi"
  using pos_mod_bound [of "hi - lo + 1" "int d"] by (simp add: randint_value_def)

lemma wp_draw: "wp next_draw Q X s \<longleftrightarrow> Q (random_source s (random_used s)) (s\<lparr>random_used := Suc (random_used s)\<rparr>)"
  by (simp add: wp_def next_draw_def)

lemma wp_randint:
  "(\<And>r t. lo \<le> r \<Longrightarrow> r \<le> hi \<Longrightarrow> drawn s t \<Longrightarrow> Q r t) \<Longrightarrow> (hi < lo \<Longrightarrow> X s) \<Longrightarrow> wp (randint lo hi) Q X s"
  unfolding randint_def py_wp wp_draw
  using randint_value_range [of lo hi "random_source s (random_used s)"]
  by (auto simp: drawn_def not_less)

lemma wp_rand_choice:
  "(\<And>x t. x \<in> set xs \<Longrightarrow> drawn s t \<Longrightarrow> Q x t) \<Longrightarrow> xs \<noteq> [] \<Longrightarrow> wp (rand_choice xs) Q X s"
  unfolding rand_choice_def py_wp wp_draw by simp

lemma unit_bounds: "0 \<le> (of_nat (d mod 2 ^ 53) / 2 ^ 53 :: rat) \<and> (of_nat (d mod 2 ^ 53) / 2 ^ 53 :: rat) < 1"
proof -
  have "d mod 2 ^ 53 < 2 ^ 53" by simp
  then have "(of_nat (d mod 2 ^ 53) :: rat) < of_nat (2 ^ 53)" by (simp only: of_nat_less_iff)
  then show ?thesis by (simp add: divide_less_eq)
qed

lemma wp_rand_unit:
  "(\<And>r t. 0 \<le> r \<Longrightarrow> r < 1 \<Longrightarrow> drawn s t \<Longrightarrow> Q r t) \<Longrightarrow> wp rand_unit Q X s"
  unfolding rand_unit_def py_wp wp_draw using unit_bounds by blast

lemma wp_rand_uniform:
  assumes "\<And>r t. a \<le> r \<Longrightarrow> r < b \<Longrightarrow> drawn s t \<Longrightarrow> Q r t" "a < b"
  shows "wp (rand_uniform a b) Q X s"
  unfolding rand_uniform_def py_wp
proof (rule wp_rand_unit)
  fix r t assume r: "0 \<le> r" "r < (1 :: rat)" "drawn s t"
  have "(b - a) * r < (b - a) * 1" using assms(2) r(2) by (intro mult_strict_left_mono) simp_all
  moreover have "0 \<le> (b - a) * r" using assms(2) r(1) by simp
  ultimately show "Q (a + (b - a) * r) t" using r(3) by (intro assms(1)) simp_all
qed

section \<open>Events\<close>

definition simulated :: "int \<Rightarrow> int \<Rightarrow> int \<Rightarrow> bool \<Rightarrow> record_dict \<Rightarrow> bool" where
  "simulated n t t_end fin ev \<longleftrightarrow>
     (\<exists>op_type algorithm data_type cnt root_rank rank.
        ev = collective_event op_type algorithm data_type cnt root_rank rank n t t_end fin \<and>
        op_type \<in> set collective_ops \<and> 0 \<le> rank \<and> rank < n) \<or>
     (\<exists>op_type remote_rank rank bytes.
        ev = p2p_event op_type remote_rank rank n bytes t t_end fin \<and>
        op_type \<in> {''send'', ''recv''} \<and> 0 \<le> rank \<and> rank < n)"

lemma simulated_collective:
  "op_type \<in> set collective_ops \<Longrightarrow> 0 \<le> rank \<Longrightarrow> rank < n \<Longrightarrow>
   simulated n t t_end fin (collective_event op_type algorithm data_type cnt root_rank rank n t t_end fin)"
  unfolding simulated_def by blast

lemma simulated_p2p:
  "op_type \<in> {''send'', ''recv''} \<Longrightarrow> 0 \<le> rank \<Longrightarrow> rank < n \<Longrightarrow>
   simulated n t t_end fin (p2p_event op_type remote_rank rank n bytes t t_end fin)"
  unfolding simulated_def by blast

lemma choices_nonempty [simp]: "collective_ops \<noteq> []" "algorithms \<noteq> []" "data_types \<noteq> []"
  by (simp_all add: collective_ops_def algorithms_def data_types_def)

lemma drawnE: "drawn s t \<Longrightarrow> (\<And>i. t = s\<lparr>random_used := i\<rparr> \<Longrightarrow> P) \<Longrightarrow> P"
  by (auto simp: drawn_def)

lemma wp_generate_collective:
  "wp generate_collective_operation
     (\<lambda>ev t. simulated (num_ranks s) (current_time_us s) 0 False ev \<and> drawn s t) (\<lambda>_. True) s"
  unfolding generate_collective_operation_def get_random_count_def py_wp
  by (auto intro!: wp_rand_choice wp_randint simulated_collective elim!: drawnE)

lemma wp_remote_rank_loop:
  "(\<And>r t. drawn s t \<Longrightarrow> Q r t) \<Longrightarrow> X s \<Longrightarrow> wp (remote_rank_loop n rank) Q X s"
  by (auto simp: wp_def remote_rank_loop_def split: option.splits)

lemma wp_generate_p2p:
  "wp generate_p2p_operation
     (\<lambda>ev t. simulated (num_ranks s) (current_time_us s) 0 False ev \<and> drawn s t) (\<lambda>_. True) s"
  unfolding generate_p2p_operation_def get_random_bytes_def py_wp
  by (auto intro!: wp_rand_choice wp_randint wp_remote_rank_loop simulated_p2p elim!: drawnE)

lemma complete_simulated:
  assumes "simulated n t t_end fin ev" "complete_operation env elapsed ev = Inr ev'"
  shows "simulated n t (t + simulated_latency env elapsed) True ev' \<and> op_key ev' = op_key ev \<and>
    dict_get ev' ''context_rank'' = dict_get ev ''context_rank''"
  using assms(1) [unfolded simulated_def]
proof (elim disjE exE conjE)
  fix op_type algorithm data_type cnt root_rank rank
  assume ev: "ev = collective_event op_type algorithm data_type cnt root_rank rank n t t_end fin"
    and "op_type \<in> set collective_ops" "0 \<le> rank" "rank < n"
  moreover have "ev' = collective_event op_type algorithm data_type cnt root_rank rank n t
      (t + simulated_latency env elapsed) True"
    using assms(2) by (simp add: ev complete_operation_def collective_event_def log_index_def)
  moreover from calculation have "simulated n t (t + simulated_latency env elapsed) True ev'"
    by (simp only: simulated_collective)
  ultimately show ?thesis by (simp add: collective_event_def op_key_def log_index_def)
next
  fix op_type remote_rank rank bytes
  assume ev: "ev = p2p_event op_type remote_rank rank n bytes t t_end fin"
    and "op_type \<in> {''send'', ''recv''}" "0 \<le> rank" "rank < n"
  moreover have "ev' = p2p_event op_type remote_rank rank n bytes t (t + simulated_latency env elapsed) True"
    using assms(2) by (simp add: ev complete_operation_def p2p_event_def log_index_def)
  moreover from calculation have "simulated n t (t + simulated_latency env elapsed) True ev'"
    by (simp only: simulated_p2p)
  ultimately show ?thesis by (simp add: p2p_event_def op_key_def log_index_def)
qed

lemma complete_total: "simulated n t t_end fin ev \<Longrightarrow> \<exists>ev'. complete_operation env elapsed ev = Inr ev'"
  by (auto simp: simulated_def complete_operation_def collective_event_def p2p_event_def log_index_def)

text \<open>What the agent stores of an event.\<close>

lemma simulated_recorded:
  assumes "simulated n t t_end fin ev"
  shows "\<exists>rec. ccl_record now (JObj ev) = Inr (rec, False) \<and>
     (\<exists>op. op_key rec = Inr op \<and> op_key ev = Inr op) \<and>
     dict_get rec ''startTime'' = Some (JInt t) \<and> dict_get rec ''endTime'' = Some (JInt t_end) \<and>
     dict_get rec ''finished'' = Some (JBool fin) \<and> dict_get rec ''context_size'' = Some (JInt n) \<and>
     (\<exists>rank. dict_get rec ''context_rank'' = Some (JInt rank) \<and> dict_get ev ''context_rank'' = Some (JInt rank) \<and>
        0 \<le> rank \<and> rank < n)"
  using assms unfolding simulated_def
proof (elim disjE exE conjE)
  fix op_type algorithm data_type cnt root_rank rank
  assume ev: "ev = collective_event op_type algorithm data_type cnt root_rank rank n t t_end fin"
    and op: "op_type \<in> set collective_ops" and "0 \<le> rank" "rank < n"
  from op have "\<not> is_p2p (JStr op_type)" by (auto simp: is_p2p_def collective_ops_def)
  then show ?thesis using \<open>0 \<le> rank\<close> \<open>rank < n\<close>
    by (simp add: ev collective_event_def ccl_record_def collective_fields_def log_index_def op_key_def
        drop_nulls_def Let_def)
next
  fix op_type remote_rank rank bytes
  assume ev: "ev = p2p_event op_type remote_rank rank n bytes t t_end fin"
    and op: "op_type \<in> {''send'', ''recv''}" and "0 \<le> rank" "rank < n"
  from op have "is_p2p (JStr op_type)" by (auto simp: is_p2p_def)
  then show ?thesis using \<open>0 \<le> rank\<close> \<open>rank < n\<close>
    by (simp add: ev p2p_event_def ccl_record_def p2p_fields_def log_index_def op_key_def
        drop_nulls_def Let_def)
qed

lemma latency_bounds: "400000 \<le> simulated_latency env elapsed"
proof -
  have "400000 \<le> trunc_rat ((4/10 + (elapsed - 5) * (1/10)) * 1000000)" if "elapsed > 5"
  proof -
    have "of_int 400000 \<le> (4/10 + (elapsed - 5) * (1/10)) * (1000000 :: rat)"
      using that by (simp add: algebra_simps)
    then have "400000 \<le> \<lfloor>(4/10 + (elapsed - 5) * (1/10)) * 1000000\<rfloor>"
      by (simp only: le_floor_iff)
    moreover have "\<not> (4/10 + (elapsed - 5) * (1/10)) * 1000000 < 0"
      using that by (simp only: not_less) (intro mult_nonneg_nonneg add_nonneg_nonneg, simp_all)
    ultimately show ?thesis by (simp only: trunc_rat_def if_False)
  qed
  then show ?thesis by (simp add: simulated_latency_def trunc_rat_def)
qed

lemma delay_bounds:
  assumes "1/1000 \<le> d" "d < 1/10"
  shows "1000 \<le> trunc_rat (d * 1000000)" "trunc_rat (d * 1000000) < 100000"
proof -
  have pos: "\<not> d * 1000000 < 0" using assms by linarith
  have "of_int 1000 \<le> d * 1000000" "d * 1000000 < of_int 100000" using assms by simp_all
  then show "1000 \<le> trunc_rat (d * 1000000)" "trunc_rat (d * 1000000) < 100000"
    unfolding trunc_rat_def using pos by (simp_all only: if_False le_floor_iff floor_less_iff)
qed

lemma generate_simulated:
  "wp (if b then generate_collective_operation else generate_p2p_operation)
     (\<lambda>ev t. simulated (num_ranks s) (current_time_us s) 0 False ev \<and> drawn s t) (\<lambda>_. True) s"
  using wp_generate_collective [of s] wp_generate_p2p [of s] by simp

lemma simulation_round_events:
  "wp (simulation_round env elapsed) (\<lambda>(event, done) t.
       simulated (num_ranks s) (current_time_us s) 0 False event \<and>
       simulated (num_ranks s) (current_time_us s) (current_time_us s + simulated_latency env elapsed) True done \<and>
       op_key done = op_key event \<and> dict_get done ''context_rank'' = dict_get event ''context_rank'' \<and>
       num_ranks t = num_ranks s \<and>
       current_time_us s + 1000 \<le> current_time_us t \<and> current_time_us t < current_time_us s + 100000)
     (\<lambda>_. True) s"
  unfolding simulation_round_def wp_bind wp_seq wp_return wp_modify wp_lift
  by (rule wp_rand_unit, rule wp_mono [OF generate_simulated])
    (auto intro!: wp_rand_uniform elim!: drawnE dest: complete_simulated simp: delay_bounds split: sum.splits)

lemma simulated_logged:
  assumes "simulated n t t_end fin ev" "\<not> ccl_locked m"
  shows "\<exists>rec. agent_handle E (LogCcl now (JObj ev)) m =
       (Reply 200 (JStr ''OK''), m\<lparr>ccl_logs := ccl_logs m @ [rec]\<rparr>) \<and>
     (\<exists>op. op_key rec = Inr op \<and> op_key ev = Inr op) \<and>
     dict_get rec ''startTime'' = Some (JInt t) \<and> dict_get rec ''endTime'' = Some (JInt t_end) \<and>
     dict_get rec ''finished'' = Some (JBool fin) \<and> dict_get rec ''context_size'' = Some (JInt n) \<and>
     (\<exists>rank. dict_get rec ''context_rank'' = Some (JInt rank) \<and> dict_get ev ''context_rank'' = Some (JInt rank) \<and>
        0 \<le> rank \<and> rank < n)"
proof -
  from simulated_recorded [OF assms(1), of now] obtain rec where "ccl_record now (JObj ev) = Inr (rec, False)"
    and rest: "(\<exists>op. op_key rec = Inr op \<and> op_key ev = Inr op) \<and>
     dict_get rec ''startTime'' = Some (JInt t) \<and> dict_get rec ''endTime'' = Some (JInt t_end) \<and>
     dict_get rec ''finished'' = Some (JBool fin) \<and> dict_get rec ''context_size'' = Some (JInt n) \<and>
     (\<exists>rank. dict_get rec ''context_rank'' = Some (JInt rank) \<and> dict_get ev ''context_rank'' = Some (JInt rank) \<and>
        0 \<le> rank \<and> rank < n)" by blast
  then have "agent_handle E (LogCcl now (JObj ev)) m =
      (Reply 200 (JStr ''OK''), m\<lparr>ccl_logs := ccl_logs m @ [rec]\<rparr>)"
    by (simp add: run_view_def log_ccl_free [OF assms(2)])
  with rest show ?thesis by blast
qed

section \<open>Properties\<close>

text \<open>The agent accepts both events of every round of the simulator and stores a record of each, of one
  operation type and with a rank below the number of ranks; the first is unfinished, the second finished
  and ends at least 400 ms after it started, while the simulated clock moves by less than 100 ms, so the
  next operation starts before this one has ended.  The buffered logs stay groupable.\<close>

theorem simulated_round_logged:
  assumes "simulation_round env elapsed s = (Return (event, done), s')" "\<not> ccl_locked m"
    and "\<forall>l \<in> set (ccl_logs m). \<exists>op. op_key l = Inr op"
  shows "\<exists>r1 r2 t op rank.
     serve (agent_handle E) [LogCcl now1 (JObj event), LogCcl now2 (JObj done)] m =
       ([Reply 200 (JStr ''OK''), Reply 200 (JStr ''OK'')], m\<lparr>ccl_logs := ccl_logs m @ [r1, r2]\<rparr>) \<and>
     op_key r1 = Inr op \<and> op_key r2 = Inr op \<and>
     dict_get r1 ''finished'' = Some (JBool False) \<and> dict_get r2 ''finished'' = Some (JBool True) \<and>
     dict_get r1 ''startTime'' = Some (JInt t) \<and> dict_get r2 ''startTime'' = Some (JInt t) \<and>
     dict_get r1 ''endTime'' = Some (JInt 0) \<and>
     dict_get r2 ''endTime'' = Some (JInt (t + simulated_latency env elapsed)) \<and>
     t = current_time_us s \<and> t < current_time_us s' \<and> current_time_us s' < t + 100000 \<and>
     400000 \<le> simulated_latency env elapsed \<and>
     dict_get r1 ''context_rank'' = Some (JInt rank) \<and> dict_get r2 ''context_rank'' = Some (JInt rank) \<and>
     0 \<le> rank \<and> rank < num_ranks s \<and>
     (\<exists>g. group_logs (ccl_logs m @ [r1, r2]) [] = Inr g)"
proof -
  have round: "simulated (num_ranks s) (current_time_us s) 0 False event"
    "simulated (num_ranks s) (current_time_us s) (current_time_us s + simulated_latency env elapsed) True done"
    "op_key done = op_key event" "dict_get done ''context_rank'' = dict_get event ''context_rank''"
    "current_time_us s + 1000 \<le> current_time_us s'" "current_time_us s' < current_time_us s + 100000"
    using simulation_round_events [of env elapsed s] assms(1) by (simp_all add: wp_def)
  from simulated_logged [OF round(1) assms(2), of E now1] obtain r1 op rank1 where r1:
    "agent_handle E (LogCcl now1 (JObj event)) m = (Reply 200 (JStr ''OK''), m\<lparr>ccl_logs := ccl_logs m @ [r1]\<rparr>)"
    "op_key r1 = Inr op" "op_key event = Inr op" "dict_get r1 ''startTime'' = Some (JInt (current_time_us s))"
    "dict_get r1 ''endTime'' = Some (JInt 0)" "dict_get r1 ''finished'' = Some (JBool False)"
    "dict_get r1 ''context_rank'' = Some (JInt rank1)" "dict_get event ''context_rank'' = Some (JInt rank1)" "0 \<le> rank1" "rank1 < num_ranks s" by blast
  let ?m = "m\<lparr>ccl_logs := ccl_logs m @ [r1]\<rparr>"
  have "\<not> ccl_locked ?m" using assms(2) by simp
  from simulated_logged [OF round(2) this, of E now2] obtain r2 op2 rank2 where r2:
    "agent_handle E (LogCcl now2 (JObj done)) ?m = (Reply 200 (JStr ''OK''), ?m\<lparr>ccl_logs := ccl_logs ?m @ [r2]\<rparr>)"
    "op_key r2 = Inr op2" "op_key done = Inr op2" "dict_get r2 ''startTime'' = Some (JInt (current_time_us s))"
    "dict_get r2 ''endTime'' = Some (JInt (current_time_us s + simulated_latency env elapsed))"
    "dict_get r2 ''finished'' = Some (JBool True)"
    "dict_get r2 ''context_rank'' = Some (JInt rank2)" "dict_get done ''context_rank'' = Some (JInt rank2)" "0 \<le> rank2" "rank2 < num_ranks s" by blast
  have op: "op2 = op" "rank2 = rank1" using round(3,4) r1(3,8) r2(3,8) by simp_all
  have groups: "\<exists>g. group_logs (ccl_logs m @ [r1, r2]) [] = Inr g"
    by (rule group_logs_total) (use assms(3) r1(2) r2(2) in auto)
  have served: "serve (agent_handle E) [LogCcl now1 (JObj event), LogCcl now2 (JObj done)] m =
      ([Reply 200 (JStr ''OK''), Reply 200 (JStr ''OK'')], m\<lparr>ccl_logs := ccl_logs m @ [r1, r2]\<rparr>)"
    using r1(1) r2(1) by (simp del: agent_handle.simps)
  have clock: "current_time_us s < current_time_us s'" using round(5) by simp
  show ?thesis
    by (intro exI [of _ r1] exI [of _ r2] exI [of _ "current_time_us s"] exI [of _ op] exI [of _ rank1] conjI)
      (rule served r1 r2 [unfolded op] refl clock round latency_bounds groups)+
qed

lemma wp_cond: "wp m Q X s \<Longrightarrow> wp k Q X s \<Longrightarrow> wp (if b then m else k) Q X s"
  by simp

lemma collective_returns:
  "0 < num_ranks s \<Longrightarrow> wp generate_collective_operation (\<lambda>_ _. True) (\<lambda>_. False) s"
  unfolding generate_collective_operation_def get_random_count_def wp_bind wp_get
  by (intro wp_rand_choice wp_randint wp_cond; (elim drawnE)?; simp add: wp_return)

lemma collective_round_returns:
  assumes "random_source s (random_used s) = 0" "0 < num_ranks s"
  shows "wp (simulation_round env elapsed) (\<lambda>_ _. True) (\<lambda>_. False) s"
proof -
  let ?s = "s\<lparr>random_used := Suc (random_used s)\<rparr>"
  have gen: "wp generate_collective_operation
      (\<lambda>ev t. simulated (num_ranks ?s) (current_time_us ?s) 0 False ev \<and> drawn ?s t) (\<lambda>_. False) ?s"
    using wp_conj [OF wp_generate_collective collective_returns, of ?s] assms(2) by (simp add: wp_def)
  have first: "wp rand_unit Q X s \<longleftrightarrow> Q 0 ?s" for Q X
    by (simp add: rand_unit_def wp_bind wp_return wp_draw assms(1))
  show ?thesis
    unfolding simulation_round_def wp_bind wp_seq wp_return wp_modify wp_lift first
    by (simp, rule wp_mono [OF gen]) (auto intro!: wp_rand_uniform dest: complete_total [where env = env and elapsed = elapsed] split: sum.splits)
qed

theorem simulated_round_logged_witness:
  "\<exists>event done s' r1 r2.
     simulation_round [] 0 (simulator_init 4 1 (\<lambda>_. 0)) = (Return (event, done), s') \<and>
     serve (agent_handle (sample_agent [])) [LogCcl (Fin 1) (JObj event), LogCcl (Fin 2) (JObj done)] (agent_start [] False) =
       ([Reply 200 (JStr ''OK''), Reply 200 (JStr ''OK'')], (agent_start [] False)\<lparr>ccl_logs := [r1, r2]\<rparr>) \<and>
     dict_get r2 ''endTime'' = Some (JInt 1400000)"
proof -
  let ?m = "agent_start [] False" and ?s = "simulator_init 4 1 (\<lambda>_. 0)"
  have free: "\<not> ccl_locked ?m" "ccl_logs ?m = []"
    by (simp_all add: agent_start_def monitor_init_def start_monitor_def py_simps)
  have typed: "\<forall>l \<in> set (ccl_logs ?m). \<exists>op. op_key l = Inr op" by (simp add: free)
  have start: "current_time_us ?s = 1000000" "simulated_latency [] 0 = 400000"
    by (simp_all add: simulator_init_def trunc_rat_def simulated_latency_def getenv_def lower_char_def)
  have "wp (simulation_round [] 0) (\<lambda>_ _. True) (\<lambda>_. False) ?s"
    by (rule collective_round_returns) (simp_all add: simulator_init_def)
  then obtain event completed s' where round: "simulation_round [] 0 ?s = (Return (event, completed), s')"
    unfolding wp_returns by auto
  from simulated_round_logged [OF round free(1) typed, of "sample_agent []" "Fin 1" "Fin 2"]
  obtain r1 r2 where
    logged: "serve (agent_handle (sample_agent [])) [LogCcl (Fin 1) (JObj event), LogCcl (Fin 2) (JObj completed)] ?m =
      ([Reply 200 (JStr ''OK''), Reply 200 (JStr ''OK'')], ?m\<lparr>ccl_logs := ccl_logs ?m @ [r1, r2]\<rparr>)"
    and t: "dict_get r2 ''endTime'' = Some (JInt (current_time_us ?s + simulated_latency [] 0))" by blast
  from t have "dict_get r2 ''endTime'' = Some (JInt 1400000)" by (simp add: start)
  with round logged show ?thesis unfolding free append_Nil by blast
qed

text \<open>The loop over the draws: it ends at the first one that differs.\<close>

lemma pick_remote_Some:
  assumes "pick_remote source n rank i = Some (r, k)"
  shows "\<exists>j. k = Suc (i + j) \<and> r = randint_value 0 (n - 1) (source (i + j)) \<and> r \<noteq> rank"
proof -
  have "\<exists>j. snd (r, k) = Suc (i + j) \<and> fst (r, k) = randint_value 0 (n - 1) (source (i + j)) \<and> fst (r, k) \<noteq> rank"
  proof (rule pick_remote.raw_induct [of "\<lambda>source n rank i y. \<exists>j. snd y = Suc (i + j) \<and>
      fst y = randint_value 0 (n - 1) (source (i + j)) \<and> fst y \<noteq> rank", OF _ assms])
    fix loop source n rank i y
    assume IH: "\<And>source n rank i y. loop source n rank i = Some y \<Longrightarrow>
        \<exists>j. snd y = Suc (i + j) \<and> fst y = randint_value 0 (n - 1) (source (i + j)) \<and> fst y \<noteq> rank"
      and step: "(let remote = randint_value 0 (n - 1) (source i)
        in if remote = rank then loop source n rank (Suc i) else Some (remote, Suc i)) = Some y"
    show "\<exists>j. snd y = Suc (i + j) \<and> fst y = randint_value 0 (n - 1) (source (i + j)) \<and> fst y \<noteq> rank"
    proof (cases "randint_value 0 (n - 1) (source i) = rank")
      case True
      with step have "loop source n rank (Suc i) = Some y" by (simp add: Let_def)
      from IH [OF this] obtain j where "snd y = Suc (Suc i + j)"
        "fst y = randint_value 0 (n - 1) (source (Suc i + j))" "fst y \<noteq> rank" by blast
      then show ?thesis by (intro exI [of _ "Suc j"]) simp
    next
      case False
      with step show ?thesis by (intro exI [of _ 0]) (auto simp: Let_def)
    qed
  qed
  then show ?thesis by simp
qed

lemma pick_remote_None:
  assumes "pick_remote source n rank i = None"
  shows "randint_value 0 (n - 1) (source (i + j)) = rank"
  using assms
proof (induction j arbitrary: i)
  case 0
  then show ?case by (subst (asm) pick_remote.simps) (auto simp: Let_def split: if_splits)
next
  case (Suc j)
  from Suc.prems have "pick_remote source n rank (Suc i) = None"
    by (subst (asm) pick_remote.simps) (auto simp: Let_def split: if_splits)
  from Suc.IH [OF this] show ?case by simp
qed

text \<open>Generating a point-to-point operation raises ValueError when there is no rank, never returns when there
  is only one or every later draw is the own rank again, and otherwise yields an event between two
  different existing ranks.\<close>

theorem p2p_needs_two_ranks:
  "case fst (generate_p2p_operation s) of
     Raise e \<Rightarrow> e = ValueError \<and> num_ranks s \<le> 0
   | Blocked \<Rightarrow> 1 \<le> num_ranks s \<and>
       (\<forall>j. randint_value 0 (num_ranks s - 1) (random_source s (random_used s + 2 + j)) =
            randint_value 0 (num_ranks s - 1) (random_source s (random_used s + 1)))
   | Return ev \<Rightarrow> 2 \<le> num_ranks s \<and>
       (\<exists>j. randint_value 0 (num_ranks s - 1) (random_source s (random_used s + 2 + j)) \<noteq>
            randint_value 0 (num_ranks s - 1) (random_source s (random_used s + 1))) \<and>
       (\<exists>rank remote n. dict_get ev ''context_rank'' = Some (JInt rank) \<and>
          dict_get ev ''remoteRank'' = Some (JInt remote) \<and> dict_get ev ''bytes'' = Some (JInt n) \<and>
          rank \<noteq> remote \<and> 0 \<le> rank \<and> rank < num_ranks s \<and> 0 \<le> remote \<and> remote < num_ranks s \<and>
          1024 \<le> n \<and> n \<le> 1073741824)"
proof -
  let ?n = "num_ranks s" and ?rank = "randint_value 0 (num_ranks s - 1) (random_source s (random_used s + 1))"
  let ?pick = "pick_remote (random_source s) ?n ?rank (random_used s + 2)"
  have run: "fst (generate_p2p_operation s) =
     (if ?n \<le> 0 then Raise ValueError
      else case ?pick of None \<Rightarrow> Blocked
      | Some (r, k) \<Rightarrow> Return (p2p_event ([''send'', ''recv''] ! (random_source s (random_used s) mod 2)) r ?rank ?n
          (randint_value 1024 1073741824 (random_source s k)) (current_time_us s) 0 False))"
    by (simp add: generate_p2p_operation_def rand_choice_def randint_def next_draw_def remote_rank_loop_def
        get_random_bytes_def py_simps numeral_2_eq_2 split: option.splits prod.splits)
  show ?thesis
  proof (cases "?n \<le> 0")
    case True
    with run show ?thesis by simp
  next
    case pos: False
    show ?thesis
    proof (cases ?pick)
      case None
      with run pos pick_remote_None [OF None] show ?thesis by simp
    next
      case (Some y)
      then obtain r k where pick: "?pick = Some (r, k)" by force
      from pick_remote_Some [OF this] obtain j where
        r: "r = randint_value 0 (?n - 1) (random_source s (random_used s + 2 + j))" "r \<noteq> ?rank" by blast
      have range: "0 \<le> randint_value 0 (?n - 1) d \<and> randint_value 0 (?n - 1) d \<le> ?n - 1" for d
        using randint_value_range [of 0 "?n - 1" d] pos by simp
      have bytes: "1024 \<le> randint_value 1024 1073741824 d \<and> randint_value 1024 1073741824 d \<le> 1073741824" for d
        using randint_value_range [of 1024 1073741824 d] by simp
      have "?n \<noteq> 1"
      proof
        assume "?n = 1"
        with r range [of "random_source s (random_used s + 2 + j)"] range [of "random_source s (random_used s + 1)"]
        show False by simp
      qed
      with run pos pick r range bytes show ?thesis
        by (auto simp: p2p_event_def)
    qed
  qed
qed

end
