(* ===== verification/Agent_Threads.thy ===== *)
theory Agent_Threads
  imports Monitor_Agent
begin

text \<open>
  The sending thread of the agent running beside the views: between taking a copy of the buffered
  logs, the server's answer, and the clearing of the buffer other threads may append.  The steps use
  the buffer operations of \<open>Monitor_Agent\<close>; each is one critical section.  Three history variables
  record what happened: every log appended, every batch the server acknowledged, and for every
  clearing the acknowledged batch and the logs it threw away beside it.
\<close>

section \<open>Steps\<close>

datatype sender_pc =
    Starting                        \<comment> \<open>the request for the first latency\<close>
  | Head                            \<comment> \<open>at the loop test\<close>
  | Posting "record_dict list"      \<comment> \<open>the batch is on its way\<close>
  | Acked "record_dict list"        \<comment> \<open>answered 200, buffer not cleared yet\<close>
  | Stopped
  | Dead exn

record agent_run =
  mon :: monitor
  pc :: sender_pc
  appended :: "record_dict list"
  acked :: "record_dict list list"
  cleared :: "(record_dict list \<times> record_dict list) list"

definition run_init :: "environ \<Rightarrow> agent_run" where
  "run_init env = \<lparr>mon = agent_start env False, pc = Starting, appended = [], acked = [], cleared = []\<rparr>"

inductive agent_step :: "agent_run \<Rightarrow> agent_run \<Rightarrow> bool" where
  log: "append_ccl_log l (mon s) = (Return (), m) \<Longrightarrow>
    agent_step s (s\<lparr>mon := m, appended := appended s @ [l]\<rparr>)"
| first_ok: "pc s = Starting \<Longrightarrow> first_latency r = Inr l \<Longrightarrow> agent_step s (s\<lparr>pc := Head\<rparr>)"
| first_fails: "pc s = Starting \<Longrightarrow> first_latency r = Inl e \<Longrightarrow> agent_step s (s\<lparr>pc := Dead e\<rparr>)"
| request_stop: "agent_step s (s\<lparr>mon := (mon s)\<lparr>stop_event := True\<rparr>\<rparr>)"
| finish: "pc s = Head \<Longrightarrow> stop_event (mon s) \<Longrightarrow> agent_step s (s\<lparr>pc := Stopped\<rparr>)"
| idle: "pc s = Head \<Longrightarrow> \<not> stop_event (mon s) \<Longrightarrow> get_ccl_logs (mon s) = (Return [], m) \<Longrightarrow>
    agent_step s (s\<lparr>mon := m\<rparr>)"
| copy: "pc s = Head \<Longrightarrow> \<not> stop_event (mon s) \<Longrightarrow> get_ccl_logs (mon s) = (Return b, m) \<Longrightarrow>
    b \<noteq> [] \<Longrightarrow> group_logs b [] = Inr g \<Longrightarrow> agent_step s (s\<lparr>mon := m, pc := Posting b\<rparr>)"
| die: "pc s = Head \<Longrightarrow> \<not> stop_event (mon s) \<Longrightarrow> get_ccl_logs (mon s) = (Return b, m) \<Longrightarrow>
    b \<noteq> [] \<Longrightarrow> group_logs b [] = Inl e \<Longrightarrow> agent_step s (s\<lparr>mon := m, pc := Dead e\<rparr>)"
| ack: "pc s = Posting b \<Longrightarrow> agent_step s (s\<lparr>pc := Acked b, acked := acked s @ [b]\<rparr>)"
| refused: "pc s = Posting b \<Longrightarrow> agent_step s (s\<lparr>pc := Head\<rparr>)"
| clear: "pc s = Acked b \<Longrightarrow> clear_ccl_logs (mon s) = (Return (), m) \<Longrightarrow>
    agent_step s (s\<lparr>mon := m, pc := Head,
      cleared := cleared s @ [(b, drop (length b) (ccl_logs (mon s)))]\<rparr>)"

inductive agent_reachable :: "environ \<Rightarrow> agent_run \<Rightarrow> bool" for env where
  start: "agent_reachable env (run_init env)"
| step: "agent_reachable env s \<Longrightarrow> agent_step s t \<Longrightarrow> agent_reachable env t"

inductive_cases agent_stepE: "agent_step s t"

section \<open>Invariant\<close>

definition in_flight :: "sender_pc \<Rightarrow> record_dict list" where
  "in_flight p = (case p of Posting b \<Rightarrow> b | Acked b \<Rightarrow> b | _ \<Rightarrow> [])"

definition run_inv :: "agent_run \<Rightarrow> bool" where
  "run_inv s \<longleftrightarrow> \<not> ccl_locked (mon s) \<and>
     (\<exists>rest. ccl_logs (mon s) = in_flight (pc s) @ rest) \<and>
     appended s = concat (map (\<lambda>(b, lost). b @ lost) (cleared s)) @ ccl_logs (mon s) \<and>
     acked s = map fst (cleared s) @ (case pc s of Acked b \<Rightarrow> [b] | _ \<Rightarrow> []) \<and>
     (\<forall>l \<in> set (concat (acked s)) \<union> set (in_flight (pc s)). \<exists>k. op_key l = Inr k)"

lemma run_inv_init: "run_inv (run_init env)"
  by (simp add: run_inv_def run_init_def agent_start_def monitor_init_def start_monitor_def py_simps
      in_flight_def)

lemma group_logs_ok: "group_logs b g = Inr g' \<Longrightarrow> \<forall>l \<in> set b. \<exists>k. op_key l = Inr k"
  using group_logs_error by (metis sum.exhaust sum.distinct(1))

lemma run_inv_step: "agent_step s t \<Longrightarrow> run_inv s \<Longrightarrow> run_inv t"
proof (induction rule: agent_step.induct)
  case (copy s b m g)
  then have "m = mon s" "b = ccl_logs (mon s)"
    by (auto simp: run_inv_def ccl_free)
  with copy group_logs_ok [OF copy.hyps(5)] show ?case
    by (auto simp: run_inv_def in_flight_def)
next
  case (die s b m e)
  then have "m = mon s" by (auto simp: run_inv_def ccl_free)
  with die show ?case by (auto simp: run_inv_def in_flight_def)
next
  case (clear s b m)
  then obtain rest where "ccl_logs (mon s) = b @ rest" by (auto simp: run_inv_def in_flight_def)
  with clear show ?case by (auto simp: run_inv_def in_flight_def ccl_free)
qed (auto simp: run_inv_def in_flight_def ccl_free split: sender_pc.splits)

lemma reachable_run_inv: "agent_reachable env s \<Longrightarrow> run_inv s"
  by (induction rule: agent_reachable.induct) (auto intro: run_inv_init run_inv_step)

section \<open>A log that cannot be grouped\<close>

lemma steps_reachable:
  assumes "agent_reachable env s" "agent_step\<^sup>*\<^sup>* s t"
  shows "agent_reachable env t"
  using assms(2,1) by (induction rule: rtranclp_induct) (auto intro: agent_reachable.step)

lemma untyped_unsent:
  assumes "run_inv s" "op_key l = Inl e"
  shows "\<forall>b \<in> set (acked s). l \<notin> set b" "l \<notin> set (in_flight (pc s))" "\<forall>(b, lost) \<in> set (cleared s). l \<notin> set b"
proof -
  have typed: "l' \<noteq> l" if "l' \<in> set (concat (acked s)) \<union> set (in_flight (pc s))" for l'
    using assms that unfolding run_inv_def by (metis sum.distinct(1))
  then show "\<forall>b \<in> set (acked s). l \<notin> set b" "l \<notin> set (in_flight (pc s))" by auto
  moreover have "fst ` set (cleared s) \<subseteq> set (acked s)" using assms(1) by (simp add: run_inv_def)
  ultimately show "\<forall>(b, lost) \<in> set (cleared s). l \<notin> set b" by force
qed

lemma appended_grows: "agent_step\<^sup>*\<^sup>* s t \<Longrightarrow> \<exists>new. appended t = appended s @ new"
proof (induction rule: rtranclp_induct)
  case (step t u)
  then show ?case by (auto elim!: agent_stepE)
qed simp

text \<open>The sender has met a log it cannot group, or will at its next look at the buffer.\<close>

definition over :: "record_dict \<Rightarrow> agent_run \<Rightarrow> bool" where
  "over l s \<longleftrightarrow> l \<in> set (ccl_logs (mon s)) \<and> (pc s = Head \<or> pc s = Stopped \<or> (\<exists>e. pc s = Dead e))"

lemma over_step:
  assumes "agent_step s t" "run_inv s" "over l s" "op_key l = Inl e"
  shows "over l t \<and> acked t = acked s"
proof -
  have free: "\<not> ccl_locked (mon s)" using assms(2) by (simp add: run_inv_def)
  show ?thesis
    using assms(1)
  proof (cases rule: agent_step.cases)
    case (copy b m g)
    with free group_logs_ok [of b "[]" g] assms(3,4) show ?thesis by (auto simp: over_def ccl_free)
  qed (use assms(3) free in \<open>auto simp: over_def ccl_free\<close>)
qed

lemma over_steps:
  assumes "agent_step\<^sup>*\<^sup>* s t" "run_inv s" "over l s" "op_key l = Inl e"
  shows "over l t \<and> run_inv t \<and> acked t = acked s"
  using assms(1)
proof induction
  case (step t u)
  with over_step [OF step(2) _ _ assms(4)] run_inv_step [OF step(2)] show ?case by auto
qed (use assms(2,3) in simp)

section \<open>Runs\<close>

text \<open>Runs are built step by step; these are the states a witness passes through.\<close>

lemma reach_head: "agent_reachable env ((run_init env)\<lparr>pc := Head\<rparr>)"
  by (rule agent_reachable.step [OF agent_reachable.start],
      rule agent_step.first_ok [of _ "(HttpResponse 200 None, Fin 1)" "Fin 1"])
     (simp_all add: run_init_def first_latency_def)

lemma reach_log:
  "agent_reachable env s \<Longrightarrow> \<not> ccl_locked (mon s) \<Longrightarrow>
   agent_reachable env (s\<lparr>mon := (mon s)\<lparr>ccl_logs := ccl_logs (mon s) @ [l]\<rparr>, appended := appended s @ [l]\<rparr>)"
  by (erule agent_reachable.step) (rule agent_step.log, simp add: ccl_free)

lemma reach_copy:
  "agent_reachable env s \<Longrightarrow> \<not> ccl_locked (mon s) \<Longrightarrow> pc s = Head \<Longrightarrow> \<not> stop_event (mon s) \<Longrightarrow>
   ccl_logs (mon s) \<noteq> [] \<Longrightarrow> group_logs (ccl_logs (mon s)) [] = Inr g \<Longrightarrow>
   agent_reachable env (s\<lparr>pc := Posting (ccl_logs (mon s))\<rparr>)"
  using agent_step.copy [of s "ccl_logs (mon s)" "mon s" g]
  by (simp add: ccl_free agent_reachable.step)

lemma reach_ack:
  "agent_reachable env s \<Longrightarrow> pc s = Posting b \<Longrightarrow>
   agent_reachable env (s\<lparr>pc := Acked b, acked := acked s @ [b]\<rparr>)"
  by (erule agent_reachable.step) (rule agent_step.ack)

lemma reach_clear:
  "agent_reachable env s \<Longrightarrow> \<not> ccl_locked (mon s) \<Longrightarrow> pc s = Acked b \<Longrightarrow>
   agent_reachable env (s\<lparr>mon := (mon s)\<lparr>ccl_logs := []\<rparr>, pc := Head,
     cleared := cleared s @ [(b, drop (length b) (ccl_logs (mon s)))]\<rparr>)"
  by (erule agent_reachable.step) (rule agent_step.clear, simp_all add: ccl_free)

section \<open>Properties\<close>

text \<open>C6: Accounting for every log, in every interleaving: the logs appended are, in order, the batches
  that were cleared, each followed by the logs that arrived between its copy and its clearing, and then
  the buffer.  Exactly the batches are acknowledged by the server, each once; the logs that arrived in
  between are thrown away unsent.\<close>

theorem agent_log_accounting:
  assumes "agent_reachable env s"
  shows "appended s = concat (map (\<lambda>(b, lost). b @ lost) (cleared s)) @ ccl_logs (mon s) \<and>
     acked s = map fst (cleared s) @ (case pc s of Acked b \<Rightarrow> [b] | _ \<Rightarrow> []) \<and>
     (\<forall>b. pc s = Acked b \<longrightarrow> (\<exists>rest. ccl_logs (mon s) = b @ rest))"
  using reachable_run_inv [OF assms] by (auto simp: run_inv_def in_flight_def)

text \<open>The witness is a run in which a log is lost: it arrives after the copy.\<close>

theorem agent_log_accounting_witness:
  "\<exists>s. agent_reachable [] s \<and> cleared s = [([[(''opType'', JStr ''a'')]], [[(''opType'', JStr ''b'')]])] \<and>
     appended s = [[(''opType'', JStr ''a'')], [(''opType'', JStr ''b'')]] \<and>
     acked s = [[[(''opType'', JStr ''a'')]]] \<and> ccl_logs (mon s) = []"
proof -
  let ?a = "[(''opType'', JStr ''a'')] :: record_dict" and ?b = "[(''opType'', JStr ''b'')] :: record_dict"
  define s0 where "s0 = (run_init [])\<lparr>pc := Head\<rparr>"
  have s0: "\<not> ccl_locked (mon s0)" "pc s0 = Head" "\<not> stop_event (mon s0)" "ccl_logs (mon s0) = []"
      "appended s0 = []" "acked s0 = []" "cleared s0 = []"
    by (simp_all add: s0_def run_init_def agent_start_def monitor_init_def start_monitor_def py_simps)
  have r0: "agent_reachable [] s0" unfolding s0_def by (rule reach_head)
  have g: "group_logs [?a] [] = Inr [(KStr ''a'', [?a])]"
    by (simp add: op_key_def log_index_def Let_def dict_has_def)
  note r1 = reach_log [OF r0 s0(1), of ?a]
  note r2 = reach_copy [OF r1, of "[(KStr ''a'', [?a])]"]
  have r2: "agent_reachable [] (s0\<lparr>mon := (mon s0)\<lparr>ccl_logs := [?a]\<rparr>, appended := [?a], pc := Posting [?a]\<rparr>)"
    using r2 g by (simp add: s0)
  define s3 where "s3 = s0\<lparr>mon := (mon s0)\<lparr>ccl_logs := [?a, ?b]\<rparr>, appended := [?a, ?b],
      pc := Acked [?a], acked := [[?a]]\<rparr>"
  have r3: "agent_reachable [] s3"
    using reach_ack [OF reach_log [OF r2, of ?b], of "[?a]"] by (simp add: s0 s3_def)
  define s4 where "s4 = s3\<lparr>mon := (mon s3)\<lparr>ccl_logs := []\<rparr>, pc := Head, cleared := [([?a], [?b])]\<rparr>"
  have r4: "agent_reachable [] s4"
    using reach_clear [OF r3, of "[?a]"] by (simp add: s3_def s4_def s0)
  have s4: "cleared s4 = [([?a], [?b])]" "ccl_logs (mon s4) = []" "pc s4 = Head"
    by (simp_all add: s4_def)
  from agent_log_accounting [OF r4] have "appended s4 = [?a, ?b]" "acked s4 = [[?a]]"
    by (simp_all add: s4)
  with r4 s4 show ?thesis by blast
qed

text \<open>C21: A log without a usable operation type is never sent: no batch that is on its way or was acknowledged
  holds it.  From the moment it is appended it is in the buffer or among the logs that a clearing threw
  away unsent.  If it is in the buffer when the sender is at its loop test, the reporting is over, in
  every interleaving: the log stays in the buffer, no further batch is acknowledged, the sender is still
  there, has stopped or is dead; and as long as it is there and not told to stop, its next move is to die
  on an exception.\<close>

theorem untyped_log_ends_sender:
  assumes "agent_reachable env s" "l \<in> set (appended s)" "op_key l = Inl e" "agent_step\<^sup>*\<^sup>* s t"
  shows "(\<forall>b \<in> set (acked t). l \<notin> set b) \<and> l \<notin> set (in_flight (pc t)) \<and>
     (l \<in> set (ccl_logs (mon t)) \<or> (\<exists>(b, lost) \<in> set (cleared t). l \<in> set lost)) \<and>
     (l \<in> set (ccl_logs (mon s)) \<and> pc s = Head \<longrightarrow>
       l \<in> set (ccl_logs (mon t)) \<and> acked t = acked s \<and>
       (pc t = Head \<or> pc t = Stopped \<or> (\<exists>e'. pc t = Dead e')) \<and>
       (pc t = Head \<and> \<not> stop_event (mon t) \<longrightarrow> (\<exists>u e'. agent_step t u \<and> pc u = Dead e')))"
proof (intro conjI impI)
  note inv = reachable_run_inv [OF steps_reachable [OF assms(1,4)]]
  show "\<forall>b \<in> set (acked t). l \<notin> set b" "l \<notin> set (in_flight (pc t))"
    using untyped_unsent [OF inv assms(3)] by auto
  have "l \<in> set (appended t)" using appended_grows [OF assms(4)] assms(2) by auto
  then show "l \<in> set (ccl_logs (mon t)) \<or> (\<exists>(b, lost) \<in> set (cleared t). l \<in> set lost)"
    using inv untyped_unsent [OF inv assms(3)] by (fastforce simp: run_inv_def)
next
  assume s: "l \<in> set (ccl_logs (mon s)) \<and> pc s = Head"
  then have "over l s" by (simp add: over_def)
  from over_steps [OF assms(4) reachable_run_inv [OF assms(1)] this assms(3)]
  have t: "over l t" "run_inv t" "acked t = acked s" by auto
  then show "l \<in> set (ccl_logs (mon t))" "acked t = acked s" "pc t = Head \<or> pc t = Stopped \<or> (\<exists>e'. pc t = Dead e')"
    by (simp_all add: over_def)
  assume "pc t = Head \<and> \<not> stop_event (mon t)"
  moreover obtain e' where "group_logs (ccl_logs (mon t)) [] = Inl e'"
    using group_logs_error [OF _ assms(3)] t(1) by (auto simp: over_def)
  ultimately have "agent_step t (t\<lparr>mon := mon t, pc := Dead e'\<rparr>)"
    using t by (intro agent_step.die [of _ "ccl_logs (mon t)"]) (auto simp: over_def run_inv_def ccl_free)
  then show "\<exists>u e'. agent_step t u \<and> pc u = Dead e'" by force
qed

theorem untyped_log_ends_sender_witness:
  "\<exists>s. agent_reachable [] s \<and> pc s = Head \<and> [(''n'', JInt 1)] \<in> set (ccl_logs (mon s)) \<and>
     (\<exists>u e. agent_step s u \<and> pc u = Dead e)"
proof -
  define s0 where "s0 = (run_init [])\<lparr>pc := Head\<rparr>"
  have s0: "\<not> ccl_locked (mon s0)" "pc s0 = Head" "\<not> stop_event (mon s0)" "ccl_logs (mon s0) = []"
    by (simp_all add: s0_def run_init_def agent_start_def monitor_init_def start_monitor_def py_simps)
  have r0: "agent_reachable [] s0" unfolding s0_def by (rule reach_head)
  define s where "s = s0\<lparr>mon := (mon s0)\<lparr>ccl_logs := [[(''n'', JInt 1)]]\<rparr>, appended := appended s0 @ [[(''n'', JInt 1)]]\<rparr>"
  have r: "agent_reachable [] s"
    using reach_log [OF r0 s0(1), of "[(''n'', JInt 1)]"] by (simp add: s_def s0)
  have bad: "op_key [(''n'', JInt 1)] = Inl (KeyError ''opType'')"
    by (simp add: op_key_def log_index_def)
  have mem: "[(''n'', JInt 1)] \<in> set (appended s)" "[(''n'', JInt 1)] \<in> set (ccl_logs (mon s))" "pc s = Head"
    "\<not> stop_event (mon s)" by (simp_all add: s_def s0)
  from untyped_log_ends_sender [OF r mem(1) bad rtranclp.rtrancl_refl] mem r show ?thesis by blast
qed

end
