(* ===== verification/Ccl_Threads.thy ===== *)
theory Ccl_Threads
  imports Ccl_Simulator Agent_Threads
begin

text \<open>
  The simulator as its \<open>main\<close> runs it against the agent: three threads in \<open>simulation_loop\<close> that share
  one simulator, next to the views and the sending thread of the agent.  The increment of the shared
  clock reads and writes in two steps, between which another thread may write.  History variables record
  the events posted, in the order of the calls, those that arrived at the agent, in the order of its
  handlers, those whose request failed before, what was printed, and by how much the threads moved the
  clock in total.
\<close>

section \<open>Threads\<close>

datatype sim_pc =
    AtTest                              \<comment> \<open>at \<open>while self.running\<close>\<close>
  | Generating
  | PostStart record_dict               \<comment> \<open>calls \<open>send_event\<close> with the start event\<close>
  | Sending record_dict "rat option"    \<comment> \<open>in \<open>requests.post\<close>; a delay comes with a completion event\<close>
  | Replied record_dict "rat option" reply \<comment> \<open>the agent has handled it, the answer is on its way\<close>
  | Waiting record_dict rat             \<comment> \<open>sleeps for the drawn delay\<close>
  | PostEnd record_dict rat             \<comment> \<open>calls \<open>send_event\<close> with the completion event\<close>
  | Ticking rat
  | Adding int int                      \<comment> \<open>has read the clock, will add the second number\<close>
  | SimFinished
  | SimFailed exn
  | Spinning                            \<comment> \<open>never finds another rank\<close>

record sim_run =
  sim :: simulator
  pcs :: "sim_pc list"
  agent :: agent_run
  posted :: "record_dict list"
  arrived :: "record_dict list"
  failed :: "record_dict list"
  printed :: "string list"
  moved :: int

text \<open>The agent is running when the simulator starts, its sender not yet past its first request.\<close>

definition sim_start :: "int \<Rightarrow> rat \<Rightarrow> environ \<Rightarrow> sim_run" where
  "sim_start ranks now env = \<lparr>sim = simulator_init ranks now (\<lambda>_. 0), pcs = replicate 3 AtTest,
     agent = run_init env, posted = [], arrived = [], failed = [], printed = [], moved = 0\<rparr>"

text \<open>
  What \<open>send_event\<close> prints: a line when the answer is not 200, and a line when \<open>requests.post\<close> raises (\<open>None\<close>),
  before the request has arrived or after.  No exception leaves it.
\<close>

definition send_event :: "reply option \<Rightarrow> string list" where
  "send_event answer = (case answer of
       None \<Rightarrow> [''Error sending event'']
     | Some reply \<Rightarrow> (case http_of_reply reply of
           HttpResponse code body \<Rightarrow>
             if code \<noteq> 200 then [''Failed to send event: '' @ str_of_nat code] else []
         | _ \<Rightarrow> [''Error sending event'']))"

text \<open>The request arrives: the agent's view handles it.\<close>

definition post_event :: "agent_env \<Rightarrow> pyfloat \<Rightarrow> record_dict \<Rightarrow> sim_run \<Rightarrow> reply \<times> sim_run" where
  "post_event E now event s = (case agent_handle E (LogCcl now (JObj event)) (mon (agent s)) of
       (reply, m) \<Rightarrow> (reply, s\<lparr>agent := (agent s)\<lparr>mon := m, appended := appended (agent s) @
                      drop (length (ccl_logs (mon (agent s)))) (ccl_logs m)\<rparr>,
                    arrived := arrived s @ [event]\<rparr>))"

text \<open>Where a thread goes on after \<open>send_event\<close>: it sleeps for the drawn delay, or moves the clock.\<close>

fun after_send :: "record_dict \<Rightarrow> rat option \<Rightarrow> rat \<Rightarrow> sim_pc" where
  "after_send event None delay = Waiting event delay"
| "after_send event (Some d) delay = Ticking d"

definition set_pc :: "nat \<Rightarrow> sim_pc \<Rightarrow> sim_run \<Rightarrow> sim_run" where
  "set_pc i p s = s\<lparr>pcs := (pcs s)[i := p]\<rparr>"

text \<open>The operation a thread generates from the numbers \<open>src\<close> it happens to draw.\<close>

definition generated :: "bool \<Rightarrow> (nat \<Rightarrow> nat) \<Rightarrow> simulator \<Rightarrow> record_dict outcome" where
  "generated collective src s =
     fst ((if collective then generate_collective_operation else generate_p2p_operation)
            (s\<lparr>random_source := src, random_used := 0\<rparr>))"

inductive sim_step :: "agent_env \<Rightarrow> environ \<Rightarrow> sim_run \<Rightarrow> sim_run \<Rightarrow> bool" for E env where
  loop: "i < length (pcs s) \<Longrightarrow> pcs s ! i = AtTest \<Longrightarrow> sim_running (sim s) \<Longrightarrow>
    sim_step E env s (set_pc i Generating s)"
| leave: "i < length (pcs s) \<Longrightarrow> pcs s ! i = AtTest \<Longrightarrow> \<not> sim_running (sim s) \<Longrightarrow>
    sim_step E env s (set_pc i SimFinished s)"
| generate: "i < length (pcs s) \<Longrightarrow> pcs s ! i = Generating \<Longrightarrow> generated c src (sim s) = Return ev \<Longrightarrow>
    sim_step E env s (set_pc i (PostStart ev) s)"
| generate_raises: "i < length (pcs s) \<Longrightarrow> pcs s ! i = Generating \<Longrightarrow> generated c src (sim s) = Raise e \<Longrightarrow>
    sim_step E env s (set_pc i (SimFailed e) s)"
| generate_spins: "i < length (pcs s) \<Longrightarrow> pcs s ! i = Generating \<Longrightarrow> generated c src (sim s) = Blocked \<Longrightarrow>
    sim_step E env s (set_pc i Spinning s)"
| call_start: "i < length (pcs s) \<Longrightarrow> pcs s ! i = PostStart ev \<Longrightarrow>
    sim_step E env s (set_pc i (Sending ev None) (s\<lparr>posted := posted s @ [ev]\<rparr>))"
| arrive: "i < length (pcs s) \<Longrightarrow> pcs s ! i = Sending ev k \<Longrightarrow> post_event E now ev s = (reply, s') \<Longrightarrow>
    sim_step E env s (set_pc i (Replied ev k reply) s')"
| request_fails: "i < length (pcs s) \<Longrightarrow> pcs s ! i = Sending ev k \<Longrightarrow> 1/1000 \<le> delay \<Longrightarrow> delay < 1/10 \<Longrightarrow>
    sim_step E env s (set_pc i (after_send ev k delay)
      (s\<lparr>failed := failed s @ [ev], printed := printed s @ send_event None\<rparr>))"
| answer: "i < length (pcs s) \<Longrightarrow> pcs s ! i = Replied ev k reply \<Longrightarrow> 1/1000 \<le> delay \<Longrightarrow> delay < 1/10 \<Longrightarrow>
    a = Some reply \<or> a = None \<Longrightarrow>
    sim_step E env s (set_pc i (after_send ev k delay) (s\<lparr>printed := printed s @ send_event a\<rparr>))"
| complete: "i < length (pcs s) \<Longrightarrow> pcs s ! i = Waiting ev delay \<Longrightarrow> complete_operation env elapsed ev = Inr ev' \<Longrightarrow>
    sim_step E env s (set_pc i (PostEnd ev' delay) s)"
| complete_fails: "i < length (pcs s) \<Longrightarrow> pcs s ! i = Waiting ev delay \<Longrightarrow> complete_operation env elapsed ev = Inl e \<Longrightarrow>
    sim_step E env s (set_pc i (SimFailed e) s)"
| call_end: "i < length (pcs s) \<Longrightarrow> pcs s ! i = PostEnd ev delay \<Longrightarrow>
    sim_step E env s (set_pc i (Sending ev (Some delay)) (s\<lparr>posted := posted s @ [ev]\<rparr>))"
| read_clock: "i < length (pcs s) \<Longrightarrow> pcs s ! i = Ticking delay \<Longrightarrow>
    sim_step E env s (set_pc i (Adding (current_time_us (sim s)) (trunc_rat (delay * 1000000))) s)"
| write_clock: "i < length (pcs s) \<Longrightarrow> pcs s ! i = Adding t x \<Longrightarrow>
    sim_step E env s (set_pc i AtTest (s\<lparr>sim := (sim s)\<lparr>current_time_us := t + x\<rparr>, moved := moved s + x\<rparr>))"
| interrupt: "sim_step E env s (s\<lparr>sim := (sim s)\<lparr>sim_running := False\<rparr>\<rparr>)"
| agent_moves: "agent_step (agent s) a \<Longrightarrow> appended a = appended (agent s) \<Longrightarrow> sim_step E env s (s\<lparr>agent := a\<rparr>)"

inductive sim_reachable :: "agent_env \<Rightarrow> environ \<Rightarrow> int \<Rightarrow> rat \<Rightarrow> sim_run \<Rightarrow> bool" for E env ranks now where
  start: "sim_reachable E env ranks now (sim_start ranks now env)"
| step: "sim_reachable E env ranks now s \<Longrightarrow> sim_step E env s t \<Longrightarrow> sim_reachable E env ranks now t"

inductive_cases sim_stepE: "sim_step E env s t"

text \<open>\<open>main\<close> returns from its joins when every thread has ended.\<close>

fun ended :: "sim_pc \<Rightarrow> bool" where
  "ended SimFinished = True"
| "ended (SimFailed e) = True"
| "ended _ = False"

definition main_returns :: "sim_run \<Rightarrow> bool" where
  "main_returns s \<longleftrightarrow> \<not> sim_running (sim s) \<and> (\<forall>p \<in> set (pcs s). ended p)"

section \<open>Single operations\<close>

lemma generated_simulated:
  assumes "generated c src s = Return ev"
  shows "simulated (num_ranks s) (current_time_us s) 0 False ev"
  using generate_simulated [of c "s\<lparr>random_source := src, random_used := 0\<rparr>"] assms
  by (auto simp: wp_def generated_def split: prod.splits)

lemma generated_collective:
  assumes "0 < num_ranks s"
  shows "\<exists>ev. generated True src s = Return ev"
  using collective_returns [of "s\<lparr>random_source := src, random_used := 0\<rparr>"] assms
  by (auto simp: wp_returns generated_def)

lemma simulated_fields:
  "simulated n t t_end fin ev \<Longrightarrow>
     dict_get ev ''finished'' = Some (JBool fin) \<and> dict_get ev ''startTime'' = Some (JInt t)"
  by (auto simp: simulated_def collective_event_def p2p_event_def)

text \<open>The record the agent keeps of an event.\<close>

definition recorded_as :: "record_dict \<Rightarrow> record_dict \<Rightarrow> bool" where
  "recorded_as ev l \<longleftrightarrow> (\<exists>op. op_key l = Inr op \<and> op_key ev = Inr op) \<and>
     dict_get l ''startTime'' = dict_get ev ''startTime'' \<and> dict_get l ''finished'' = dict_get ev ''finished''"

lemma post_event_effect:
  assumes "simulated n t t_end fin ev" "\<not> ccl_locked (mon (agent s))"
  shows "\<exists>l. recorded_as ev l \<and> post_event E now ev s = (Reply 200 (JStr ''OK''), s\<lparr>agent := (agent s)\<lparr>mon := (mon (agent s))
       \<lparr>ccl_logs := ccl_logs (mon (agent s)) @ [l]\<rparr>, appended := appended (agent s) @ [l]\<rparr>,
     arrived := arrived s @ [ev]\<rparr>)"
proof -
  from simulated_logged [OF assms, of E now] obtain l where
    l: "agent_handle E (LogCcl now (JObj ev)) (mon (agent s)) =
         (Reply 200 (JStr ''OK''), (mon (agent s))\<lparr>ccl_logs := ccl_logs (mon (agent s)) @ [l]\<rparr>)"
      "\<exists>op. op_key l = Inr op \<and> op_key ev = Inr op"
      "dict_get l ''startTime'' = Some (JInt t)" "dict_get l ''finished'' = Some (JBool fin)" by blast
  then have "recorded_as ev l" using simulated_fields [OF assms(1)] by (simp add: recorded_as_def)
  then show ?thesis by (intro exI [of _ l]) (simp add: post_event_def l(1) del: agent_handle.simps)
qed

lemma send_event_ok: "send_event (Some (Reply 200 b)) = []" "send_event None = [''Error sending event'']"
  by (simp_all add: send_event_def http_of_reply_def)

section \<open>The agent under the simulator\<close>

text \<open>
  The agent is in a state its own steps reach, with one typed record for every event that arrived; its sender
  is alive unless its first request failed.
\<close>

definition agent_fed :: "environ \<Rightarrow> sim_run \<Rightarrow> bool" where
  "agent_fed env s \<longleftrightarrow> agent_reachable env (agent s) \<and> list_all2 recorded_as (arrived s) (appended (agent s)) \<and>
     (pc (agent s) = Starting \<longrightarrow> acked (agent s) = []) \<and>
     (\<forall>e. pc (agent s) = Dead e \<longrightarrow> e = RequestException \<and> acked (agent s) = []) \<and>
     set (printed s) \<subseteq> {''Error sending event''}"

lemma fed_free: "agent_fed env s \<Longrightarrow> \<not> ccl_locked (mon (agent s))"
  using reachable_run_inv by (auto simp: agent_fed_def run_inv_def)

lemma fed_groups:
  assumes "agent_fed env s" "set b \<subseteq> set (ccl_logs (mon (agent s)))"
  shows "\<exists>g. group_logs b [] = Inr g"
proof (rule group_logs_total)
  have "appended (agent s) = concat (map (\<lambda>(b, lost). b @ lost) (cleared (agent s))) @ ccl_logs (mon (agent s))"
    using assms(1) reachable_run_inv by (auto simp: agent_fed_def run_inv_def)
  then have "set b \<subseteq> set (appended (agent s))" using assms(2) by auto
  moreover have "\<exists>op. op_key l = Inr op" if "l \<in> set (appended (agent s))" for l
  proof -
    have "list_all2 recorded_as (arrived s) (appended (agent s))" using assms(1) by (simp add: agent_fed_def)
    with that show ?thesis by (fastforce simp: list_all2_conv_all_nth in_set_conv_nth recorded_as_def)
  qed
  ultimately show "\<forall>l \<in> set b. \<exists>k. op_key l = Inr k" by blast
qed

lemma fed_post:
  assumes "agent_fed env s" "simulated n t t_end fin ev"
  shows "agent_fed env (snd (post_event E now ev s))"
proof -
  note free = fed_free [OF assms(1)]
  from post_event_effect [OF assms(2) free, of E now] obtain l where l: "recorded_as ev l"
    "snd (post_event E now ev s) = s\<lparr>agent := (agent s)\<lparr>mon := (mon (agent s))
       \<lparr>ccl_logs := ccl_logs (mon (agent s)) @ [l]\<rparr>, appended := appended (agent s) @ [l]\<rparr>,
     arrived := arrived s @ [ev]\<rparr>" by auto
  with assms(1) reach_log [of env "agent s" l] free show ?thesis
    by (auto simp: agent_fed_def list_all2_appendI)
qed

lemma fed_moves:
  assumes "agent_fed env s" "agent_step (agent s) a" "appended a = appended (agent s)"
  shows "agent_fed env (s\<lparr>agent := a\<rparr>)"
proof -
  have "agent_reachable env a" using assms(1,2) by (auto simp: agent_fed_def intro: agent_reachable.step)
  moreover have "(pc a = Starting \<longrightarrow> acked a = []) \<and> (\<forall>e. pc a = Dead e \<longrightarrow> e = RequestException \<and> acked a = [])"
    using assms(2)
  proof (cases rule: agent_step.cases)
    case (die b m e)
    then have "b = ccl_logs (mon (agent s))" using fed_free [OF assms(1)] by (auto simp: ccl_free)
    with fed_groups [OF assms(1), of b] die show ?thesis by auto
  next
    case (first_fails r e)
    then have "e = RequestException" by (auto simp: first_latency_def split: prod.splits http.splits)
    with first_fails assms(1) show ?thesis by (simp add: agent_fed_def)
  qed (use assms(1) in \<open>auto simp: agent_fed_def\<close>)
  ultimately show ?thesis using assms(1,3) by (simp add: agent_fed_def)
qed

text \<open>Every event posted has arrived, has failed, or is on its way.\<close>

fun on_way :: "sim_pc \<Rightarrow> record_dict multiset" where
  "on_way (Sending ev k) = {#ev#}"
| "on_way _ = {#}"

definition events_ok :: "sim_run \<Rightarrow> bool" where
  "events_ok s \<longleftrightarrow> mset (posted s) = mset (arrived s) + mset (failed s) + sum_list (map on_way (pcs s))"

lemma on_way_after [simp]: "on_way (after_send ev k d) = {#}"
  by (cases k) simp_all

lemma on_way_update:
  assumes "i < length ps"
  shows "sum_list (map on_way (ps[i := p])) + on_way (ps ! i) = sum_list (map on_way ps) + on_way p"
proof -
  have "ps = take i ps @ ps ! i # drop (Suc i) ps" using assms by (rule id_take_nth_drop)
  then have "sum_list (map on_way ps) = sum_list (map on_way (take i ps)) + on_way (ps ! i) + sum_list (map on_way (drop (Suc i) ps))"
    by (metis (no_types, lifting) add.assoc list.simps(9) map_append sum_list.Cons sum_list_append)
  moreover have "ps[i := p] = take i ps @ p # drop (Suc i) ps" using assms by (simp add: upd_conv_take_nth_drop)
  ultimately show ?thesis by (simp add: ac_simps)
qed

lemma events_ok_quiet:
  assumes "events_ok s" "i < length (pcs s)" "on_way p = on_way (pcs s ! i)"
  shows "events_ok (set_pc i p s)"
  using assms on_way_update [OF assms(2), of p] by (simp add: events_ok_def set_pc_def)

lemma events_ok_frame [simp]:
  "events_ok (s\<lparr>sim := u\<rparr>) = events_ok s" "events_ok (s\<lparr>sim := u, moved := m\<rparr>) = events_ok s"
  "events_ok (s\<lparr>agent := a\<rparr>) = events_ok s" "events_ok (s\<lparr>printed := l\<rparr>) = events_ok s"
  by (simp_all add: events_ok_def)

lemma events_ok_step: "sim_step E env s t \<Longrightarrow> events_ok s \<Longrightarrow> events_ok t"
proof (induction rule: sim_step.induct)
  case (call_start i s ev)
  then show ?case using on_way_update [of i "pcs s" "Sending ev None"] by (simp add: events_ok_def set_pc_def)
next
  case (call_end i s ev d)
  then show ?case using on_way_update [of i "pcs s" "Sending ev (Some d)"] by (simp add: events_ok_def set_pc_def)
next
  case (arrive i s ev k now reply s')
  then have "pcs s' = pcs s" "posted s' = posted s" "arrived s' = arrived s @ [ev]" "failed s' = failed s"
    by (auto simp: post_event_def split: prod.splits)
  with arrive on_way_update [of i "pcs s" "Replied ev k reply"] show ?case by (simp add: events_ok_def set_pc_def)
next
  case (request_fails i s ev k delay)
  then show ?case using on_way_update [of i "pcs s" "after_send ev k delay"] by (simp add: events_ok_def set_pc_def)
qed (auto intro!: events_ok_quiet)

section \<open>The invariant of the simulator's threads\<close>

definition delay_ok :: "rat \<Rightarrow> bool" where
  "delay_ok d \<longleftrightarrow> 1/1000 \<le> d \<and> d < 1/10"

definition send_ok :: "int \<Rightarrow> int \<Rightarrow> int \<Rightarrow> record_dict \<Rightarrow> rat option \<Rightarrow> bool" where
  "send_ok n lo hi ev k \<longleftrightarrow> (\<forall>d. k = Some d \<longrightarrow> delay_ok d) \<and>
     (\<exists>t t_end. simulated n t t_end (k \<noteq> None) ev \<and> (k = None \<longrightarrow> t_end = 0) \<and> lo \<le> t \<and> t \<le> hi)"

lemma send_ok_mono: "send_ok n lo hi ev k \<Longrightarrow> hi \<le> hi' \<Longrightarrow> send_ok n lo hi' ev k"
  unfolding send_ok_def by (elim conjE exE) (intro conjI exI, assumption+, rule order_trans)

text \<open>What a thread holds: its event started at a time the clock could show, what it adds is a delay.\<close>

definition sim_pc_ok :: "int \<Rightarrow> int \<Rightarrow> int \<Rightarrow> sim_pc \<Rightarrow> bool" where
  "sim_pc_ok n lo hi p \<longleftrightarrow> (case p of
       PostStart ev \<Rightarrow> \<exists>t. simulated n t 0 False ev \<and> lo \<le> t \<and> t \<le> hi
     | Sending ev k \<Rightarrow> send_ok n lo hi ev k
     | Replied ev k reply \<Rightarrow> send_ok n lo hi ev k \<and> reply = Reply 200 (JStr ''OK'')
     | Waiting ev d \<Rightarrow> delay_ok d \<and> (\<exists>t. simulated n t 0 False ev \<and> lo \<le> t \<and> t \<le> hi)
     | PostEnd ev d \<Rightarrow> delay_ok d \<and> (\<exists>t t_end. simulated n t t_end True ev \<and> lo \<le> t \<and> t \<le> hi)
     | Ticking d \<Rightarrow> delay_ok d
     | Adding t x \<Rightarrow> lo \<le> t \<and> t \<le> hi \<and> 0 \<le> x \<and> x < 100000
     | _ \<Rightarrow> True)"

lemma sim_pc_ok_mono: "sim_pc_ok n lo hi p \<Longrightarrow> hi \<le> hi' \<Longrightarrow> sim_pc_ok n lo hi' p"
  by (cases p) (auto simp: sim_pc_ok_def intro: order_trans send_ok_mono)

lemma sim_pc_ok_after: "send_ok n lo hi ev k \<Longrightarrow> delay_ok d \<Longrightarrow> sim_pc_ok n lo hi (after_send ev k d)"
  by (cases k) (auto simp: send_ok_def sim_pc_ok_def)

fun ticking :: "sim_pc \<Rightarrow> nat" where
  "ticking (Sending ev k) = of_bool (k \<noteq> None)"
| "ticking (Replied ev k reply) = of_bool (k \<noteq> None)"
| "ticking (Ticking d) = 1"
| "ticking (Adding t x) = 1"
| "ticking _ = 0"

definition ends_posted :: "sim_run \<Rightarrow> nat" where
  "ends_posted s = length (filter (\<lambda>ev. dict_get ev ''finished'' = Some (JBool True)) (posted s))"

definition clock_ok :: "int \<Rightarrow> int \<Rightarrow> sim_run \<Rightarrow> bool" where
  "clock_ok n lo s \<longleftrightarrow> num_ranks (sim s) = n \<and> length (pcs s) = 3 \<and> 0 \<le> moved s \<and>
     lo \<le> current_time_us (sim s) \<and> current_time_us (sim s) \<le> lo + moved s \<and>
     (\<forall>p \<in> set (pcs s). sim_pc_ok n lo (lo + moved s) p) \<and>
     (\<forall>ev \<in> set (posted s). \<exists>t. dict_get ev ''startTime'' = Some (JInt t) \<and> lo \<le> t \<and> t \<le> lo + moved s) \<and>
     moved s + 100000 * int (sum_list (map ticking (pcs s))) \<le> 100000 * int (ends_posted s)"

lemma clock_ok_start: "clock_ok ranks (trunc_rat (now * 1000000)) (sim_start ranks now env)"
  by (simp add: clock_ok_def sim_start_def simulator_init_def sim_pc_ok_def ends_posted_def numeral_3_eq_3)

text \<open>The threads that still owe the clock an increment.\<close>

abbreviation owed :: "sim_pc list \<Rightarrow> int" where
  "owed ps \<equiv> int (sum_list (map ticking ps))"

lemma owed_update:
  assumes "i < length ps"
  shows "owed (ps[i := p]) = owed ps - int (ticking (ps ! i)) + int (ticking p)"
proof -
  have "ticking (ps ! i) \<le> sum_list (map ticking ps)"
    using assms by (intro member_le_sum_list) auto
  then show ?thesis using assms by (simp add: map_update sum_list_update)
qed

lemma clock_ok_set_pc:
  assumes "clock_ok n lo s" "i < length (pcs s)" "sim_pc_ok n lo (lo + moved s) p"
    and "moved s + 100000 * (owed (pcs s) - int (ticking (pcs s ! i)) + int (ticking p)) \<le> 100000 * int (ends_posted s)"
  shows "clock_ok n lo (set_pc i p s)"
  using assms set_update_subset_insert [of "pcs s" i p]
  by (auto simp: clock_ok_def set_pc_def ends_posted_def owed_update)

text \<open>A thread moves on without posting and without moving the clock.\<close>

lemma clock_ok_quiet:
  assumes "clock_ok n lo s" "i < length (pcs s)" "sim_pc_ok n lo (lo + moved s) p" "ticking p \<le> ticking (pcs s ! i)"
  shows "clock_ok n lo (set_pc i p s)"
  using assms by (intro clock_ok_set_pc) (auto simp: clock_ok_def)

text \<open>A thread calls \<open>send_event\<close>: with a completion event it owes the clock an increment.\<close>

lemma clock_ok_call:
  assumes "clock_ok n lo s" "i < length (pcs s)" "send_ok n lo (lo + moved s) ev k" "ticking (pcs s ! i) = 0"
  shows "clock_ok n lo (set_pc i (Sending ev k) (s\<lparr>posted := posted s @ [ev]\<rparr>))"
proof -
  let ?s = "s\<lparr>posted := posted s @ [ev]\<rparr>"
  obtain t t_end where t: "simulated n t t_end (k \<noteq> None) ev" "lo \<le> t" "t \<le> lo + moved s"
    using assms(3) unfolding send_ok_def by blast
  have more: "ends_posted ?s = ends_posted s + of_bool (k \<noteq> None)"
    using simulated_fields [OF t(1)] by (simp add: ends_posted_def)
  have start: "dict_get ev ''startTime'' = Some (JInt t)" using simulated_fields [OF t(1)] by simp
  show ?thesis
  proof (rule clock_ok_set_pc)
    have "moved ?s + 100000 * owed (pcs ?s) \<le> 100000 * int (ends_posted s)" using assms(1) by (simp add: clock_ok_def)
    then show "moved ?s + 100000 * (owed (pcs ?s) - int (ticking (pcs ?s ! i)) + int (ticking (Sending ev k))) \<le>
        100000 * int (ends_posted ?s)"
      unfolding more using assms(4) by simp
    have "clock_ok n lo ?s \<longleftrightarrow> clock_ok n lo s"
      if "moved s + 100000 * owed (pcs s) \<le> 100000 * int (ends_posted s)"
      unfolding clock_ok_def more using that start t(2,3) by auto
    then show "clock_ok n lo ?s" using assms(1) by (simp add: clock_ok_def)
  qed (use assms(2,3) in \<open>simp_all add: sim_pc_ok_def\<close>)
qed

lemma clock_ok_frame [simp]:
  "clock_ok n lo (s\<lparr>agent := a, arrived := l\<rparr>) = clock_ok n lo s" "clock_ok n lo (s\<lparr>failed := l, printed := q\<rparr>) = clock_ok n lo s"
  "clock_ok n lo (s\<lparr>failed := l\<rparr>) = clock_ok n lo s" "clock_ok n lo (s\<lparr>printed := q\<rparr>) = clock_ok n lo s" "clock_ok n lo (s\<lparr>agent := a\<rparr>) = clock_ok n lo s"
  by (simp_all add: clock_ok_def ends_posted_def)

definition sim_ok :: "environ \<Rightarrow> int \<Rightarrow> int \<Rightarrow> sim_run \<Rightarrow> bool" where
  "sim_ok env n lo s \<longleftrightarrow> agent_fed env s \<and> clock_ok n lo s \<and> events_ok s"

lemma agent_fed_frame [simp]:
  "agent_fed env (set_pc i p s) = agent_fed env s" "agent_fed env (s\<lparr>sim := u\<rparr>) = agent_fed env s"
  "agent_fed env (s\<lparr>sim := u, moved := m\<rparr>) = agent_fed env s" "agent_fed env (s\<lparr>posted := l\<rparr>) = agent_fed env s"
  by (simp_all add: agent_fed_def set_pc_def)

lemma sim_ok_pc: "sim_ok env n lo s \<Longrightarrow> i < length (pcs s) \<Longrightarrow> pcs s ! i = p \<Longrightarrow> sim_pc_ok n lo (lo + moved s) p"
  by (auto simp: sim_ok_def clock_ok_def)

lemma sim_ok_write:
  assumes "sim_ok env n lo s" "i < length (pcs s)" "pcs s ! i = Adding t x"
  shows "clock_ok n lo (set_pc i AtTest (s\<lparr>sim := (sim s)\<lparr>current_time_us := t + x\<rparr>, moved := moved s + x\<rparr>))"
proof -
  let ?s = "s\<lparr>sim := (sim s)\<lparr>current_time_us := t + x\<rparr>, moved := moved s + x\<rparr>"
  have pc: "lo \<le> t" "t \<le> lo + moved s" "0 \<le> x" "x < 100000"
    using sim_ok_pc [OF assms] by (simp_all add: sim_pc_ok_def)
  have ok: "clock_ok n lo s" using assms(1) by (simp add: sim_ok_def)
  show ?thesis
    unfolding clock_ok_def
  proof (intro conjI ballI)
    fix p assume "p \<in> set (pcs (set_pc i AtTest ?s))"
    then consider "p = AtTest" | "p \<in> set (pcs s)"
      using set_update_subset_insert [of "pcs s" i AtTest] by (auto simp: set_pc_def)
    then have "sim_pc_ok n lo (lo + moved s) p"
      by cases (use ok in \<open>simp_all add: clock_ok_def sim_pc_ok_def [of _ _ _ AtTest]\<close>)
    then show "sim_pc_ok n lo (lo + moved (set_pc i AtTest ?s)) p"
      by (rule sim_pc_ok_mono) (simp add: set_pc_def pc(3))
  next
    fix ev assume "ev \<in> set (posted (set_pc i AtTest ?s))"
    then show "\<exists>t. dict_get ev ''startTime'' = Some (JInt t) \<and> lo \<le> t \<and> t \<le> lo + moved (set_pc i AtTest ?s)"
      using ok pc(3) by (fastforce simp: clock_ok_def set_pc_def)
  qed (use ok pc assms(2,3) in \<open>auto simp: clock_ok_def set_pc_def ends_posted_def owed_update\<close>)
qed

lemma clock_ok_step: "sim_step E senv s t \<Longrightarrow> sim_ok env n lo s \<Longrightarrow> clock_ok n lo t"
proof (induction rule: sim_step.induct)
  case (generate i s c src ev)
  then have "simulated n (current_time_us (sim s)) 0 False ev"
    using generated_simulated by (fastforce simp: sim_ok_def clock_ok_def)
  moreover have "lo \<le> current_time_us (sim s)" "current_time_us (sim s) \<le> lo + moved s"
    using generate by (simp_all add: sim_ok_def clock_ok_def)
  ultimately show ?case using generate
    by (auto simp: sim_ok_def sim_pc_ok_def intro!: clock_ok_quiet)
next
  case (call_start i s ev)
  from sim_ok_pc [OF call_start.prems call_start.hyps] have "send_ok n lo (lo + moved s) ev None"
    by (auto simp: sim_pc_ok_def send_ok_def)
  with call_start show ?case by (auto simp: sim_ok_def intro!: clock_ok_call)
next
  case (call_end i s ev d)
  from sim_ok_pc [OF call_end.prems call_end.hyps] have "send_ok n lo (lo + moved s) ev (Some d)"
    by (auto simp: sim_pc_ok_def send_ok_def)
  with call_end show ?case by (auto simp: sim_ok_def intro!: clock_ok_call)
next
  case (arrive i s ev k now reply s')
  have k: "send_ok n lo (lo + moved s) ev k"
    using sim_ok_pc [OF arrive.prems arrive.hyps(1,2)] by (simp add: sim_pc_ok_def)
  then obtain u u_end where "simulated n u u_end (k \<noteq> None) ev" unfolding send_ok_def by blast
  from post_event_effect [OF this, of s E now] fed_free arrive.prems arrive.hyps(3) obtain a l where
    "reply = Reply 200 (JStr ''OK'')" "s' = s\<lparr>agent := a, arrived := l\<rparr>" by (auto simp: sim_ok_def)
  with arrive k show ?case by (auto simp: sim_ok_def sim_pc_ok_def intro!: clock_ok_quiet)
next
  case (request_fails i s ev k delay)
  then have "sim_pc_ok n lo (lo + moved s) (after_send ev k delay)"
    using sim_ok_pc [OF request_fails.prems request_fails.hyps(1,2)]
    by (intro sim_pc_ok_after) (simp_all add: sim_pc_ok_def delay_ok_def)
  with request_fails show ?case by (cases k) (auto simp: sim_ok_def intro!: clock_ok_quiet)
next
  case (answer i s ev k reply delay a)
  then have "sim_pc_ok n lo (lo + moved s) (after_send ev k delay)"
    using sim_ok_pc [OF answer.prems answer.hyps(1,2)]
    by (intro sim_pc_ok_after) (simp_all add: sim_pc_ok_def delay_ok_def)
  with answer show ?case by (cases k) (auto simp: sim_ok_def intro!: clock_ok_quiet)
next
  case (complete i s ev delay elapsed ev')
  from sim_ok_pc [OF complete.prems complete.hyps(1,2)] obtain t where
    t: "delay_ok delay" "simulated n t 0 False ev" "lo \<le> t" "t \<le> lo + moved s" by (auto simp: sim_pc_ok_def)
  from complete_simulated [OF t(2) complete.hyps(3)] t have "sim_pc_ok n lo (lo + moved s) (PostEnd ev' delay)"
    unfolding sim_pc_ok_def by auto
  with complete show ?case by (auto simp: sim_ok_def intro!: clock_ok_quiet)
next
  case (read_clock i s delay)
  from sim_ok_pc [OF read_clock.prems read_clock.hyps] have "delay_ok delay" by (simp add: sim_pc_ok_def)
  then have "1000 \<le> trunc_rat (delay * 1000000)" "trunc_rat (delay * 1000000) < 100000"
    using delay_bounds by (simp_all add: delay_ok_def)
  then have "sim_pc_ok n lo (lo + moved s) (Adding (current_time_us (sim s)) (trunc_rat (delay * 1000000)))"
    using read_clock.prems by (simp add: sim_ok_def clock_ok_def sim_pc_ok_def [of _ _ _ "Adding t x" for t x])
  with read_clock show ?case by (auto simp: sim_ok_def intro!: clock_ok_quiet)
next
  case (write_clock i s t x)
  then show ?case by (intro sim_ok_write)
next
  case (interrupt s)
  then show ?case by (simp add: sim_ok_def clock_ok_def ends_posted_def)
qed (auto simp: sim_ok_def sim_pc_ok_def intro!: clock_ok_quiet)

lemma agent_fed_step: "sim_step E senv s t \<Longrightarrow> sim_ok env n lo s \<Longrightarrow> agent_fed env t"
proof (induction rule: sim_step.induct)
  case (arrive i s ev k now reply s')
  obtain u u_end where "simulated n u u_end (k \<noteq> None) ev"
    using sim_ok_pc [OF arrive.prems arrive.hyps(1,2)] by (auto simp: sim_pc_ok_def send_ok_def)
  from fed_post [OF _ this, of env s E now] arrive show ?case by (simp add: sim_ok_def)
next
  case (request_fails i s ev k delay)
  then show ?case by (auto simp: sim_ok_def agent_fed_def set_pc_def send_event_ok)
next
  case (answer i s ev k reply delay a)
  then have "reply = Reply 200 (JStr ''OK'')"
    using sim_ok_pc [OF answer.prems answer.hyps(1,2)] by (simp add: sim_pc_ok_def)
  with answer show ?case by (auto simp: sim_ok_def agent_fed_def set_pc_def send_event_ok)
next
  case (agent_moves s a)
  then show ?case by (auto simp: sim_ok_def intro: fed_moves)
qed (simp_all add: sim_ok_def)

lemma sim_ok_step: "sim_step E senv s t \<Longrightarrow> sim_ok env n lo s \<Longrightarrow> sim_ok env n lo t"
  using clock_ok_step agent_fed_step events_ok_step unfolding sim_ok_def by blast

lemma sim_ok_start: "sim_ok env ranks (trunc_rat (now * 1000000)) (sim_start ranks now env)"
  by (simp add: sim_ok_def clock_ok_start)
     (simp add: agent_fed_def events_ok_def sim_start_def agent_reachable.start, simp add: run_init_def numeral_3_eq_3)

lemma reachable_sim_ok:
  "sim_reachable E env ranks now s \<Longrightarrow> sim_ok env ranks (trunc_rat (now * 1000000)) s"
  by (induction rule: sim_reachable.induct) (auto intro: sim_ok_start sim_ok_step)

section \<open>After the interrupt\<close>

text \<open>How many events a thread still posts, and how many steps it still takes, when it is told to stop.\<close>

fun posts_left :: "sim_pc \<Rightarrow> nat" where
  "posts_left Generating = 2"
| "posts_left (PostStart ev) = 2"
| "posts_left (Sending ev k) = of_bool (k = None)"
| "posts_left (Replied ev k reply) = of_bool (k = None)"
| "posts_left (Waiting ev d) = 1"
| "posts_left (PostEnd ev d) = 1"
| "posts_left _ = 0"

fun steps_left :: "sim_pc \<Rightarrow> nat" where
  "steps_left AtTest = 1"
| "steps_left (Adding t x) = 2"
| "steps_left (Ticking d) = 3"
| "steps_left (Sending ev k) = (if k = None then 9 else 5)"
| "steps_left (Replied ev k reply) = (if k = None then 8 else 4)"
| "steps_left (PostEnd ev d) = 6"
| "steps_left (Waiting ev d) = 7"
| "steps_left (PostStart ev) = 10"
| "steps_left Generating = 11"
| "steps_left _ = 0"

lemma sum_update_le:
  fixes f :: "'a \<Rightarrow> nat"
  assumes "i < length xs" "f x + k \<le> f (xs ! i)"
  shows "sum_list (map f (xs[i := x])) + k \<le> sum_list (map f xs)"
proof -
  have "f (xs ! i) \<le> sum_list (map f xs)" using assms(1) by (intro member_le_sum_list) auto
  with assms show ?thesis by (simp add: map_update sum_list_update)
qed

lemma post_event_frame:
  "pcs (snd (post_event E now ev s)) = pcs s" "sim (snd (post_event E now ev s)) = sim s"
  "posted (snd (post_event E now ev s)) = posted s"
  by (simp_all add: post_event_def split: prod.splits)

lemma after_send_left: "posts_left (after_send ev k d) = of_bool (k = None)"
  "steps_left (after_send ev k d) < steps_left (Replied ev k reply)" "after_send ev k d \<noteq> Spinning"
  by (cases k; simp)+

lemma stopped_step:
  assumes "sim_step E env s t" "\<not> sim_running (sim s)"
  shows "\<not> sim_running (sim t) \<and>
     length (posted t) + sum_list (map posts_left (pcs t)) \<le> length (posted s) + sum_list (map posts_left (pcs s)) \<and>
     (Spinning \<in> set (pcs s) \<longrightarrow> Spinning \<in> set (pcs t))"
proof -
  have quiet: "sum_list (map posts_left ((pcs s)[i := p])) + k \<le> sum_list (map posts_left (pcs s))"
    if "i < length (pcs s)" "posts_left p + k \<le> posts_left (pcs s ! i)" for i p k
    using that by (rule sum_update_le)
  have spin: "Spinning \<in> set ((pcs s)[i := p])" if "Spinning \<in> set (pcs s)" "pcs s ! i \<noteq> Spinning" for i p
    using that by (metis in_set_conv_nth length_list_update nth_list_update_neq)
  show ?thesis
    using assms
  proof (cases rule: sim_step.cases)
    case (call_start i ev)
    with quiet [of i "Sending ev None" 1] spin [of i] assms(2) show ?thesis by (simp add: set_pc_def)
  next
    case (call_end i ev d)
    with quiet [of i "Sending ev (Some d)" 1] spin [of i] assms(2) show ?thesis by (simp add: set_pc_def)
  next
    case (arrive i ev k now reply s')
    then have "pcs s' = pcs s" "sim s' = sim s" "posted s' = posted s"
      using post_event_frame [of E now ev s] by simp_all
    with arrive quiet [of i "Replied ev k reply" 0] spin [of i] assms(2) show ?thesis by (simp add: set_pc_def)
  next
    case (request_fails i ev k delay)
    with quiet [of i "after_send ev k delay" 0] spin [of i] assms(2) show ?thesis
      by (simp add: set_pc_def after_send_left)
  next
    case (answer i ev k reply delay a)
    with quiet [of i "after_send ev k delay" 0] spin [of i] assms(2) show ?thesis
      by (simp add: set_pc_def after_send_left)
  next
    case (generate i c src ev)
    with quiet [of i "PostStart ev" 0] spin [of i] assms(2) show ?thesis by (simp add: set_pc_def)
  next
    case (complete i ev delay elapsed ev')
    with quiet [of i "PostEnd ev' delay" 0] spin [of i] assms(2) show ?thesis by (simp add: set_pc_def)
  next
    case (leave i)
    with quiet [of i SimFinished 0] spin [of i] assms(2) show ?thesis by (simp add: set_pc_def)
  next
    case (generate_raises i c src e)
    with quiet [of i "SimFailed e" 0] spin [of i] assms(2) show ?thesis by (simp add: set_pc_def)
  next
    case (complete_fails i ev delay elapsed e)
    with quiet [of i "SimFailed e" 0] spin [of i] assms(2) show ?thesis by (simp add: set_pc_def)
  next
    case (generate_spins i c src)
    with quiet [of i Spinning 0] spin [of i] assms(2) show ?thesis by (simp add: set_pc_def)
  next
    case (read_clock i delay)
    with quiet [of i _ 0] spin [of i] assms(2) show ?thesis by (simp add: set_pc_def)
  next
    case (write_clock i t x)
    with quiet [of i AtTest 0] spin [of i] assms(2) show ?thesis by (simp add: set_pc_def)
  qed (use assms(2) in simp_all)
qed

lemma stopped_steps:
  "(sim_step E env)\<^sup>*\<^sup>* s t \<Longrightarrow> \<not> sim_running (sim s) \<Longrightarrow> \<not> sim_running (sim t) \<and>
     length (posted t) + sum_list (map posts_left (pcs t)) \<le> length (posted s) + sum_list (map posts_left (pcs s)) \<and>
     (Spinning \<in> set (pcs s) \<longrightarrow> Spinning \<in> set (pcs t))"
  by (induction rule: rtranclp_induct) (auto dest!: stopped_step)

text \<open>A thread that has not ended can take one of its steps, and needs one less afterwards; it can avoid the
  endless search.\<close>

lemma thread_steps:
  assumes "i < length (pcs s)" "\<not> ended (pcs s ! i)" "pcs s ! i \<noteq> Spinning" "\<not> sim_running (sim s)" "0 < num_ranks (sim s)"
  shows "\<exists>t p. sim_step E env s t \<and> pcs t = (pcs s)[i := p] \<and> steps_left p < steps_left (pcs s ! i) \<and> p \<noteq> Spinning"
proof (cases "pcs s ! i")
  case Generating
  obtain ev where "generated True (\<lambda>_. 0) (sim s) = Return ev" using generated_collective assms(5) by blast
  from sim_step.generate [OF assms(1) Generating this] Generating show ?thesis by (fastforce simp: set_pc_def)
next
  case (PostStart ev)
  from sim_step.call_start [OF assms(1) PostStart] PostStart show ?thesis by (fastforce simp: set_pc_def)
next
  case (Sending ev k)
  obtain reply s' where p: "post_event E (Fin 0) ev s = (reply, s')" by force
  then have "pcs s' = pcs s" using post_event_frame(1) [of E "Fin 0" ev s] by simp
  with sim_step.arrive [OF assms(1) Sending p] Sending show ?thesis by (fastforce simp: set_pc_def)
next
  case (Replied ev k reply)
  let ?t = "set_pc i (after_send ev k (1/1000)) (s\<lparr>printed := printed s @ send_event (Some reply)\<rparr>)"
  have "sim_step E env s ?t" by (rule sim_step.answer [OF assms(1) Replied]) simp_all
  with after_send_left(2,3) [where ev = ev and k = k and d = "1/1000"] Replied show ?thesis
    by (intro exI [of _ ?t] exI [of _ "after_send ev k (1/1000)"]) (simp add: set_pc_def)
next
  case (Waiting ev d)
  show ?thesis
  proof (cases "complete_operation env 0 ev")
    case (Inl e)
    from sim_step.complete_fails [OF assms(1) Waiting this] Waiting show ?thesis by (fastforce simp: set_pc_def)
  next
    case (Inr ev')
    from sim_step.complete [OF assms(1) Waiting this] Waiting show ?thesis by (fastforce simp: set_pc_def)
  qed
next
  case (PostEnd ev d)
  from sim_step.call_end [OF assms(1) PostEnd] PostEnd show ?thesis by (fastforce simp: set_pc_def)
next
  case (Ticking d)
  from sim_step.read_clock [OF assms(1) Ticking] Ticking show ?thesis by (fastforce simp: set_pc_def)
next
  case (Adding t x)
  from sim_step.write_clock [OF assms(1) Adding] Adding show ?thesis by (fastforce simp: set_pc_def)
next
  case AtTest
  from sim_step.leave [OF assms(1) AtTest assms(4)] AtTest show ?thesis by (fastforce simp: set_pc_def)
qed (use assms(2,3) in auto)

lemma num_ranks_step: "sim_step E env s t \<Longrightarrow> num_ranks (sim t) = num_ranks (sim s)"
proof (induction rule: sim_step.induct)
  case (arrive i s ev k now reply s')
  with post_event_frame(2) [of E now ev s] show ?case by (simp add: set_pc_def)
qed (simp_all add: set_pc_def)

lemma joins_return:
  "\<not> sim_running (sim s) \<Longrightarrow> 0 < num_ranks (sim s) \<Longrightarrow> Spinning \<notin> set (pcs s) \<Longrightarrow>
   \<exists>t. (sim_step E env)\<^sup>*\<^sup>* s t \<and> main_returns t"
proof (induction "sum_list (map steps_left (pcs s))" arbitrary: s rule: less_induct)
  case less
  show ?case
  proof (cases "\<forall>p \<in> set (pcs s). ended p")
    case True
    with less.prems(1) show ?thesis by (auto simp: main_returns_def)
  next
    case False
    then obtain i where i: "i < length (pcs s)" "\<not> ended (pcs s ! i)" by (auto simp: in_set_conv_nth)
    with less.prems(3) have "pcs s ! i \<noteq> Spinning" by (metis nth_mem)
    from thread_steps [OF i this less.prems(1,2), of E env] obtain t p where
      t: "sim_step E env s t" "pcs t = (pcs s)[i := p]" "steps_left p < steps_left (pcs s ! i)" "p \<noteq> Spinning" by blast
    have "sum_list (map steps_left (pcs t)) + 1 \<le> sum_list (map steps_left (pcs s))"
      unfolding t(2) using t(3) by (intro sum_update_le i(1)) simp
    moreover have "Spinning \<notin> set (pcs t)"
      using less.prems(3) t(2,4) set_update_subset_insert [of "pcs s" i p] by auto
    moreover have "\<not> sim_running (sim t)" using stopped_step [OF t(1) less.prems(1)] by simp
    moreover have "0 < num_ranks (sim t)" using less.prems(2) num_ranks_step [OF t(1)] by simp
    ultimately obtain u where "(sim_step E env)\<^sup>*\<^sup>* t u" "main_returns u" using less.hyps [of t] by auto
    with t(1) show ?thesis by (meson converse_rtranclp_into_rtranclp)
  qed
qed

section \<open>Runs\<close>

text \<open>A call of \<open>send_event\<close> whose request arrives and is answered.\<close>

lemma reach_sent:
  assumes "sim_reachable E env ranks now s" "i < length (pcs s)" "pcs s ! i = Sending ev k" "1/1000 \<le> d" "d < 1/10"
  shows "\<exists>u. sim_reachable E env ranks now u \<and> pcs u = (pcs s)[i := after_send ev k d] \<and> sim u = sim s \<and>
     posted u = posted s \<and> arrived u = arrived s @ [ev] \<and> printed u = printed s"
proof -
  have "send_ok ranks (trunc_rat (now * 1000000)) (trunc_rat (now * 1000000) + moved s) ev k"
    using sim_ok_pc [OF reachable_sim_ok [OF assms(1)] assms(2,3)] by (simp add: sim_pc_ok_def)
  then obtain t t_end where "simulated ranks t t_end (k \<noteq> None) ev" unfolding send_ok_def by blast
  from post_event_effect [OF this, of s E "Fin 0"] reachable_sim_ok [OF assms(1)] fed_free obtain a where
    post: "post_event E (Fin 0) ev s = (Reply 200 (JStr ''OK''), s\<lparr>agent := a, arrived := arrived s @ [ev]\<rparr>)"
    by (fastforce simp: sim_ok_def)
  define s1 where "s1 = set_pc i (Replied ev k (Reply 200 (JStr ''OK''))) (s\<lparr>agent := a, arrived := arrived s @ [ev]\<rparr>)"
  have s1: "sim_reachable E env ranks now s1" "i < length (pcs s1)" "pcs s1 ! i = Replied ev k (Reply 200 (JStr ''OK''))"
    using sim_reachable.step [OF assms(1) sim_step.arrive [OF assms(2,3) post]] assms(2) by (simp_all add: s1_def set_pc_def)
  define s2 where "s2 = set_pc i (after_send ev k d) (s1\<lparr>printed := printed s1 @ send_event (Some (Reply 200 (JStr ''OK'')))\<rparr>)"
  have "sim_reachable E env ranks now s2" unfolding s2_def
    by (rule sim_reachable.step [OF s1(1) sim_step.answer [OF s1(2,3) assms(4,5)]]) simp
  then show ?thesis by (intro exI [of _ s2]) (simp add: s1_def s2_def set_pc_def send_event_ok)
qed

text \<open>A thread that runs from the loop test until it is about to read the clock.\<close>

lemma reach_ticking:
  assumes "sim_reachable E env ranks now s" "i < length (pcs s)" "pcs s ! i = AtTest" "sim_running (sim s)"
    and "0 < ranks" "1/1000 \<le> d" "d < 1/10"
  shows "\<exists>u. sim_reachable E env ranks now u \<and> pcs u = (pcs s)[i := Ticking d] \<and> sim u = sim s \<and>
     length (posted u) = length (posted s) + 2 \<and> length (arrived u) = length (arrived s) + 2 \<and> printed u = printed s"
proof -
  note next_state = sim_reachable.step
  have "num_ranks (sim s) = ranks" using reachable_sim_ok [OF assms(1)] by (simp add: sim_ok_def clock_ok_def)
  then obtain ev where ev: "generated True (\<lambda>_. 0) (sim s) = Return ev" using generated_collective assms(5) by blast
  from complete_total [OF generated_simulated [OF ev]] obtain ev' where
    ev': "complete_operation env 0 ev = Inr ev'" by blast
  define s1 where "s1 = set_pc i Generating s"
  define s2 where "s2 = set_pc i (PostStart ev) s1"
  define s3 where "s3 = set_pc i (Sending ev None) (s2\<lparr>posted := posted s2 @ [ev]\<rparr>)"
  note defs = s1_def s2_def s3_def set_pc_def
  have "sim_reachable E env ranks now s1" unfolding s1_def
    by (rule next_state [OF assms(1) sim_step.loop [OF assms(2-4)]])
  then have "sim_reachable E env ranks now s2" unfolding s2_def
    by (rule next_state) (rule sim_step.generate; use assms ev in \<open>simp add: defs\<close>)
  then have "sim_reachable E env ranks now s3" unfolding s3_def
    by (rule next_state) (rule sim_step.call_start; use assms in \<open>simp add: defs\<close>)
  moreover have "i < length (pcs s3)" "pcs s3 ! i = Sending ev None" using assms(2) by (simp_all add: defs)
  ultimately obtain s4 where s4: "sim_reachable E env ranks now s4" "pcs s4 = (pcs s3)[i := Waiting ev d]" "sim s4 = sim s3"
    "posted s4 = posted s3" "arrived s4 = arrived s3 @ [ev]" "printed s4 = printed s3"
    using reach_sent [of E env ranks now s3 i ev None d] assms(6,7) by auto
  define s5 where "s5 = set_pc i (PostEnd ev' d) s4"
  define s6 where "s6 = set_pc i (Sending ev' (Some d)) (s5\<lparr>posted := posted s5 @ [ev']\<rparr>)"
  have "sim_reachable E env ranks now s5" unfolding s5_def
    by (rule next_state [OF s4(1)]) (rule sim_step.complete; use assms ev' s4(2) in \<open>simp add: defs\<close>)
  then have "sim_reachable E env ranks now s6" unfolding s6_def
    by (rule next_state) (rule sim_step.call_end; use assms s4(2) in \<open>simp add: defs s5_def\<close>)
  moreover have "i < length (pcs s6)" "pcs s6 ! i = Sending ev' (Some d)"
    using assms(2) s4(2) by (simp_all add: defs s5_def s6_def)
  ultimately obtain u where u: "sim_reachable E env ranks now u" "pcs u = (pcs s6)[i := Ticking d]" "sim u = sim s6"
    "posted u = posted s6" "arrived u = arrived s6 @ [ev']" "printed u = printed s6"
    using reach_sent [of E env ranks now s6 i ev' "Some d" d] assms(6,7) by auto
  then show ?thesis by (intro exI [of _ u]) (simp add: defs s5_def s6_def s4)
qed

lemma reach_adding:
  assumes "sim_reachable E env ranks now s" "i < length (pcs s)" "pcs s ! i = Ticking d"
  shows "\<exists>u. sim_reachable E env ranks now u \<and> sim u = sim s \<and>
     pcs u = (pcs s)[i := Adding (current_time_us (sim s)) (trunc_rat (d * 1000000))]"
  using sim_reachable.step [OF assms(1) sim_step.read_clock [OF assms(2,3)]] by (fastforce simp: set_pc_def)

text \<open>Two threads read the same time; the later write undoes the earlier one.\<close>

lemma clock_goes_back:
  "\<exists>s t. sim_reachable E env 4 1 s \<and> sim_step E env s t \<and> current_time_us (sim s) = 1090000 \<and>
     current_time_us (sim t) = 1001000"
proof -
  define s0 where "s0 = sim_start 4 1 env"
  have s0: "sim_reachable E env 4 1 s0" unfolding s0_def by (rule sim_reachable.start)
  have start: "pcs s0 = [AtTest, AtTest, AtTest]" "sim_running (sim s0)" "current_time_us (sim s0) = 1000000"
    by (simp_all add: s0_def sim_start_def simulator_init_def trunc_rat_def numeral_3_eq_3)
  from reach_ticking [OF s0, of 0 "9/100"] start obtain s1 where s1: "sim_reachable E env 4 1 s1"
    "pcs s1 = [Ticking (9/100), AtTest, AtTest]" "sim s1 = sim s0" by auto
  from reach_ticking [OF s1(1), of 1 "1/1000"] s1 start obtain s2 where s2: "sim_reachable E env 4 1 s2"
    "pcs s2 = [Ticking (9/100), Ticking (1/1000), AtTest]" "sim s2 = sim s0" by auto
  from reach_adding [OF s2(1), of 0 "9/100"] s2 start obtain s3 where s3: "sim_reachable E env 4 1 s3"
    "pcs s3 = [Adding 1000000 90000, Ticking (1/1000), AtTest]" "sim s3 = sim s0" by (auto simp: trunc_rat_def)
  from reach_adding [OF s3(1), of 1 "1/1000"] s3 start obtain s4 where s4: "sim_reachable E env 4 1 s4"
    "pcs s4 = [Adding 1000000 90000, Adding 1000000 1000, AtTest]" "sim s4 = sim s0" by (auto simp: trunc_rat_def)
  define s5 where "s5 = set_pc 0 AtTest (s4\<lparr>sim := (sim s4)\<lparr>current_time_us := 1000000 + 90000\<rparr>, moved := moved s4 + 90000\<rparr>)"
  have "sim_reachable E env 4 1 s5" unfolding s5_def
    by (rule sim_reachable.step [OF s4(1)], rule sim_step.write_clock) (simp_all add: s4(2))
  moreover have "sim_step E env s5 (set_pc 1 AtTest
      (s5\<lparr>sim := (sim s5)\<lparr>current_time_us := 1000000 + 1000\<rparr>, moved := moved s5 + 1000\<rparr>))"
    by (rule sim_step.write_clock) (simp_all add: s5_def set_pc_def s4(2))
  moreover have "current_time_us (sim s5) = 1090000" by (simp add: s5_def set_pc_def)
  ultimately show ?thesis by (fastforce simp: set_pc_def)
qed

section \<open>Properties\<close>

text \<open>C20: In every interleaving of the three threads with the agent and its sender, whatever requests and answers
  get lost: each event a thread posted has arrived at the agent, has failed before, or is on its way, and
  for those that arrived the agent appended one record each, in the order of their arrival, with the event's
  kind and times.  The agent never refuses an event, so all that is ever printed is of requests or
  answers lost; the buffer can always be grouped, and the sender can die of nothing but its first request.\<close>

theorem simulator_feeds_agent:
  assumes "sim_reachable E env ranks now s"
  shows "mset (posted s) = mset (arrived s) + mset (failed s) + sum_list (map on_way (pcs s)) \<and>
     length (appended (agent s)) = length (arrived s) \<and>
     (\<forall>i < length (arrived s). op_key (appended (agent s) ! i) = op_key (arrived s ! i) \<and>
        (\<forall>k \<in> {''startTime'', ''finished''}. dict_get (appended (agent s) ! i) k = dict_get (arrived s ! i) k)) \<and>
     set (printed s) \<subseteq> {''Error sending event''} \<and>
     (\<exists>g. group_logs (ccl_logs (mon (agent s))) [] = Inr g) \<and>
     (\<forall>e. pc (agent s) = Dead e \<longrightarrow> e = RequestException \<and> acked (agent s) = [])"
proof -
  have ok: "agent_fed env s" "events_ok s" using reachable_sim_ok [OF assms] by (simp_all add: sim_ok_def)
  then have records: "list_all2 recorded_as (arrived s) (appended (agent s))" by (simp add: agent_fed_def)
  then have "op_key (appended (agent s) ! i) = op_key (arrived s ! i) \<and>
      (\<forall>k \<in> {''startTime'', ''finished''}. dict_get (appended (agent s) ! i) k = dict_get (arrived s ! i) k)"
    if "i < length (arrived s)" for i
    using that by (auto simp: list_all2_conv_all_nth recorded_as_def)
  with ok fed_groups [OF ok(1) order_refl] list_all2_lengthD [OF records] show ?thesis
    by (simp add: agent_fed_def events_ok_def)
qed

theorem simulator_feeds_agent_witness:
  "\<exists>s. sim_reachable (sample_agent []) [] 4 1 s \<and> length (arrived s) = 2 \<and> length (appended (agent s)) = 2 \<and> printed s = []"
proof -
  let ?s = "sim_start 4 1 []"
  have "sim_reachable (sample_agent []) [] 4 1 ?s" by (rule sim_reachable.start)
  from reach_ticking [OF this, of 0 "1/1000"] obtain u where u: "sim_reachable (sample_agent []) [] 4 1 u"
    "length (arrived u) = 2" "printed u = []" by (auto simp: sim_start_def simulator_init_def)
  from simulator_feeds_agent [OF u(1)] u show ?thesis by metis
qed

text \<open>C17: The shared clock and the start time of every event stay between the start of the simulator and the
  start plus 100 ms for every finished event posted, although increments can get lost; the clock can
  even go back, as the witness shows.\<close>

theorem shared_clock_bounds:
  assumes "sim_reachable E env ranks now s"
  shows "trunc_rat (now * 1000000) \<le> current_time_us (sim s) \<and>
     current_time_us (sim s) \<le> trunc_rat (now * 1000000) + 100000 * int (ends_posted s) \<and>
     (\<forall>ev \<in> set (posted s). \<exists>t. dict_get ev ''startTime'' = Some (JInt t) \<and> trunc_rat (now * 1000000) \<le> t \<and>
        t \<le> trunc_rat (now * 1000000) + 100000 * int (ends_posted s))"
proof -
  have ok: "clock_ok ranks (trunc_rat (now * 1000000)) s"
    using reachable_sim_ok [OF assms] by (simp add: sim_ok_def)
  then have "moved s \<le> 100000 * int (ends_posted s)" unfolding clock_ok_def by linarith
  with ok show ?thesis unfolding clock_ok_def by fastforce
qed

theorem shared_clock_bounds_witness:
  "\<exists>s t. sim_reachable (sample_agent []) [] 4 1 s \<and> sim_step (sample_agent []) [] s t \<and>
     1000000 \<le> current_time_us (sim t) \<and> current_time_us (sim t) < current_time_us (sim s)"
proof -
  from clock_goes_back [of "sample_agent []" "[]"] obtain s t where
    s: "sim_reachable (sample_agent []) [] 4 1 s" "sim_step (sample_agent []) [] s t"
    "current_time_us (sim s) = 1090000" "current_time_us (sim t) = 1001000" by blast
  have "trunc_rat (1 * 1000000) \<le> current_time_us (sim t)"
    using shared_clock_bounds [OF sim_reachable.step [OF s(1,2)]] by blast
  with s show ?thesis by (intro exI [of _ s] exI [of _ t]) (simp add: trunc_rat_def)
qed

text \<open>C29: After the interrupt the threads post at most six more events; with a rank and no thread that searches for
  ever for another one, \<open>main\<close> can return from its joins, and with one it never does.\<close>

theorem interrupt_stops_simulator:
  assumes "sim_reachable E env ranks now s" "\<not> sim_running (sim s)"
  shows "(\<forall>t. (sim_step E env)\<^sup>*\<^sup>* s t \<longrightarrow> length (posted t) \<le> length (posted s) + 6) \<and>
     (0 < ranks \<and> Spinning \<notin> set (pcs s) \<longrightarrow> (\<exists>t. (sim_step E env)\<^sup>*\<^sup>* s t \<and> main_returns t)) \<and>
     (Spinning \<in> set (pcs s) \<longrightarrow> (\<forall>t. (sim_step E env)\<^sup>*\<^sup>* s t \<longrightarrow> \<not> main_returns t))"
proof (intro conjI allI impI)
  have ok: "length (pcs s) = 3" "num_ranks (sim s) = ranks"
    using reachable_sim_ok [OF assms(1)] by (simp_all add: sim_ok_def clock_ok_def)
  fix t assume "(sim_step E env)\<^sup>*\<^sup>* s t"
  note stop = stopped_steps [OF this assms(2)]
  have "sum_list (map posts_left (pcs s)) \<le> sum_list (map (\<lambda>_. 2) (pcs s))"
  proof (rule sum_list_mono)
    show "posts_left p \<le> 2" for p by (cases p) simp_all
  qed
  then have "sum_list (map posts_left (pcs s)) \<le> 6" using ok(1) by (simp add: sum_list_triv)
  with stop show "length (posted t) \<le> length (posted s) + 6" by linarith
  show "\<not> main_returns t" if "Spinning \<in> set (pcs s)" using stop that by (auto simp: main_returns_def intro!: bexI [of _ Spinning])
next
  assume "0 < ranks \<and> Spinning \<notin> set (pcs s)"
  moreover have "num_ranks (sim s) = ranks"
    using reachable_sim_ok [OF assms(1)] by (simp add: sim_ok_def clock_ok_def)
  ultimately show "\<exists>t. (sim_step E env)\<^sup>*\<^sup>* s t \<and> main_returns t" using joins_return assms(2) by blast
qed

theorem interrupt_stops_simulator_witness:
  "\<exists>s t. sim_reachable (sample_agent []) [] 4 1 s \<and> \<not> sim_running (sim s) \<and>
     (sim_step (sample_agent []) [])\<^sup>*\<^sup>* s t \<and> main_returns t"
proof -
  let ?s = "(sim_start 4 1 [])\<lparr>sim := (sim (sim_start 4 1 []))\<lparr>sim_running := False\<rparr>\<rparr>"
  have s: "sim_reachable (sample_agent []) [] 4 1 ?s" "\<not> sim_running (sim ?s)"
    using sim_reachable.step [OF sim_reachable.start sim_step.interrupt] by simp_all
  have "Spinning \<notin> set (pcs ?s)" by (simp add: sim_start_def)
  with interrupt_stops_simulator [OF s] s show ?thesis by auto
qed

end
