(* ===== verification/Net_Shapes.thy ===== *)
theory Net_Shapes
  imports C4D_Prelude
begin

text \<open>
  The three small networks of the sample programs as functions on tensor shapes: \<open>Net\<close> of
  \<open>compute-engine/user_code/mnist.py\<close>, \<open>Net\<close> of \<open>workspace/test_deployment/train.py\<close> and
  \<open>LargeTestModel\<close> of \<open>workspace/train_sample.py\<close>.  A PyTorch layer is a parameter: the shape it makes
  of a shape, or the exception.  Operations that work on each element (relu, dropout, log_softmax)
  keep the shape and are left out.
\<close>

section \<open>Layers\<close>

type_synonym tshape = "nat list"

text \<open>
  \<open>Conv2d\<close> takes the channels in and out, the size of the kernel and the stride, \<open>Conv1d\<close> the padding
  last; \<open>view\<close> takes the wanted sizes, \<open>None\<close> for the one written \<open>-1\<close>.
\<close>

record shape_lib =
  Conv2d :: "nat \<Rightarrow> nat \<Rightarrow> nat \<Rightarrow> nat \<Rightarrow> tshape \<Rightarrow> tshape result"
  Conv1d :: "nat \<Rightarrow> nat \<Rightarrow> nat \<Rightarrow> nat \<Rightarrow> tshape \<Rightarrow> tshape result"
  max_pool2d :: "nat \<Rightarrow> nat \<Rightarrow> tshape \<Rightarrow> tshape result"
  LinearLayer :: "nat \<Rightarrow> nat \<Rightarrow> tshape \<Rightarrow> tshape result"
  BatchNorm1d :: "nat \<Rightarrow> tshape \<Rightarrow> tshape result"
  view :: "nat option list \<Rightarrow> tshape \<Rightarrow> tshape result"
  flatten_from_1 :: "tshape \<Rightarrow> tshape result"
  add_tensors :: "tshape \<Rightarrow> tshape \<Rightarrow> tshape result"
  randn :: "int \<Rightarrow> nat \<Rightarrow> tshape result"

text \<open>How many steps a window of size \<open>k\<close> can take over \<open>n\<close> elements.\<close>

definition windows :: "nat \<Rightarrow> nat \<Rightarrow> nat \<Rightarrow> nat" where
  "windows n k stride = (if n < k then 0 else (n - k) div stride + 1)"

text \<open>The sizes \<open>view\<close> finds, as PyTorch documents them: the open size must be determined.\<close>

definition viewed :: "nat option list \<Rightarrow> nat \<Rightarrow> tshape result" where
  "viewed dims n =
     (let known = prod_list (map (\<lambda>d. case d of None \<Rightarrow> 1 | Some k \<Rightarrow> k) dims) in
      if None \<in> set dims then
        if known \<noteq> 0 \<and> known dvd n then Inr (map (\<lambda>d. case d of None \<Rightarrow> n div known | Some k \<Rightarrow> k) dims)
        else Inl RuntimeError
      else if known = n then Inr (map the dims) else Inl RuntimeError)"

definition shapes_documented :: "shape_lib \<Rightarrow> bool" where
  "shapes_documented S \<longleftrightarrow>
     (\<forall>i out k st b ch h w. Conv2d S i out k st [b, ch, h, w] =
        (if ch = i \<and> 0 < windows h k st \<and> 0 < windows w k st
         then Inr [b, out, windows h k st, windows w k st] else Inl RuntimeError)) \<and>
     (\<forall>i out k pad b ch n. Conv1d S i out k pad [b, ch, n] =
        (if ch = i \<and> 0 < windows (n + 2 * pad) k 1 then Inr [b, out, windows (n + 2 * pad) k 1] else Inl RuntimeError)) \<and>
     (\<forall>k st b ch h w. max_pool2d S k st [b, ch, h, w] =
        (if 0 < windows h k st \<and> 0 < windows w k st then Inr [b, ch, windows h k st, windows w k st] else Inl RuntimeError)) \<and>
     (\<forall>i out b n. LinearLayer S i out [b, n] = (if n = i then Inr [b, out] else Inl RuntimeError)) \<and>
     (\<forall>f b ch n. BatchNorm1d S f [b, ch, n] =
        (if ch \<noteq> f then Inl RuntimeError else if b * n = 1 then Inl ValueError else Inr [b, ch, n])) \<and>
     (\<forall>dims sh. view S dims sh = viewed dims (prod_list sh)) \<and>
     (\<forall>b ch h w. flatten_from_1 S [b, ch, h, w] = Inr [b, ch * h * w]) \<and>
     (\<forall>sh. add_tensors S sh sh = Inr sh) \<and>
     (\<forall>b n. randn S b n = (if b < 0 then Inl RuntimeError else Inr [nat b, n]))"

section \<open>Networks\<close>

text \<open>\<open>Net.forward\<close> of \<open>mnist.py\<close>.\<close>

definition mnist_forward :: "shape_lib \<Rightarrow> tshape \<Rightarrow> tshape result" where
  "mnist_forward S x =
     res_bind (Conv2d S 1 20 5 1 x) (\<lambda>x.
     res_bind (max_pool2d S 2 2 x) (\<lambda>x.
     res_bind (Conv2d S 20 50 5 1 x) (\<lambda>x.
     res_bind (max_pool2d S 2 2 x) (\<lambda>x.
     res_bind (view S [None, Some (4*4*50)] x) (\<lambda>x.
     res_bind (LinearLayer S (4*4*50) 500 x) (\<lambda>x.
     LinearLayer S 500 10 x))))))"

text \<open>\<open>Net.forward\<close> of \<open>test_deployment/train.py\<close>.\<close>

definition deployment_forward :: "shape_lib \<Rightarrow> tshape \<Rightarrow> tshape result" where
  "deployment_forward S x =
     res_bind (Conv2d S 1 32 3 1 x) (\<lambda>x.
     res_bind (Conv2d S 32 64 3 1 x) (\<lambda>x.
     res_bind (max_pool2d S 2 2 x) (\<lambda>x.
     res_bind (flatten_from_1 S x) (\<lambda>x.
     res_bind (LinearLayer S 9216 128 x) (\<lambda>x.
     LinearLayer S 128 10 x)))))"

text \<open>\<open>LargeTestModel\<close>: the layers \<open>__init__\<close> appends, each by its sizes.\<close>

fun hidden_layers :: "nat list \<Rightarrow> (nat \<times> nat) list" where
  "hidden_layers (a # b # rest) = (a, b) # hidden_layers (b # rest)"
| "hidden_layers _ = []"

definition large_layers :: "nat \<Rightarrow> nat list \<Rightarrow> nat \<Rightarrow> (nat \<times> nat) list result" where
  "large_layers input_size hidden_sizes output_size =
     (if hidden_sizes = [] then Inl IndexError
      else Inr ((input_size, hd hidden_sizes) # hidden_layers hidden_sizes @ [(last hidden_sizes, output_size)]))"

definition large_convs :: "(nat \<times> nat) list" where
  "large_convs = [(64, 64), (64, 128), (128, 64)]"

fun res_foldl :: "('a \<Rightarrow> 'b \<Rightarrow> 'a result) \<Rightarrow> 'a \<Rightarrow> 'b list \<Rightarrow> 'a result" where
  "res_foldl f x [] = Inr x"
| "res_foldl f x (y # ys) = res_bind (f x y) (\<lambda>z. res_foldl f z ys)"

definition large_forward :: "shape_lib \<Rightarrow> (nat \<times> nat) list \<Rightarrow> tshape \<Rightarrow> tshape result" where
  "large_forward S layers x =
     res_bind (res_foldl (\<lambda>x (i, out). LinearLayer S i out x) x (butlast layers)) (\<lambda>x.
       let batch_size = hd x in
       res_bind (view S [Some batch_size, Some 64, None] x) (\<lambda>x.
       let residual = x in
       res_bind (res_foldl (\<lambda>x (i, out). Conv1d S i out 3 1 x) x large_convs) (\<lambda>x.
       res_bind (add_tensors S x residual) (\<lambda>x.
       res_bind (BatchNorm1d S 64 x) (\<lambda>x.
       res_bind (view S [Some batch_size, None] x) (\<lambda>x.
       LinearLayer S (fst (last layers)) (snd (last layers)) x))))))"

text \<open>\<open>count_parameters\<close>: a linear layer has a matrix and a bias, a convolution a kernel per pair of
  channels and a bias, the normalisation two numbers per channel.\<close>

definition count_parameters :: "(nat \<times> nat) list \<Rightarrow> nat" where
  "count_parameters layers =
     sum_list (map (\<lambda>(i, out). out * i + out) layers) +
     sum_list (map (\<lambda>(i, out). out * i * 3 + out) large_convs) + 2 * 64"

section \<open>Shapes of the results\<close>

lemma documented:
  assumes "shapes_documented S"
  shows "Conv2d S i out k st [b, ch, h, w] =
        (if ch = i \<and> 0 < windows h k st \<and> 0 < windows w k st
         then Inr [b, out, windows h k st, windows w k st] else Inl RuntimeError)"
    and "Conv1d S i out k pad [b, ch, n] =
        (if ch = i \<and> 0 < windows (n + 2 * pad) k 1 then Inr [b, out, windows (n + 2 * pad) k 1] else Inl RuntimeError)"
    and "max_pool2d S k st [b, ch, h, w] =
        (if 0 < windows h k st \<and> 0 < windows w k st then Inr [b, ch, windows h k st, windows w k st] else Inl RuntimeError)"
    and "LinearLayer S i out [b, n] = (if n = i then Inr [b, out] else Inl RuntimeError)"
    and "BatchNorm1d S f [b, ch, n] =
        (if ch \<noteq> f then Inl RuntimeError else if b * n = 1 then Inl ValueError else Inr [b, ch, n])"
    and "view S dims sh = viewed dims (prod_list sh)"
    and "flatten_from_1 S [b, ch, h, w] = Inr [b, ch * h * w]"
    and "add_tensors S sh sh = Inr sh"
    and "randn S rows n = (if rows < 0 then Inl RuntimeError else Inr [nat rows, n])"
  using assms by (simp_all add: shapes_documented_def)

lemma windows_0 [simp]: "0 < k \<Longrightarrow> windows 0 k st = 0"
  by (simp add: windows_def)

lemma windows_1: "windows n k 1 = (if n < k then 0 else n - k + 1)"
  by (simp add: windows_def)

lemma windows_2: "windows n 2 2 = n div 2"
  by (simp add: windows_def) presburger

text \<open>What is left of one side of an image after the two convolutions and poolings of \<open>mnist.py\<close>.\<close>

definition mnist_side :: "nat \<Rightarrow> nat" where
  "mnist_side n = ((n - 4) div 2 - 4) div 2"

lemma mnist_side_windows:
  "windows (windows (windows (windows n 5 1) 2 2) 5 1) 2 2 = mnist_side n"
proof -
  have "windows m 5 1 = m - 4" for m by (simp add: windows_def) presburger
  then show ?thesis by (simp add: windows_2 mnist_side_def)
qed

lemma windows_pos:
  "0 < windows (windows n k st) k' st' \<Longrightarrow> 0 < k' \<Longrightarrow> 0 < windows n k st"
  by (auto simp: windows_def split: if_splits)

section \<open>Properties\<close>

text \<open>C37: On a batch of one-channel images the network of \<open>mnist.py\<close> flattens with an open batch size: it
  accepts exactly the image sizes that leave something and a total that fills whole rows, and it returns one
  row per image only when the two remaining sides multiply to 16, as for 28 by 28.  The network of
  \<open>test_deployment\<close> flattens each image and refuses every other size.\<close>

theorem image_networks_shapes:
  assumes "shapes_documented S"
  shows "mnist_forward S [b, 1, h, w] =
       (if mnist_side h * mnist_side w \<noteq> 0 \<and> 16 dvd b * (mnist_side h * mnist_side w)
        then Inr [b * (mnist_side h * mnist_side w) div 16, 10] else Inl RuntimeError) \<and>
     (0 < b \<longrightarrow> (mnist_forward S [b, 1, h, w] = Inr [b, 10] \<longleftrightarrow> mnist_side h * mnist_side w = 16)) \<and>
     deployment_forward S [b, 1, h, w] =
       (if (h - 4) div 2 * ((w - 4) div 2) = 144 then Inr [b, 10] else Inl RuntimeError)"
proof -
  note doc = documented [OF assms]
  let ?p = "mnist_side h * mnist_side w"
  let ?n = "b * (mnist_side h * mnist_side w)"
  have upto_view: "mnist_forward S [b, 1, h, w] =
      (if 0 < mnist_side h \<and> 0 < mnist_side w
       then res_bind (view S [None, Some 800] [b, 50, mnist_side h, mnist_side w]) (\<lambda>x.
            res_bind (LinearLayer S 800 500 x) (LinearLayer S 500 10))
       else Inl RuntimeError)"
    by (auto simp: mnist_forward_def doc(1,3) mnist_side_windows [symmetric] dest: windows_pos)
  have mnist: "mnist_forward S [b, 1, h, w] =
      (if ?p \<noteq> 0 \<and> 16 dvd ?n then Inr [?n div 16, 10] else Inl RuntimeError)"
    unfolding upto_view by (auto simp: doc(4,6) viewed_def Let_def mult.assoc)
  have "16 dvd ?n \<and> ?n div 16 = b \<longleftrightarrow> ?p = 16" if "0 < b"
  proof -
    have "16 dvd ?n \<and> ?n div 16 = b \<longleftrightarrow> ?n = b * 16" by auto
    also have "\<dots> \<longleftrightarrow> ?p = 16" using that by simp
    finally show ?thesis .
  qed
  then have "0 < b \<longrightarrow> (mnist_forward S [b, 1, h, w] = Inr [b, 10] \<longleftrightarrow> ?p = 16)"
    unfolding mnist by auto
  moreover have "deployment_forward S [b, 1, h, w] =
       (if (h - 4) div 2 * ((w - 4) div 2) = 144 then Inr [b, 10] else Inl RuntimeError)"
  proof -
    have side: "windows (windows (windows n 3 1) 3 1) 2 2 = (n - 4) div 2" for n
    proof -
      have "windows (windows n 3 1) 3 1 = n - 4" by (simp add: windows_def) presburger
      then show ?thesis by (simp only: windows_2)
    qed
    have "deployment_forward S [b, 1, h, w] =
      (if 0 < (h - 4) div 2 \<and> 0 < (w - 4) div 2
       then res_bind (LinearLayer S 9216 128 [b, 64 * ((h - 4) div 2) * ((w - 4) div 2)]) (LinearLayer S 128 10)
       else Inl RuntimeError)"
      by (auto simp: deployment_forward_def doc(1,3,7) side [symmetric] dest: windows_pos)
    then show ?thesis unfolding doc(4) by (auto simp: doc(4) mult.assoc)
  qed
  ultimately show ?thesis using mnist by blast
qed

text \<open>A concrete library for the witnesses.\<close>

definition sample_shapes :: shape_lib where
  "sample_shapes = \<lparr>
     Conv2d = (\<lambda>i out k st sh. case sh of [b, ch, h, w] \<Rightarrow>
        if ch = i \<and> 0 < windows h k st \<and> 0 < windows w k st
        then Inr [b, out, windows h k st, windows w k st] else Inl RuntimeError | _ \<Rightarrow> Inl RuntimeError),
     Conv1d = (\<lambda>i out k pad sh. case sh of [b, ch, n] \<Rightarrow>
        if ch = i \<and> 0 < windows (n + 2 * pad) k 1 then Inr [b, out, windows (n + 2 * pad) k 1] else Inl RuntimeError
        | _ \<Rightarrow> Inl RuntimeError),
     max_pool2d = (\<lambda>k st sh. case sh of [b, ch, h, w] \<Rightarrow>
        if 0 < windows h k st \<and> 0 < windows w k st then Inr [b, ch, windows h k st, windows w k st] else Inl RuntimeError
        | _ \<Rightarrow> Inl RuntimeError),
     LinearLayer = (\<lambda>i out sh. case sh of [b, n] \<Rightarrow> if n = i then Inr [b, out] else Inl RuntimeError
        | _ \<Rightarrow> Inl RuntimeError),
     BatchNorm1d = (\<lambda>f sh. case sh of [b, ch, n] \<Rightarrow>
        if ch \<noteq> f then Inl RuntimeError else if b * n = 1 then Inl ValueError else Inr [b, ch, n]
        | _ \<Rightarrow> Inl RuntimeError),
     view = (\<lambda>dims sh. viewed dims (prod_list sh)),
     flatten_from_1 = (\<lambda>sh. case sh of b # rest \<Rightarrow> Inr [b, prod_list rest] | _ \<Rightarrow> Inl IndexError),
     add_tensors = (\<lambda>x y. if x = y then Inr x else Inl RuntimeError),
     randn = (\<lambda>b n. if b < 0 then Inl RuntimeError else Inr [nat b, n])\<rparr>"

lemma sample_shapes_documented: "shapes_documented sample_shapes"
  by (simp add: shapes_documented_def sample_shapes_def mult.assoc)

theorem image_networks_shapes_witness:
  "mnist_forward sample_shapes [64, 1, 28, 28] = Inr [64, 10] \<and>
   mnist_forward sample_shapes [64, 1, 32, 32] = Inr [100, 10] \<and>
   mnist_forward sample_shapes [5, 1, 32, 32] = Inl RuntimeError \<and>
   deployment_forward sample_shapes [64, 1, 28, 28] = Inr [64, 10] \<and>
   deployment_forward sample_shapes [64, 1, 32, 32] = Inl RuntimeError"
proof -
  have sides: "mnist_side 28 = 4" "mnist_side 32 = 5" by (simp_all add: mnist_side_def)
  note shapes = image_networks_shapes [OF sample_shapes_documented]
  show ?thesis
    using shapes [of 64 28 28] shapes [of 64 32 32] shapes [of 5 32 32]
    by (simp only: sides) (simp add: dvd_eq_mod_eq_0)
qed

section \<open>The large test model\<close>

lemma linear_chain:
  assumes "shapes_documented S" "hs \<noteq> []"
  shows "res_foldl (\<lambda>x (i, out). LinearLayer S i out x) [b, n] ((i, hd hs) # hidden_layers hs) =
     (if n = i then Inr [b, last hs] else Inl RuntimeError)"
  using assms(2)
proof (induction hs arbitrary: n i rule: hidden_layers.induct)
  case (1 a c rest)
  from "1.IH" [of 0 0] have "res_foldl (\<lambda>x (i, out). LinearLayer S i out x) [b, c] (hidden_layers (c # rest)) = Inr [b, last (c # rest)]"
    by (simp add: documented(4) [OF assms(1)])
  then show ?case by (simp add: documented(4) [OF assms(1)])
qed (simp_all add: documented(4) [OF assms(1)])

lemma conv_chain:
  assumes "shapes_documented S"
  shows "res_foldl (\<lambda>x (i, out). Conv1d S i out 3 1 x) [b, 64, n] large_convs =
     (if n = 0 then Inl RuntimeError else Inr [b, 64, n])"
proof -
  have "windows (n + 2) 3 1 = n" by (simp add: windows_def)
  then show ?thesis using documented(2) [OF assms] by (simp add: large_convs_def)
qed

text \<open>With a last hidden size that is a multiple of 64 the model maps a batch of rows of the input size to as
  many rows of the output size.\<close>

lemma large_model_shapes:
  assumes "shapes_documented S" "large_layers i hs out = Inr layers"
  shows "large_forward S layers [b, n] =
     (if n = i \<and> 0 < b \<and> 64 dvd last hs \<and> 0 < last hs then
        (if b * (last hs div 64) = 1 then Inl ValueError else Inr [b, out])
      else Inl RuntimeError)"
proof -
  note doc = documented [OF assms(1)]
  from assms(2) have hs: "hs \<noteq> []" and layers: "layers = (i, hd hs) # hidden_layers hs @ [(last hs, out)]"
    by (auto simp: large_layers_def split: if_splits)
  have chain: "res_foldl (\<lambda>x (i, out). LinearLayer S i out x) [b, n] (butlast layers) =
      (if n = i then Inr [b, last hs] else Inl RuntimeError)"
    using linear_chain [OF assms(1) hs] by (simp add: layers butlast_append)
  have view1: "view S [Some b, Some 64, None] [b, m] =
      (if 0 < b \<and> 64 dvd m then Inr [b, 64, m div 64] else Inl RuntimeError)" for b m
    by (auto simp: doc(6) viewed_def)
  have view2: "view S [Some b, None] [b, 64, m] = (if 0 < b then Inr [b, 64 * m] else Inl RuntimeError)" for b m
    by (auto simp: doc(6) viewed_def)
  show ?thesis
    unfolding large_forward_def chain
    by (auto simp: view1 view2 conv_chain [OF assms(1), unfolded One_nat_def] doc(4,5,8) layers Let_def)
qed

definition sample_sizes :: "nat list" where
  "sample_sizes = [2048, 1024, 2048, 512]"

lemma sample_layers:
  "large_layers 1000 sample_sizes 100 = Inr [(1000, 2048), (2048, 1024), (1024, 2048), (2048, 512), (512, 100)]"
  by (simp add: large_layers_def sample_sizes_def)

lemma sample_parameters:
  "count_parameters [(1000, 2048), (2048, 1024), (1024, 2048), (2048, 512), (512, 100)] = 7409636"
  by (simp add: count_parameters_def large_convs_def)

end
