(* ===== verification/Worker_Training.thy ===== *)
theory Worker_Training
  imports Training_Checkpoints Data_Loader Net_Shapes
begin

text \<open>
  The training programs that are started as workers of a PyTorch job and read their rank from the
  environment: \<open>workspace/compute/train.py\<close> with its start \<open>workspace/compute/main.py\<close>,
  \<open>workspace/train_single.py\<close>, and the load test \<open>workspace/train_sample.py\<close>.  They share the loop's
  second half with \<open>compute-engine/user_code/train.py\<close> (theory \<open>Training\<close>).  Creating the output
  directory is left out.
\<close>

section \<open>Setup from the environment\<close>

text \<open>\<open>setup_distributed\<close> of \<open>compute/train.py\<close>; \<open>train_single.py\<close> has the same text.\<close>

definition compute_setup :: "('w, 'b, 'c) torch_ops \<Rightarrow> environ \<Rightarrow> ('w, bool \<times> int \<times> int \<times> bool) py" where
  "compute_setup E env =
     (if \<not> dict_has env ''RANK'' then py_return (False, 0, 1, True)
      else py_seq (init_group E)
          (py_bind (py_lift (environ_int env ''RANK'')) (\<lambda>rank.
           py_bind (py_lift (environ_int env ''LOCAL_RANK'')) (\<lambda>local_rank.
           py_bind (py_lift (environ_int env ''WORLD_SIZE'')) (\<lambda>world_size.
           let is_master = (rank = 0) in
             py_seq (py_modify (manual_seed E (1337 + rank)))
                    (py_return (True, rank, world_size, is_master)))))))"

definition single_setup :: "('w, 'b, 'c) torch_ops \<Rightarrow> environ \<Rightarrow> ('w, bool \<times> int \<times> int \<times> bool) py" where
  "single_setup = compute_setup"

text \<open>
  The world of a worker carries the cache of \<open>get_batch\<close>.  A negative batch size is refused like an empty
  batch, with the same exception.
\<close>

definition worker_data_dir :: string where
  "worker_data_dir = path_join ''data'' ''shakespeare''"

definition worker_batch ::
  "tensor_lib \<Rightarrow> (string \<Rightarrow> 16 word list result) \<Rightarrow> string \<Rightarrow> int
     \<Rightarrow> ('v \<times> data_cache, 64 word list list \<times> 64 word list list) py" where
  "worker_batch L load split n = (\<lambda>(v, c).
     case get_batch L load worker_data_dir split (nat n) 64 c of (r, c') \<Rightarrow> (r, (v, c')))"

text \<open>
  A run: what comes before the loop yields whether there is a process group and the loop's settings.
\<close>

definition run_program ::
  "('w, 'b, 'c) torch_ops \<Rightarrow> (('w, 'c) run, bool \<times> 'x) py \<Rightarrow> ('x \<Rightarrow> (('w, 'c) run, bool) py)
     \<Rightarrow> ('w, 'c) run \<Rightarrow> (unit outcome \<times> ('w, 'c) run) option" where
  "run_program E prelude body s =
     (case prelude s of
        (Return (is_distributed, x), s') \<Rightarrow>
          (case train_loop (body x) s' of
             Some (Return u, t) \<Rightarrow>
               Some (Return (), if is_distributed then t\<lparr>world := destroy_group E (world t)\<rparr> else t)
           | r \<Rightarrow> r)
      | (Raise e, s') \<Rightarrow> Some (Raise e, s')
      | (Blocked, s') \<Rightarrow> Some (Blocked, s'))"

section \<open>The compute worker\<close>

definition compute_prelude ::
  "('w, 'b, 'c) torch_ops \<Rightarrow> environ \<Rightarrow> int option \<Rightarrow> (('w, 'c) run, bool \<times> bool \<times> int \<times> int) py" where
  "compute_prelude E env meta_vocab =
     py_bind (in_world (compute_setup E env)) (\<lambda>(is_distributed, rank, world_size, is_master).
     py_bind (py_lift (local_sizes is_distributed world_size)) (\<lambda>(batch_size, grad_accum).
     py_seq (do_world (build_model E (vocab_size_of meta_vocab) is_distributed))
    (py_seq (py_modify (\<lambda>s. s\<lparr>iter_num := 0, best_val_loss := PInf\<rparr>))
            (py_return (is_distributed, is_master, batch_size, grad_accum)))))"

definition compute_train ::
  "('w, 'b, 'c) torch_ops \<Rightarrow> environ \<Rightarrow> int option \<Rightarrow> ('w, 'c) run \<Rightarrow> (unit outcome \<times> ('w, 'c) run) option" where
  "compute_train E env meta_vocab =
     run_program E (compute_prelude E env meta_vocab)
       (\<lambda>(is_master, batch_size, grad_accum). compute_loop_body E is_master batch_size grad_accum)"

text \<open>\<open>main.py\<close> joins the process group and then calls \<open>train\<close>.\<close>

definition compute_main ::
  "('w, 'b, 'c) torch_ops \<Rightarrow> environ \<Rightarrow> int option \<Rightarrow> ('w, 'c) run \<Rightarrow> (unit outcome \<times> ('w, 'c) run) option" where
  "compute_main E env meta_vocab s =
     (case in_world (init_group E) s of
        (Return u, s') \<Rightarrow> compute_train E env meta_vocab s'
      | (Raise e, s') \<Rightarrow> Some (Raise e, s')
      | (Blocked, s') \<Rightarrow> Some (Blocked, s'))"

section \<open>The single trainer\<close>

definition single_batch_size :: int where "single_batch_size = 32"
definition single_grad_clip :: rat where "single_grad_clip = 1"

text \<open>The first half of its loop does not look at the gradients.\<close>

definition single_gradient_half ::
  "('w, 'b, 'c) torch_ops \<Rightarrow> int \<Rightarrow> (('w, 'c) run, pyfloat \<times> real) py" where
  "single_gradient_half E local_batch_size =
     py_bind (py_get iter_num) (\<lambda>it.
     let lr = single_get_lr it in
     py_seq (do_world (set_lr E lr))
    (py_bind (in_world (load_batch E ''train'' local_batch_size)) (\<lambda>b.
     py_bind (in_world (forward E b)) (\<lambda>loss.
     py_seq (do_world (backward E 1))
    (py_seq (if single_grad_clip \<noteq> 0 then do_world (clip_grads E) else py_return ())
            (py_return (loss, lr)))))))"

definition single_loop_body :: "('w, 'b, 'c) torch_ops \<Rightarrow> bool \<Rightarrow> int \<Rightarrow> (('w, 'c) run, bool) py" where
  "single_loop_body E is_master local_batch_size =
     py_bind (single_gradient_half E local_batch_size) (\<lambda>(loss, lr).
       update_half E (py_return ()) is_master local_batch_size loss lr)"

definition single_prelude ::
  "('w, 'b, 'c) torch_ops \<Rightarrow> environ \<Rightarrow> int option \<Rightarrow> (('w, 'c) run, bool \<times> bool \<times> int) py" where
  "single_prelude E env meta_vocab =
     py_bind (in_world (single_setup E env)) (\<lambda>(is_distributed, rank, world_size, is_master).
     py_bind (py_lift (floor_div single_batch_size world_size)) (\<lambda>local_batch_size.
     py_seq (do_world (build_model E (vocab_size_of meta_vocab) is_distributed))
    (py_seq (py_modify (\<lambda>s. s\<lparr>iter_num := 0, best_val_loss := PInf\<rparr>))
            (py_return (is_distributed, is_master, local_batch_size)))))"

definition single_train ::
  "('w, 'b, 'c) torch_ops \<Rightarrow> environ \<Rightarrow> int option \<Rightarrow> ('w, 'c) run \<Rightarrow> (unit outcome \<times> ('w, 'c) run) option" where
  "single_train E env meta_vocab =
     run_program E (single_prelude E env meta_vocab)
       (\<lambda>(is_master, local_batch_size). single_loop_body E is_master local_batch_size)"

section \<open>The load test\<close>

record sample_run =
  steps :: nat
  sample_log :: "(nat \<times> nat) list"

text \<open>
  \<open>setup_distributed\<close>: the exceptions of the \<open>try\<close> block are printed and raised again; \<open>barrier\<close>
  waits for the other processes.
\<close>

definition sample_setup ::
  "('w, unit) py \<Rightarrow> ('w, unit) py \<Rightarrow> environ \<Rightarrow> ('w, bool \<times> int \<times> int \<times> bool) py" where
  "sample_setup init_process_group barrier env =
     (if \<not> dict_has env ''RANK'' then py_return (False, 0, 1, True)
      else py_bind (py_lift (environ_index env ''MASTER_ADDR'')) (\<lambda>addr.
           py_bind (py_lift (environ_index env ''MASTER_PORT'')) (\<lambda>port.
           py_bind (py_lift (environ_int env ''WORLD_SIZE'')) (\<lambda>size.
           py_bind (py_lift (environ_int env ''RANK'')) (\<lambda>number.
           py_seq init_process_group
          (py_seq barrier
          (py_bind (py_lift (environ_int env ''RANK'')) (\<lambda>rank.
           py_bind (py_lift (environ_int env ''LOCAL_RANK'')) (\<lambda>local_rank.
           py_bind (py_lift (environ_int env ''WORLD_SIZE'')) (\<lambda>world_size.
           let is_master = (rank = 0) in
             py_return (True, rank, world_size, is_master)))))))))))"

text \<open>\<open>generate_batch\<close>, by its shapes.\<close>

definition generate_batch :: "shape_lib \<Rightarrow> int \<Rightarrow> nat \<Rightarrow> nat \<Rightarrow> (tshape \<times> tshape) result" where
  "generate_batch S batch_size input_size output_size =
     res_bind (randn S batch_size input_size) (\<lambda>x.
     res_bind (randn S batch_size output_size) (\<lambda>y. Inr (x, y)))"

definition sample_iteration ::
  "shape_lib \<Rightarrow> (nat \<times> nat) list \<Rightarrow> int \<Rightarrow> bool \<Rightarrow> nat \<Rightarrow> nat \<Rightarrow> (sample_run, unit) py" where
  "sample_iteration S layers batch_size is_master epoch iter =
     py_bind (py_lift (generate_batch S batch_size 1000 100)) (\<lambda>(x, y).
     py_bind (py_lift (large_forward S layers x)) (\<lambda>out.
     py_seq (py_modify (\<lambda>s. s\<lparr>steps := steps s + 1\<rparr>))
            (if is_master \<and> iter mod 10 = 0
             then py_modify (\<lambda>s. s\<lparr>sample_log := sample_log s @ [(epoch, iter)]\<rparr>)
             else py_return ())))"

primrec for_each :: "('a \<Rightarrow> ('s, unit) py) \<Rightarrow> 'a list \<Rightarrow> ('s, unit) py" where
  "for_each f [] = py_return ()"
| "for_each f (x # xs) = py_seq (f x) (for_each f xs)"

text \<open>\<open>train()\<close> after the setup; a step of the optimizer counts as one.\<close>

definition sample_train :: "shape_lib \<Rightarrow> int \<Rightarrow> bool \<Rightarrow> (sample_run, unit) py" where
  "sample_train S world_size is_master =
     py_bind (py_lift (floor_div 32 world_size)) (\<lambda>batch_size.
     py_bind (py_lift (large_layers 1000 sample_sizes 100)) (\<lambda>layers.
       for_each (\<lambda>epoch. for_each (sample_iteration S layers batch_size is_master epoch) [0..<100]) [0..<10]))"

section \<open>The load test runs or fails at once\<close>

definition sample_layer_sizes :: "(nat \<times> nat) list" where
  "sample_layer_sizes = [(1000, 2048), (2048, 1024), (1024, 2048), (2048, 512), (512, 100)]"

lemma for_each_counts:
  assumes "\<And>x s. x \<in> set xs \<Longrightarrow> f x s = (Return (), s\<lparr>steps := steps s + n, sample_log := sample_log s @ g x\<rparr>)"
  shows "for_each f xs s = (Return (), s\<lparr>steps := steps s + n * length xs, sample_log := sample_log s @ concat (map g xs)\<rparr>)"
  using assms
proof (induction xs arbitrary: s)
  case (Cons x xs)
  then show ?case by (simp add: py_simps algebra_simps)
qed (simp add: py_simps)

lemma for_each_raises:
  "f x s = (Raise e, s) \<Longrightarrow> for_each f (x # xs) s = (Raise e, s)"
  by (simp add: py_simps)

lemma sample_iteration_runs:
  assumes "shapes_documented S"
  shows "sample_iteration S sample_layer_sizes b m epoch iter s =
     (if b \<le> 0 then (Raise RuntimeError, s)
      else (Return (), s\<lparr>steps := steps s + 1,
             sample_log := sample_log s @ (if m \<and> iter mod 10 = 0 then [(epoch, iter)] else [])\<rparr>))"
proof -
  have layers: "large_layers 1000 sample_sizes 100 = Inr sample_layer_sizes"
    by (simp add: sample_layers sample_layer_sizes_def)
  have last: "last sample_sizes = 512" by (simp add: sample_sizes_def)
  show ?thesis
    by (auto simp: sample_iteration_def generate_batch_def documented(9) [OF assms]
        large_model_shapes [OF assms layers] last py_simps)
qed

section \<open>Properties\<close>

text \<open>What the load test does depends on the size of the world only: with none it raises
  ZeroDivisionError, with a negative size or more than 32 processes the batch is empty and the first
  forward pass raises RuntimeError before any update, and otherwise it makes 1000 updates and the master
  reports every tenth of an epoch.\<close>

theorem sample_train_outcome:
  assumes "shapes_documented S"
  shows "sample_train S world_size m \<lparr>steps = 0, sample_log = []\<rparr> =
     (if world_size = 0 then (Raise ZeroDivisionError, \<lparr>steps = 0, sample_log = []\<rparr>)
      else if world_size < 0 \<or> 32 < world_size then (Raise RuntimeError, \<lparr>steps = 0, sample_log = []\<rparr>)
      else (Return (), \<lparr>steps = 1000,
         sample_log = (if m then List.product [0..<10] [0, 10, 20, 30, 40, 50, 60, 70, 80, 90] else [])\<rparr>))"
proof (cases "world_size = 0")
  case True
  then show ?thesis by (simp add: sample_train_def floor_div_def py_simps)
next
  case False
  let ?b = "32 div world_size"
  have start: "sample_train S world_size m = for_each (\<lambda>epoch.
      for_each (sample_iteration S sample_layer_sizes ?b m epoch) [0..<100]) [0..<10]"
    using False by (simp add: sample_train_def floor_div_def sample_layers sample_layer_sizes_def py_simps fun_eq_iff)
  note step = sample_iteration_runs [OF assms]
  have sizes: "?b \<le> 0 \<longleftrightarrow> world_size < 0 \<or> 32 < world_size"
  proof (cases "0 < world_size")
    case True
    then have "0 < ?b \<longleftrightarrow> world_size \<le> 32" by (simp add: pos_imp_zdiv_pos_iff)
    with True show ?thesis by auto
  next
    case neg: False
    with False have "world_size < 0" by simp
    then show ?thesis using div_pos_neg_trivial neg_imp_zdiv_nonneg_iff [of world_size 32] by force
  qed
  show ?thesis
  proof (cases "?b \<le> 0")
    case True
    have upt: "[0..<100] = 0 # [1..<100]" "[0..<10] = 0 # [1..<10]" by (simp_all add: upt_rec)
    show ?thesis
      unfolding start upt using step True sizes False
      by (simp only: if_True if_False for_each_raises simp_thms)
  next
    case pos: False
    let ?mark = "\<lambda>epoch i. if m \<and> i mod 10 = 0 then [(epoch, i)] else []"
    have inner: "for_each (sample_iteration S sample_layer_sizes ?b m epoch) [0..<100] s =
        (Return (), s\<lparr>steps := steps s + 100, sample_log := sample_log s @ concat (map (?mark epoch) [0..<100])\<rparr>)"
      for epoch s
      using for_each_counts [of "[0..<100]" "sample_iteration S sample_layer_sizes ?b m epoch" "?mark epoch" 1 s] step pos
      by simp
    have marks: "concat (map (?mark epoch) [0..<100]) = (if m then map (Pair epoch) [0, 10, 20, 30, 40, 50, 60, 70, 80, 90] else [])"
      for epoch :: nat
      by (simp add: upt_rec)
    have "for_each (\<lambda>epoch. for_each (sample_iteration S sample_layer_sizes ?b m epoch) [0..<100]) [0..<10]
        \<lparr>steps = 0, sample_log = []\<rparr> =
      (Return (), \<lparr>steps = 1000, sample_log = concat (map (\<lambda>epoch. if m then map (Pair epoch) [0, 10, 20, 30, 40, 50, 60, 70, 80, 90] else []) [0..<10])\<rparr>)"
      using for_each_counts [of "[0..<10]" "\<lambda>epoch. for_each (sample_iteration S sample_layer_sizes ?b m epoch) [0..<100]"
          "\<lambda>epoch. if m then map (Pair epoch) [0, 10, 20, 30, 40, 50, 60, 70, 80, 90] else []" 100 "\<lparr>steps = 0, sample_log = []\<rparr>"]
        inner marks by simp
    with pos sizes False show ?thesis
      by (simp add: start product_concat_map)
  qed
qed

theorem sample_train_outcome_witness:
  "snd (sample_train sample_shapes 4 True \<lparr>steps = 0, sample_log = []\<rparr>) =
     \<lparr>steps = 1000, sample_log = List.product [0..<10] [0, 10, 20, 30, 40, 50, 60, 70, 80, 90]\<rparr> \<and>
   fst (sample_train sample_shapes 64 True \<lparr>steps = 0, sample_log = []\<rparr>) = Raise RuntimeError"
  using sample_train_outcome [OF sample_shapes_documented, of 4 True]
    sample_train_outcome [OF sample_shapes_documented, of 64 True] by simp

section \<open>The single trainer ends\<close>

lemma single_half_progress:
  "wp (single_gradient_half E bs) (\<lambda>_. same_progress s) (same_progress s) s"
  by (auto simp: single_gradient_half_def py_wp Let_def same_progress_def intro!: wp_in_world_any)

lemma single_half_fine:
  assumes h: "operational E ok bs 1" and s: "fine ok i s"
  shows "wp (single_gradient_half E bs) (\<lambda>_. fine ok i) (\<lambda>_. False) s"
  unfolding single_gradient_half_def py_wp Let_def
  by (rule wp_mono [OF calls_fine(1) [OF h ops_fine(1) [OF h s]]],
      rule wp_mono [OF calls_fine(2) [OF h]], assumption)
     (use h in \<open>simp_all add: fine_def operational_def py_wp\<close>)

lemma single_body_counts:
  fixes s :: "('w, 'c) run"
  assumes h: "operational E ok bs 1" and s: "fine ok i s" "ckpt_running f0 m s"
  shows "wp (single_loop_body E m bs) (\<lambda>go_on t.
      (ckpt_safe f0 m t \<and> trace_inv m t \<and> (go_on \<longrightarrow> ckpt_running f0 m t)) \<and>
      fine ok (i + 1) t \<and> (go_on \<longleftrightarrow> i + 1 \<le> max_iters)) (\<lambda>t. False) s"
  unfolding single_loop_body_def wp_bind
proof (rule wp_mono [OF wp_conj [OF single_half_fine [OF h s(1)] single_half_progress]])
  fix r :: "pyfloat \<times> real" and t :: "('w, 'c) run"
  assume "fine ok i t \<and> same_progress s t"
  then have t: "fine ok i t" "ckpt_running f0 m t" using s(2) running_frame [of s t f0 m] by simp_all
  have hook: "wp (py_return ()) (\<lambda>_. fine ok j) (\<lambda>_. False) u" if "fine ok j u" for j and u :: "('w, 'c) run"
    using that by (simp add: py_wp)
  obtain loss lr where r: "r = (loss, lr)" by force
  from wp_conj [OF quiet.update_half_safe [OF t(2)] update_half_fine [OF h t(1) hook]]
  show "wp (case r of (loss, lr) \<Rightarrow> update_half E (py_return ()) m bs loss lr) (\<lambda>go_on t.
      (ckpt_safe f0 m t \<and> trace_inv m t \<and> (go_on \<longrightarrow> ckpt_running f0 m t)) \<and>
      fine ok (i + 1) t \<and> (go_on \<longleftrightarrow> i + 1 \<le> max_iters)) (\<lambda>t. False) t"
    by (simp add: r)
qed simp

lemma single_prelude_locals:
  assumes "single_prelude E env vocab s = (Return p, s1)"
  shows "iter_num s1 = 0 \<and> best_val_loss s1 = PInf \<and> printed s1 = printed s \<and> ckpt_file s1 = ckpt_file s"
proof -
  have "wp (single_prelude E env vocab) (\<lambda>_ t. iter_num t = 0 \<and> best_val_loss t = PInf \<and>
      printed t = printed s \<and> ckpt_file t = ckpt_file s) (\<lambda>_. True) s"
    unfolding single_prelude_def py_wp
    by (rule wp_in_world_any) (auto simp: py_wp split: prod.splits sum.splits)
  with assms show ?thesis by (simp add: wp_def)
qed

text \<open>C26: Whatever the gradients are, \<open>train_single.py\<close> ends: when the operations return, \<open>train()\<close> returns
  after iteration \<open>max_iters\<close>, the master having evaluated exactly at the multiples of the interval, and
  the file then holds the best loss evaluated after iteration zero unless none was below those before.\<close>

theorem single_training_ends:
  assumes "single_prelude E env vocab s = (Return (d, m, bs), s1)" "printed s = []"
    and "operational E ok bs 1" "ok (world s1)"
  shows "\<exists>t. single_train E env vocab s = Some (Return (), t) \<and> iter_num t = max_iters + 1 \<and>
     map fst (val_logs (printed t)) =
       (if m then filter (\<lambda>i. i mod eval_interval = 0) [0..max_iters] else []) \<and>
     (\<forall>(it, v) \<in> set (val_logs (printed t)). \<not> pf_less v (best_val_loss t)) \<and>
     (ckpt_file t = ckpt_file s \<and> (best_val_loss t = PInf \<or> (0, best_val_loss t) \<in> set (val_logs (printed t))) \<or>
      (\<exists>c. ckpt_file t = Some (Whole c) \<and> 0 < ck_iter c \<and> ck_best c = best_val_loss t))"
proof -
  note locals = single_prelude_locals [OF assms(1)]
  have "fine ok 0 s1" using assms(4) locals by (simp add: fine_def)
  moreover have "ckpt_running (ckpt_file s1) m s1"
    using locals assms(2) by (simp add: ckpt_running_def inv_defs max_iters_def)
  ultimately obtain t where t: "train_loop (single_loop_body E m bs) s1 = Some (Return (), t)"
      "fine ok (max_iters + 1) t" "trace_inv m t" "ckpt_safe (ckpt_file s1) m t"
    using counting_loop_ends [OF single_body_counts [OF assms(3)]] by blast
  let ?t = "if d then t\<lparr>world := destroy_group E (world t)\<rparr> else t"
  have "single_train E env vocab s = Some (Return (), ?t)"
    using assms(1) t(1) by (simp add: single_train_def run_program_def)
  with t locals show ?thesis
    by (intro exI [of _ ?t]) (auto simp: fine_def trace_inv_def ckpt_safe_def best_inv_def file_inv_def)
qed

definition toy_env :: environ where
  "toy_env = [(''RANK'', ''0''), (''LOCAL_RANK'', ''0''), (''WORLD_SIZE'', ''4'')]"

lemma digit_ints: "int_of_str ''0'' = Some 0" "int_of_str ''4'' = Some 4" "int_of_str ''64'' = Some 64"
  by code_simp+

lemma toy_single_prelude: "single_prelude (toy_ops nan) toy_env None toy_start =
    (Return (True, True, 8), \<lparr>world = 0, iter_num = 0, best_val_loss = PInf, start_time = NaN,
      ckpt_file = None, printed = []\<rparr>)"
  by (simp add: single_prelude_def single_setup_def compute_setup_def toy_ops_def toy_start_def toy_env_def py_simps
      environ_int_def environ_index_def digit_ints floor_div_def single_batch_size_def
      in_world_def do_world_def dict_has_def)

theorem single_training_ends_witness:
  "\<exists>t. single_train (toy_ops True) toy_env None toy_start = Some (Return (), t) \<and> iter_num t = 1001"
proof -
  have "operational (toy_ops True) (\<lambda>_. True) 8 1"
    by (simp add: operational_def toy_ops_def py_wp)
  from single_training_ends [OF toy_single_prelude _ this] show ?thesis
    by (fastforce simp: toy_start_def max_iters_def)
qed

section \<open>Runs that fail\<close>

lemma train_loop_raised: "body s = (Raise e, t) \<Longrightarrow> train_loop body s = Some (Raise e, t)"
  by (subst train_loop.simps) simp

lemma empty_batch_refused:
  assumes "tensor_documented L"
    and "load (path_join worker_data_dir (split @ ''.bin'')) = Inr data" "n \<le> 0"
  shows "\<exists>w'. worker_batch L load split n w = (Raise RuntimeError, w')"
proof -
  obtain v c where w: "w = (v, c)" by force
  let ?k = "path_join worker_data_dir (split @ ''.bin'')"
  have draw: "randint L (int (length d) - 64) 0 = Inl RuntimeError \<or> randint L (int (length d) - 64) 0 = Inr []" for d :: "16 word list"
    using assms(1) by (cases "0 < int (length d) - 64") (force simp: tensor_documented_def)+
  have stack: "stack_rows L [] = Inl RuntimeError" using assms(1) by (simp add: tensor_documented_def)
  have "\<exists>c'. get_batch L load worker_data_dir split 0 64 c = (Raise RuntimeError, c')"
  proof (cases "cache_lookup (if c = None then Some [] else c) ?k")
    case None
    with assms(2) draw [of data] stack show ?thesis
      by (auto simp: get_batch_def cached_data_def py_simps)
  next
    case (Some d)
    with draw [of d] stack show ?thesis
      by (auto simp: get_batch_def cached_data_def py_simps)
  qed
  then show ?thesis using assms(3) by (auto simp: worker_batch_def w)
qed

text \<open>The single trainer divides its batch of 32 without a lower limit: in a world of more than 32
  processes (or of a negative size) every process raises RuntimeError on its first batch, though the data
  is there, before any update, evaluation or checkpoint; in a world of none it raises ZeroDivisionError
  before the loop.\<close>

theorem single_oversized_world:
  assumes "load_batch E = worker_batch L load" "tensor_documented L"
    and "load (path_join worker_data_dir ''train.bin'') = Inr data"
    and "single_setup E env (world s) = (Return (d, rank, world_size, m), w)"
    and "world_size \<le> 0 \<or> 32 < world_size"
  shows "\<exists>t. single_train E env vocab s =
       Some (Raise (if world_size = 0 then ZeroDivisionError else RuntimeError), t) \<and>
     printed t = printed s \<and> ckpt_file t = ckpt_file s \<and> (world_size \<noteq> 0 \<longrightarrow> iter_num t = 0)"
proof (cases "world_size = 0")
  case True
  with assms(4) show ?thesis
    by (simp add: single_train_def run_program_def single_prelude_def floor_div_def in_world_def py_simps)
next
  case False
  let ?b = "32 div world_size"
  have "?b \<le> 0"
  proof (cases "0 < world_size")
    case True
    with assms(5) show ?thesis by simp
  next
    case neg: False
    with False show ?thesis using neg_imp_zdiv_nonneg_iff [of world_size 32] by force
  qed
  have size: "floor_div single_batch_size world_size = Inr ?b"
    using False by (simp add: floor_div_def single_batch_size_def)
  obtain s1 where s1: "single_prelude E env vocab s = (Return (d, m, ?b), s1)"
    using assms(4) size by (simp add: single_prelude_def in_world_def do_world_def py_simps)
  note locals = single_prelude_locals [OF s1]
  have "\<exists>t. single_loop_body E m ?b s1 = (Raise RuntimeError, t) \<and> printed t = printed s1 \<and>
      ckpt_file t = ckpt_file s1 \<and> iter_num t = iter_num s1"
  proof -
    obtain w' where "load_batch E ''train'' ?b (set_lr E (single_get_lr (iter_num s1)) (world s1)) = (Raise RuntimeError, w')"
      using empty_batch_refused [OF assms(2), of load "''train''" data ?b, where
          w = "set_lr E (single_get_lr (iter_num s1)) (world s1)"] assms(1,3) \<open>?b \<le> 0\<close> by auto
    then show ?thesis
      by (simp add: single_loop_body_def single_gradient_half_def in_world_def do_world_def py_simps Let_def)
  qed
  then obtain t where "single_loop_body E m ?b s1 = (Raise RuntimeError, t)" "printed t = printed s1"
    "ckpt_file t = ckpt_file s1" "iter_num t = iter_num s1" by blast
  with s1 locals False show ?thesis
    by (simp add: single_train_def run_program_def train_loop_raised)
qed

definition cached_ops :: "(int \<times> data_cache, 64 word list list \<times> 64 word list list, int) torch_ops" where
  "cached_ops = \<lparr>init_group = py_return (), destroy_group = id, manual_seed = (\<lambda>_. id),
     build_model = (\<lambda>_ _. id), set_lr = (\<lambda>_. id), load_batch = worker_batch sample_lib (\<lambda>_. Inr [1, 2]),
     forward = (\<lambda>_. py_return (Fin 0)), backward = (\<lambda>_. id), clip_grads = id,
     grad_nans = (\<lambda>_. []), opt_step = id, zero_grad = id, eval_mode = id,
     train_mode = id, state_dicts = fst, open_file = py_return (), write_file = py_return (), clock = py_return (Fin 0)\<rparr>"

theorem single_oversized_world_witness:
  "\<exists>t. single_train cached_ops [(''RANK'', ''0''), (''LOCAL_RANK'', ''0''), (''WORLD_SIZE'', ''64'')] None
       \<lparr>world = (0, None), iter_num = 7, best_val_loss = NaN, start_time = NaN, ckpt_file = None, printed = []\<rparr> =
     Some (Raise RuntimeError, t) \<and> ckpt_file t = None"
proof -
  let ?s = "\<lparr>world = (0, None), iter_num = 7, best_val_loss = NaN, start_time = NaN, ckpt_file = None, printed = []\<rparr>
    :: (int \<times> data_cache, int) run"
  have loader: "load_batch cached_ops = worker_batch sample_lib (\<lambda>_. Inr [1, 2])" by (simp add: cached_ops_def)
  have joined: "single_setup cached_ops [(''RANK'', ''0''), (''LOCAL_RANK'', ''0''), (''WORLD_SIZE'', ''64'')] (world ?s)
      = (Return (True, 0, 64, True), (0, None))"
    by (simp add: single_setup_def compute_setup_def cached_ops_def environ_int_def
        environ_index_def digit_ints dict_has_def py_simps)
  from single_oversized_world [OF loader sample_lib_documented refl joined, of None] show ?thesis by auto
qed

text \<open>
  A process group: a process that is in one cannot join again, joining puts it in one, and without a
  rank in the environment it fails.
\<close>

definition group_documented :: "('w, 'b, 'c) torch_ops \<Rightarrow> environ \<Rightarrow> ('w \<Rightarrow> bool) \<Rightarrow> bool" where
  "group_documented E env grouped \<longleftrightarrow>
     (\<forall>w. grouped w \<longrightarrow> (\<exists>e w'. init_group E w = (Raise e, w'))) \<and>
     (\<forall>w w'. init_group E w = (Return (), w') \<longrightarrow> dict_has env ''RANK'' \<and> grouped w')"

text \<open>C19: \<open>compute/main.py\<close> never trains: it joins the process group itself, so the setup of \<open>train()\<close>, which
  joins when there is a rank, raises; without a rank its own call fails.  No run of it returns, prints,
  starts the loop or writes a checkpoint.\<close>

theorem compute_main_never_trains:
  assumes "group_documented E env grouped"
  shows "\<exists>r t. compute_main E env vocab s = Some (r, t) \<and> r \<noteq> Return () \<and>
     printed t = printed s \<and> ckpt_file t = ckpt_file s \<and> iter_num t = iter_num s"
proof (cases "init_group E (world s)")
  case (Pair r w)
  show ?thesis
  proof (cases r)
    case (Return u)
    with assms Pair have w: "dict_has env ''RANK''" "grouped w" by (auto simp: group_documented_def)
    with assms obtain e w' where "init_group E w = (Raise e, w')" by (auto simp: group_documented_def)
    with Pair Return w(1) show ?thesis
      by (simp add: compute_main_def compute_train_def run_program_def compute_prelude_def compute_setup_def
          in_world_def py_simps)
  qed (use Pair in \<open>simp_all add: compute_main_def in_world_def\<close>)
qed

theorem compute_main_never_trains_witness:
  "\<exists>r t. compute_main ((toy_ops False)\<lparr>init_group := (\<lambda>w. if w = 0 then (Return (), 1) else (Raise ValueError, w))\<rparr>)
     toy_env None toy_start = Some (r, t) \<and> r \<noteq> Return () \<and> ckpt_file t = None"
proof -
  have "group_documented ((toy_ops False)\<lparr>init_group := (\<lambda>w. if w = 0 then (Return (), 1) else (Raise ValueError, w))\<rparr>)
      toy_env (\<lambda>w. w \<noteq> 0)"
    by (auto simp: group_documented_def toy_env_def dict_has_def split: if_splits)
  from compute_main_never_trains [OF this, of None toy_start] show ?thesis
    by (auto simp: toy_start_def)
qed

end
