(* ===== verification/Image_Training.thy ===== *)
theory Image_Training
  imports C4D_Prelude "HOL-Library.Multiset"
begin

text \<open>
  The training and evaluation loops of the sample image classifiers: \<open>train\<close>, \<open>test\<close> and the epochs of
  \<open>main\<close> in \<open>compute-engine/user_code/mnist.py\<close>, and \<open>train\<close> and the epochs of \<open>main\<close> in
  \<open>workspace/test_deployment/train.py\<close>.  The network, the loss and the optimizer are
  parameters that act on weights; a data loader is the list of its batches.
\<close>

section \<open>State and operations\<close>

text \<open>
  \<open>forward_pass\<close> gives the row of scores for each image of a batch, \<open>nll_sum\<close> the summed loss of rows and
  targets, \<open>argmax\<close> the index of the greatest score of a row, \<open>update\<close> the weights after one step of the
  optimizer on a batch with its mean loss.
\<close>

record ('w, 'x) image_ops =
  forward_pass :: "'w \<Rightarrow> 'x list \<Rightarrow> rat list list result"
  nll_sum :: "rat list list \<Rightarrow> nat list \<Rightarrow> rat result"
  argmax :: "rat list \<Rightarrow> nat"
  update :: "('x \<times> nat) list \<Rightarrow> 'w \<Rightarrow> 'w result"

datatype image_log =
    Progress nat nat nat
  | Accuracy rat rat

record 'w image_run =
  weights :: 'w
  updates :: nat
  logs :: "image_log list"

definition log_image :: "image_log \<Rightarrow> ('w image_run, unit) py" where
  "log_image m = py_modify (\<lambda>s. s\<lparr>logs := logs s @ [m]\<rparr>)"

definition optimizer_step :: "('w, 'x) image_ops \<Rightarrow> ('x \<times> nat) list \<Rightarrow> ('w image_run, unit) py" where
  "optimizer_step M batch =
     py_bind (py_get weights) (\<lambda>w.
     py_bind (py_lift (update M batch w)) (\<lambda>w'.
       py_modify (\<lambda>s. s\<lparr>weights := w', updates := updates s + 1\<rparr>)))"

section \<open>Loops\<close>

text \<open>\<open>train\<close> of \<open>mnist.py\<close>, from the batch with index \<open>i\<close> on; \<open>n_data\<close> is the size of the data set.\<close>

primrec mnist_train ::
  "('w, 'x) image_ops \<Rightarrow> int \<Rightarrow> nat \<Rightarrow> nat \<Rightarrow> nat \<Rightarrow> ('x \<times> nat) list list \<Rightarrow> ('w image_run, unit) py" where
  "mnist_train M log_interval n_data epoch i [] = py_return ()"
| "mnist_train M log_interval n_data epoch i (batch # batches) =
     py_seq (optimizer_step M batch)
    (py_seq (if log_interval = 0 then py_raise ZeroDivisionError
             else if int i mod log_interval = 0 then log_image (Progress epoch (i * length batch) n_data)
             else py_return ())
            (mnist_train M log_interval n_data epoch (i + 1) batches))"

text \<open>One batch of \<open>test\<close>: the loss and the number of hits added up.\<close>

definition test_batch :: "('w, 'x) image_ops \<Rightarrow> 'w \<Rightarrow> ('x \<times> nat) list \<Rightarrow> rat \<times> nat \<Rightarrow> (rat \<times> nat) result" where
  "test_batch M w batch acc = (case acc of (test_loss, correct) \<Rightarrow>
     res_bind (forward_pass M w (map fst batch)) (\<lambda>output.
     res_bind (nll_sum M output (map snd batch)) (\<lambda>loss.
       let pred = map (argmax M) output in
       Inr (test_loss + loss, correct + length (filter (\<lambda>(p, t). p = t) (zip pred (map snd batch)))))))"

primrec test_batches ::
  "('w, 'x) image_ops \<Rightarrow> 'w \<Rightarrow> ('x \<times> nat) list list \<Rightarrow> rat \<times> nat \<Rightarrow> (rat \<times> nat) result" where
  "test_batches M w [] acc = Inr acc"
| "test_batches M w (b # bs) acc = res_bind (test_batch M w b acc) (test_batches M w bs)"

definition mnist_test :: "('w, 'x) image_ops \<Rightarrow> nat \<Rightarrow> ('x \<times> nat) list list \<Rightarrow> ('w image_run, unit) py" where
  "mnist_test M n_data batches =
     py_bind (py_get weights) (\<lambda>w.
     py_bind (py_lift (test_batches M w batches (0, 0))) (\<lambda>(test_loss, correct).
       if n_data = 0 then py_raise ZeroDivisionError
       else log_image (Accuracy (of_nat correct / of_nat n_data) (test_loss / of_nat n_data))))"

text \<open>
  The epochs of \<open>main\<close>: \<open>shuffled epoch\<close> are the batches the shuffling loader yields in it.
\<close>

primrec mnist_epochs ::
  "('w, 'x) image_ops \<Rightarrow> int \<Rightarrow> (nat \<Rightarrow> ('x \<times> nat) list list) \<Rightarrow> nat \<Rightarrow> ('x \<times> nat) list list \<Rightarrow> nat
     \<Rightarrow> nat list \<Rightarrow> ('w image_run, unit) py" where
  "mnist_epochs M log_interval shuffled n_data tests test_total [] = py_return ()"
| "mnist_epochs M log_interval shuffled n_data tests test_total (epoch # epochs) =
     py_seq (mnist_train M log_interval n_data epoch 0 (shuffled epoch))
    (py_seq (mnist_test M test_total tests)
            (mnist_epochs M log_interval shuffled n_data tests test_total epochs))"

text \<open>\<open>args.epochs\<close> may be any integer.\<close>

definition mnist_main ::
  "('w, 'x) image_ops \<Rightarrow> int \<Rightarrow> (nat \<Rightarrow> ('x \<times> nat) list list) \<Rightarrow> nat \<Rightarrow> ('x \<times> nat) list list \<Rightarrow> nat
     \<Rightarrow> int \<Rightarrow> ('w image_run, unit) py" where
  "mnist_main M log_interval shuffled n_data tests test_total epochs =
     mnist_epochs M log_interval shuffled n_data tests test_total [1..<nat (epochs + 1)]"

text \<open>The trainer of \<open>test_deployment\<close> logs every tenth batch of its two epochs.\<close>

definition deployment_train ::
  "('w, 'x) image_ops \<Rightarrow> nat \<Rightarrow> nat \<Rightarrow> ('x \<times> nat) list list \<Rightarrow> ('w image_run, unit) py" where
  "deployment_train M n_data epoch = mnist_train M 10 n_data epoch 0"

definition deployment_epochs ::
  "('w, 'x) image_ops \<Rightarrow> nat \<Rightarrow> (nat \<Rightarrow> ('x \<times> nat) list list) \<Rightarrow> ('w image_run, unit) py" where
  "deployment_epochs M n_data sampled =
     py_seq (deployment_train M n_data 1 (sampled 1)) (deployment_train M n_data 2 (sampled 2))"

section \<open>Documented behaviour\<close>

text \<open>
  In evaluation the network treats each image on its own and the summed loss is a sum over the rows.
\<close>

definition rowwise :: "('w, 'x) image_ops \<Rightarrow> 'w \<Rightarrow> ('x \<Rightarrow> rat list) \<Rightarrow> (rat list \<Rightarrow> nat \<Rightarrow> rat) \<Rightarrow> bool" where
  "rowwise M w score loss \<longleftrightarrow>
     (\<forall>xs. forward_pass M w xs = Inr (map score xs)) \<and>
     (\<forall>xs ts. length xs = length ts \<longrightarrow>
        nll_sum M (map score xs) ts = Inr (sum_list (map2 loss (map score xs) ts)))"

definition hits :: "('w, 'x) image_ops \<Rightarrow> ('x \<Rightarrow> rat list) \<Rightarrow> ('x \<times> nat) list \<Rightarrow> nat" where
  "hits M score data = length (filter (\<lambda>(x, t). argmax M (score x) = t) data)"

definition total_loss :: "('x \<Rightarrow> rat list) \<Rightarrow> (rat list \<Rightarrow> nat \<Rightarrow> rat) \<Rightarrow> ('x \<times> nat) list \<Rightarrow> rat" where
  "total_loss score loss data = sum_list (map (\<lambda>(x, t). loss (score x) t) data)"

section \<open>Evaluation\<close>

lemma test_batch_rowwise:
  assumes "rowwise M w score loss"
  shows "test_batch M w batch (l, c) = Inr (l + total_loss score loss batch, c + hits M score batch)"
proof -
  have loss: "nll_sum M (map score (map fst batch)) (map snd batch) =
      Inr (sum_list (map2 loss (map score (map fst batch)) (map snd batch)))"
    using assms by (simp only: rowwise_def length_map)
  have "sum_list (map2 loss (map score (map fst batch)) (map snd batch)) = total_loss score loss batch"
    by (induction batch) (auto simp: total_loss_def)
  moreover have "length (filter (\<lambda>(p, t). p = t) (zip (map (argmax M) (map score (map fst batch))) (map snd batch)))
      = hits M score batch"
    by (induction batch) (auto simp: hits_def)
  ultimately show ?thesis
    using assms loss by (simp add: test_batch_def rowwise_def Let_def del: map_map)
qed

lemma totals_append:
  "total_loss score loss (xs @ ys) = total_loss score loss xs + total_loss score loss ys"
  "hits M score (xs @ ys) = hits M score xs + hits M score ys"
  by (simp_all add: total_loss_def hits_def)

lemma test_batches_rowwise:
  assumes "rowwise M w score loss"
  shows "test_batches M w batches (l, c) =
    Inr (l + total_loss score loss (concat batches), c + hits M score (concat batches))"
proof (induction batches arbitrary: l c)
  case (Cons b batches)
  then show ?case by (simp add: test_batch_rowwise [OF assms] totals_append add.assoc)
qed (simp add: total_loss_def hits_def)

lemma mnist_test_rowwise:
  assumes "rowwise M (weights s) score loss" "n \<noteq> 0"
  shows "mnist_test M n batches s = (Return (), s\<lparr>logs := logs s @
    [Accuracy (of_nat (hits M score (concat batches)) / of_nat n) (total_loss score loss (concat batches) / of_nat n)]\<rparr>)"
  using assms by (simp add: mnist_test_def log_image_def test_batches_rowwise py_simps)

section \<open>Training\<close>

text \<open>The weights after the steps on a list of batches.\<close>

primrec trained :: "('w, 'x) image_ops \<Rightarrow> ('x \<times> nat) list list \<Rightarrow> 'w \<Rightarrow> 'w result" where
  "trained M [] w = Inr w"
| "trained M (b # bs) w = res_bind (update M b w) (trained M bs)"

lemma trained_append: "trained M (xs @ ys) w = res_bind (trained M xs w) (trained M ys)"
  by (induction xs arbitrary: w) (simp_all add: res_bind_def split: sum.splits)

definition progress_logs :: "int \<Rightarrow> nat \<Rightarrow> nat \<Rightarrow> nat \<Rightarrow> ('x \<times> nat) list list \<Rightarrow> image_log list" where
  "progress_logs k n_data epoch i batches =
     map (\<lambda>j. Progress epoch ((i + j) * length (batches ! j)) n_data)
       (filter (\<lambda>j. int (i + j) mod k = 0) [0..<length batches])"

lemma progress_logs_Cons:
  "progress_logs k n_data epoch i (b # bs) =
     (if int i mod k = 0 then [Progress epoch (i * length b) n_data] else []) @ progress_logs k n_data epoch (i + 1) bs"
proof -
  have "[0..<length (b # bs)] = 0 # map Suc [0..<length bs]" by (simp add: map_Suc_upt upt_conv_Cons del: upt_Suc)
  then show ?thesis by (simp add: progress_logs_def filter_map comp_def ac_simps del: upt_Suc)
qed

lemma mnist_train_runs:
  assumes "trained M batches (weights s) = Inr w" "k \<noteq> 0"
  shows "mnist_train M k n_data epoch i batches s =
    (Return (), s\<lparr>weights := w, updates := updates s + length batches,
       logs := logs s @ progress_logs k n_data epoch i batches\<rparr>)"
  using assms(1)
proof (induction batches arbitrary: s i)
  case Nil
  then show ?case by (simp add: py_simps progress_logs_def)
next
  case (Cons b bs)
  from Cons.prems obtain v where v: "update M b (weights s) = Inr v" "trained M bs v = Inr w"
    by (auto simp: res_bind_eq_Inr)
  let ?s = "s\<lparr>weights := v, updates := updates s + 1,
      logs := logs s @ (if int i mod k = 0 then [Progress epoch (i * length b) n_data] else [])\<rparr>"
  have "mnist_train M k n_data epoch i (b # bs) s = mnist_train M k n_data epoch (i + 1) bs ?s"
    using v(1) assms(2) by (simp add: optimizer_step_def log_image_def py_simps)
  also have "\<dots> = (Return (), ?s\<lparr>weights := w, updates := updates ?s + length bs,
       logs := logs ?s @ progress_logs k n_data epoch (i + 1) bs\<rparr>)"
    by (rule Cons.IH) (simp add: v(2))
  finally show ?case by (simp add: progress_logs_Cons)
qed

section \<open>Epochs\<close>

fun accuracies :: "image_log list \<Rightarrow> (rat \<times> rat) list" where
  "accuracies [] = []"
| "accuracies (Accuracy a l # ms) = (a, l) # accuracies ms"
| "accuracies (Progress e i n # ms) = accuracies ms"

lemma accuracies_append [simp]: "accuracies (ms @ ns) = accuracies ms @ accuracies ns"
  by (induction ms rule: accuracies.induct) simp_all

lemma accuracies_progress [simp]: "accuracies (progress_logs k n_data epoch i batches) = []"
proof -
  have "accuracies (map (\<lambda>j. Progress (f j) (g j) (h j)) js) = []" for f g h and js :: "nat list"
    by (induction js) simp_all
  then show ?thesis by (simp add: progress_logs_def)
qed

text \<open>What an evaluation on the whole test data says of the weights reached after each epoch.\<close>

primrec epoch_accuracies ::
  "('w, 'x) image_ops \<Rightarrow> ('w \<Rightarrow> 'x \<Rightarrow> rat list) \<Rightarrow> (rat list \<Rightarrow> nat \<Rightarrow> rat) \<Rightarrow> (nat \<Rightarrow> ('x \<times> nat) list list)
     \<Rightarrow> ('x \<times> nat) list \<Rightarrow> 'w \<Rightarrow> nat list \<Rightarrow> (rat \<times> rat) list" where
  "epoch_accuracies M score loss shuffled data w [] = []"
| "epoch_accuracies M score loss shuffled data w (e # es) =
     (let v = projr (trained M (shuffled e) w) in
      (of_nat (hits M (score v) data) / of_nat (length data), total_loss (score v) loss data / of_nat (length data)) #
      epoch_accuracies M score loss shuffled data v es)"

lemma epochs_run:
  assumes "\<And>w. rowwise M w (score w) loss" "k \<noteq> 0" "concat tests \<noteq> []"
    and "trained M (concat (map shuffled es)) (weights s) = Inr w"
  shows "\<exists>t. mnist_epochs M k shuffled n_data tests (length (concat tests)) es s = (Return (), t) \<and> weights t = w \<and>
    updates t = updates s + length (concat (map shuffled es)) \<and>
    accuracies (logs t) = accuracies (logs s) @ epoch_accuracies M score loss shuffled (concat tests) (weights s) es"
  using assms(4)
proof (induction es arbitrary: s)
  case Nil
  then show ?case by (simp add: py_simps)
next
  case (Cons e es)
  from Cons.prems obtain v where v: "trained M (shuffled e) (weights s) = Inr v"
    "trained M (concat (map shuffled es)) v = Inr w"
    by (auto simp: trained_append res_bind_eq_Inr)
  let ?n = "length (concat tests)"
  let ?s1 = "s\<lparr>weights := v, updates := updates s + length (shuffled e),
      logs := logs s @ progress_logs k n_data e 0 (shuffled e)\<rparr>"
  let ?s2 = "?s1\<lparr>logs := logs ?s1 @ [Accuracy (of_nat (hits M (score v) (concat tests)) / of_nat ?n)
      (total_loss (score v) loss (concat tests) / of_nat ?n)]\<rparr>"
  have "mnist_test M ?n tests ?s1 = (Return (), ?s2)"
    using mnist_test_rowwise [of M ?s1 "score v" loss ?n tests] assms(1,3) by simp
  then have "mnist_epochs M k shuffled n_data tests ?n (e # es) s = mnist_epochs M k shuffled n_data tests ?n es ?s2"
    using mnist_train_runs [OF v(1) assms(2), of n_data e 0] by (simp add: py_simps)
  moreover from Cons.IH [of ?s2] v(2) obtain t where
    "mnist_epochs M k shuffled n_data tests ?n es ?s2 = (Return (), t)" "weights t = w"
    "updates t = updates ?s2 + length (concat (map shuffled es))"
    "accuracies (logs t) = accuracies (logs ?s2) @ epoch_accuracies M score loss shuffled (concat tests) v es"
    by auto
  ultimately show ?case using v(1) by (simp add: Let_def)
qed

section \<open>Properties\<close>

text \<open>With operations that do not fail, \<open>main\<close> of \<open>mnist.py\<close> makes one update per training batch, in
  order, and after each epoch reports the accuracy and the mean loss of the weights reached over the
  whole test data; how the loader cuts the test data into batches does not matter.\<close>

theorem mnist_main_reports:
  assumes "\<And>w. rowwise M w (score w) loss" "log_interval \<noteq> 0" "concat tests \<noteq> []"
    and "trained M (concat (map shuffled [1..<nat (epochs + 1)])) (weights s) = Inr w"
  shows "\<exists>t. mnist_main M log_interval shuffled n_data tests (length (concat tests)) epochs s = (Return (), t) \<and>
    weights t = w \<and> updates t = updates s + length (concat (map shuffled [1..<nat (epochs + 1)])) \<and>
    accuracies (logs t) = accuracies (logs s) @
      epoch_accuracies M score loss shuffled (concat tests) (weights s) [1..<nat (epochs + 1)]"
  unfolding mnist_main_def by (rule epochs_run [OF assms(1-4)])

definition sample_images :: "(nat, nat) image_ops" where
  "sample_images = \<lparr>forward_pass = (\<lambda>w xs. Inr (map (\<lambda>x. [of_nat x, of_nat w]) xs)),
     nll_sum = (\<lambda>rows ts. Inr (sum_list (map2 (\<lambda>row t. row ! 0 - of_nat t) rows ts))),
     argmax = (\<lambda>row. if row ! 0 < row ! 1 then 1 else 0), update = (\<lambda>b w. Inr (w + length b))\<rparr>"

lemma sample_rowwise: "rowwise sample_images w (\<lambda>x. [of_nat x, of_nat w]) (\<lambda>row t. row ! 0 - of_nat t)"
  by (simp add: rowwise_def sample_images_def)

lemma sample_update: "\<exists>w'. update sample_images b w = Inr w'"
  by (simp add: sample_images_def)

theorem mnist_main_reports_witness:
  "\<exists>t. mnist_main sample_images 10 (\<lambda>_. [[(0, 0), (1, 1)], [(2, 1)]]) 3 [[(1, 1)], [(5, 1)]] 2 1
      \<lparr>weights = 0, updates = 0, logs = []\<rparr> = (Return (), t) \<and>
     updates t = 2 \<and> accuracies (logs t) = [(1 / 2, 2)]"
proof -
  note rows = sample_rowwise
  have trained: "trained sample_images (concat (map (\<lambda>_. [[(0, 0), (1, 1)], [(2, 1)]]) [1..<nat (1 + 1)]))
      (weights \<lparr>weights = 0, updates = 0, logs = []\<rparr>) = Inr 3"
    by (simp add: sample_images_def upt_rec)
  have sizes: "(10 :: int) \<noteq> 0" "concat [[(1, 1)], [(5, 1)]] \<noteq> ([] :: (nat \<times> nat) list)" by simp_all
  obtain t where t: "mnist_main sample_images 10 (\<lambda>_. [[(0, 0), (1, 1)], [(2, 1)]]) 3 [[(1, 1)], [(5, 1)]]
        (length (concat [[(1, 1)], [(5, 1)]])) 1 \<lparr>weights = 0, updates = 0, logs = []\<rparr> = (Return (), t)"
    "updates t = 0 + length (concat (map (\<lambda>_. [[(0, 0), (1, 1)], [(2, 1)]] :: (nat \<times> nat) list list) [1..<nat (1 + 1)]))"
    "accuracies (logs t) = accuracies [] @ epoch_accuracies sample_images (\<lambda>w x. [of_nat x, of_nat w])
        (\<lambda>row t. row ! 0 - of_nat t) (\<lambda>_. [[(0, 0), (1, 1)], [(2, 1)]]) (concat [[(1, 1)], [(5, 1)]]) 0 [1..<nat (1 + 1)]"
    using mnist_main_reports [OF rows sizes trained, of 3] by auto
  have epoch: "[1..<nat (1 + 1)] = [1]" by (simp add: upt_rec)
  from t(2,3) have "updates t = 2" "accuracies (logs t) = [(1 / 2, 2)]"
    unfolding epoch by (simp_all add: Let_def sample_images_def hits_def total_loss_def)
  with t(1) show ?thesis by (intro exI [of _ t]) (simp add: numeral_2_eq_2)
qed

end
