(* ===== verification/Image_Mains.thy ===== *)
theory Image_Mains
  imports Image_Training
begin

text \<open>
  The programs around the loops of \<open>Image_Training\<close>: \<open>main\<close> of \<open>compute-engine/user_code/mnist.py\<close> after
  the command line has been parsed, and \<open>main\<close> of \<open>workspace/test_deployment/train.py\<close> with
  \<open>init_distributed\<close>.  Data loaders, the sampler and the process group are PyTorch's: what they are
  documented to do is \<open>loaders_documented\<close> and \<open>sampler_documented\<close>.
\<close>

section \<open>The classifier of the compute engine\<close>

text \<open>What \<open>argparse\<close> yields, and what it yields for an empty command line.\<close>

record mnist_args =
  batch_size :: int
  test_batch_size :: int
  epochs :: int
  learning_rate :: rat
  momentum :: rat
  no_cuda :: bool
  seed :: int
  log_interval :: int
  log_path :: string
  save_model :: bool
  backend :: string

definition default_args :: mnist_args where
  "default_args = \<lparr>batch_size = 64, test_batch_size = 1000, epochs = 10, learning_rate = 1/100, momentum = 1/2,
     no_cuda = False, seed = 1, log_interval = 10, log_path = [], save_model = False, backend = ''gloo''\<rparr>"

definition mnist_world_size :: "environ \<Rightarrow> int result" where
  "mnist_world_size env = (case dict_get env ''WORLD_SIZE'' of None \<Rightarrow> Inr 1 | Some s \<Rightarrow> py_int (JStr s))"

text \<open>
  The machine and its libraries: a loader is created from a batch size and the data and yields its
  batches, a shuffling one in another order each epoch.  \<open>cpu_wrapper\<close> says whether \<open>nn.parallel\<close> has
  the class \<open>DistributedDataParallelCPU\<close>.
\<close>

record ('w, 'x) mnist_host =
  dist_available :: bool
  cuda_available :: bool
  cpu_wrapper :: bool
  join_group :: "string \<Rightarrow> unit result"
  shuffled_loader :: "int \<Rightarrow> ('x \<times> nat) list \<Rightarrow> (nat \<Rightarrow> ('x \<times> nat) list list) result"
  sequential_loader :: "int \<Rightarrow> ('x \<times> nat) list \<Rightarrow> ('x \<times> nat) list list result"
  new_net :: "int \<Rightarrow> 'w"
  network :: "rat \<Rightarrow> rat \<Rightarrow> ('w, 'x) image_ops"

record 'w mnist_process =
  image_state :: "'w image_run"
  joined :: "string option"
  parallel :: bool
  log_file :: "string option"
  model_file :: "'w option"

definition mnist_process_init :: "'w \<Rightarrow> 'w mnist_process" where
  "mnist_process_init w = \<lparr>image_state = \<lparr>weights = w, updates = 0, logs = []\<rparr>, joined = None, parallel = False,
     log_file = None, model_file = None\<rparr>"

definition should_distribute :: "('w, 'x) mnist_host \<Rightarrow> int \<Rightarrow> bool" where
  "should_distribute H world_size \<longleftrightarrow> dist_available H \<and> world_size > 1"

definition is_distributed :: "('w, 'x) mnist_host \<Rightarrow> 'w mnist_process \<Rightarrow> bool" where
  "is_distributed H s \<longleftrightarrow> dist_available H \<and> joined s \<noteq> None"

definition in_images :: "('w image_run, 'a) py \<Rightarrow> ('w mnist_process, 'a) py" where
  "in_images m s = (case m (image_state s) of (r, i) \<Rightarrow> (r, s\<lparr>image_state := i\<rparr>))"

definition wrap_model :: "('w, 'x) mnist_host \<Rightarrow> bool \<Rightarrow> ('w mnist_process, unit) py" where
  "wrap_model H use_cuda = py_bind (py_get (is_distributed H)) (\<lambda>distributed.
     if \<not> distributed then py_return ()
     else if use_cuda \<or> cpu_wrapper H then py_modify (\<lambda>s. s\<lparr>parallel := True\<rparr>)
     else py_raise (AttributeError ''DistributedDataParallelCPU''))"

definition mnist_program ::
  "('w, 'x) mnist_host \<Rightarrow> environ \<Rightarrow> mnist_args \<Rightarrow> ('x \<times> nat) list \<Rightarrow> ('x \<times> nat) list \<Rightarrow> ('w mnist_process, unit) py" where
  "mnist_program H env args train_set test_set =
     py_bind (py_lift (mnist_world_size env)) (\<lambda>world_size.
     py_seq (if log_path args = [] then py_return () else py_modify (\<lambda>s. s\<lparr>log_file := Some (log_path args)\<rparr>))
     (let use_cuda = \<not> no_cuda args \<and> cuda_available H in
     py_seq (if should_distribute H world_size
             then py_seq (py_lift (join_group H (backend args))) (py_modify (\<lambda>s. s\<lparr>joined := Some (backend args)\<rparr>))
             else py_return ())
    (py_bind (py_lift (shuffled_loader H (batch_size args) train_set)) (\<lambda>train_loader.
     py_bind (py_lift (sequential_loader H (test_batch_size args) test_set)) (\<lambda>test_loader.
     py_seq (in_images (py_modify (\<lambda>i. i\<lparr>weights := new_net H (seed args)\<rparr>)))
    (py_seq (wrap_model H use_cuda)
    (py_seq (in_images (mnist_main (network H (learning_rate args) (momentum args)) (log_interval args) train_loader
               (length train_set) test_loader (length test_set) (epochs args)))
            (if save_model args then py_modify (\<lambda>s. s\<lparr>model_file := Some (weights (image_state s))\<rparr>)
             else py_return ()))))))))"

text \<open>The number of batches of size \<open>b\<close> that \<open>n\<close> elements fill, the last one perhaps in part.\<close>

definition batch_count :: "nat \<Rightarrow> nat \<Rightarrow> nat" where
  "batch_count n b = (n + b - 1) div b"

definition loaders_documented :: "('w, 'x) mnist_host \<Rightarrow> bool" where
  "loaders_documented H \<longleftrightarrow> (\<forall>b data. data \<noteq> [] \<longrightarrow>
     (if b \<le> 0 then shuffled_loader H b data = Inl ValueError \<and> sequential_loader H b data = Inl ValueError
      else (\<exists>f. shuffled_loader H b data = Inr f \<and>
              (\<forall>e. mset (concat (f e)) = mset data \<and> length (f e) = batch_count (length data) (nat b))) \<and>
           (\<exists>bs. sequential_loader H b data = Inr bs \<and> concat bs = data)))"

section \<open>The deployment test\<close>

text \<open>
  The group a process has joined: its size and the rank of the process.  The sampler yields the indices
  of one process in an epoch, the loader cuts its list into batches.
\<close>

record ('w, 'x) deployment_host =
  connect :: "string \<Rightarrow> int \<Rightarrow> int \<Rightarrow> unit result"
  sampler :: "nat \<Rightarrow> int \<Rightarrow> int \<Rightarrow> nat \<Rightarrow> nat list"
  loader :: "nat \<Rightarrow> ('x \<times> nat) list \<Rightarrow> ('x \<times> nat) list list"
  deployed_net :: 'w
  deployed_ops :: "('w, 'x) image_ops"

record 'w deployment_process =
  deployed_state :: "'w image_run"
  process_group :: "(int \<times> int) option"
  deployed_file :: "'w option"

definition deployment_init :: "'w \<Rightarrow> 'w deployment_process" where
  "deployment_init w = \<lparr>deployed_state = \<lparr>weights = w, updates = 0, logs = []\<rparr>, process_group = None, deployed_file = None\<rparr>"

definition init_process_group ::
  "('w, 'x) deployment_host \<Rightarrow> string \<Rightarrow> int \<Rightarrow> int \<Rightarrow> ('w deployment_process, unit) py" where
  "init_process_group H url world_size rank =
     py_seq (py_lift (connect H url world_size rank)) (py_modify (\<lambda>s. s\<lparr>process_group := Some (world_size, rank)\<rparr>))"

definition init_distributed :: "('w, 'x) deployment_host \<Rightarrow> environ \<Rightarrow> ('w deployment_process, unit) py" where
  "init_distributed H env =
     py_bind (py_lift (environ_int env ''RANK'')) (\<lambda>rank.
     py_bind (py_lift (environ_int env ''WORLD_SIZE'')) (\<lambda>world_size.
     py_bind (py_lift (environ_index env ''MASTER_ADDR'')) (\<lambda>master_addr.
     py_bind (py_lift (environ_index env ''MASTER_PORT'')) (\<lambda>master_port.
       init_process_group H (''tcp://'' @ master_addr @ '':'' @ master_port) world_size rank))))"

text \<open>\<open>dist.get_rank()\<close> and \<open>dist.get_world_size()\<close>.\<close>

definition get_group :: "('w deployment_process, int \<times> int) py" where
  "get_group s = (case process_group s of None \<Rightarrow> (Raise ValueError, s) | Some g \<Rightarrow> (Return g, s))"

definition deployment_batches ::
  "('w, 'x) deployment_host \<Rightarrow> int \<Rightarrow> int \<Rightarrow> ('x \<times> nat) list \<Rightarrow> nat \<Rightarrow> ('x \<times> nat) list list" where
  "deployment_batches H world_size rank dataset epoch =
     loader H 64 (map ((!) dataset) (sampler H epoch world_size rank (length dataset)))"

definition deployment_main ::
  "('w, 'x) deployment_host \<Rightarrow> environ \<Rightarrow> ('x \<times> nat) list \<Rightarrow> ('w deployment_process, unit) py" where
  "deployment_main H env dataset =
     py_seq (init_distributed H env)
    (py_bind get_group (\<lambda>(world_size, rank).
     py_seq (py_modify (\<lambda>s. s\<lparr>deployed_state := (deployed_state s)\<lparr>weights := deployed_net H\<rparr>\<rparr>))
    (py_seq (\<lambda>s. case deployment_epochs (deployed_ops H) (length dataset) (deployment_batches H world_size rank dataset)
                        (deployed_state s) of
                  (r, i) \<Rightarrow> (r, s\<lparr>deployed_state := i\<rparr>))
            (if rank = 0 then py_modify (\<lambda>s. s\<lparr>deployed_file := Some (weights (deployed_state s))\<rparr>)
             else py_return ()))))"

text \<open>
  A distributed sampler pads the indices, shuffled alike in every process, to a multiple of the number of
  processes and gives each every \<open>world\<close>-th index.
\<close>

definition sampler_documented :: "('w, 'x) deployment_host \<Rightarrow> bool" where
  "sampler_documented H \<longleftrightarrow>
     (\<forall>e world n. 0 < world \<longrightarrow> 0 < n \<longrightarrow> (\<exists>padded. length padded = world * batch_count n world \<and> set padded = {..<n} \<and>
        (\<forall>rank < world. sampler H e (int world) (int rank) n =
           map (\<lambda>k. padded ! (rank + k * world)) [0..<batch_count n world]))) \<and>
     (\<forall>b data. 0 < b \<longrightarrow> concat (loader H b data) = data \<and> length (loader H b data) = batch_count (length data) b)"

section \<open>The epochs of the classifier\<close>

lemma trained_total:
  assumes "\<And>b w. \<exists>w'. update M b w = Inr w'"
  shows "\<exists>v. trained M bs w = Inr v"
proof (induction bs arbitrary: w)
  case (Cons b bs)
  obtain w' where "update M b w = Inr w'" using assms by blast
  with Cons.IH [of w'] show ?case by simp
qed simp

lemma length_epoch_accuracies [simp]: "length (epoch_accuracies M score loss f data w es) = length es"
  by (induction es arbitrary: w) (simp_all add: Let_def)

lemma length_concat_same: "\<forall>e. length (f e) = k \<Longrightarrow> length (concat (map f es)) = length es * k"
  by (induction es) simp_all

lemma mnist_main_counts:
  assumes "\<And>w. rowwise M w (score w) loss" "\<And>b w. \<exists>w'. update M b w = Inr w'" "k \<noteq> 0" "concat tests \<noteq> []"
    and "\<forall>e. length (f e) = c"
  shows "\<exists>t. mnist_main M k f n_data tests (length (concat tests)) n s = (Return (), t) \<and>
     updates t = updates s + nat n * c \<and> length (accuracies (logs t)) = length (accuracies (logs s)) + nat n"
proof -
  let ?es = "[1..<nat (n + 1)]"
  obtain w where w: "trained M (concat (map f ?es)) (weights s) = Inr w"
    using trained_total [of M, OF assms(2)] by blast
  have "length ?es = nat n" by simp
  with epochs_run [where M = M and es = ?es and n_data = n_data, OF assms(1,3,4) w]
  show ?thesis unfolding mnist_main_def by (auto simp: length_concat_same [OF assms(5)] simp del: length_concat)
qed

lemma in_images_apply [py_simps]:
  "m (image_state s) = (r, i) \<Longrightarrow> in_images m s = (r, s\<lparr>image_state := i\<rparr>)"
  by (simp add: in_images_def)

section \<open>The shards of the deployment test\<close>

lemma batch_count_cover: "0 < w \<Longrightarrow> i < w * batch_count n w \<longleftrightarrow> i div w < batch_count n w"
  by (simp add: div_less_iff_less_mult mult.commute)

text \<open>Taking every \<open>w\<close>-th element from each of the first \<open>w\<close> positions takes every element.\<close>

lemma strides_cover:
  assumes "0 < w" "length xs = w * m"
  shows "(\<Union>r < w. set (map (\<lambda>k. xs ! (r + k * w)) [0..<m])) = set xs"
proof (intro equalityI subsetI)
  fix x assume "x \<in> (\<Union>r < w. set (map (\<lambda>k. xs ! (r + k * w)) [0..<m]))"
  then obtain r k where rk: "r < w" "k < m" "x = xs ! (r + k * w)" by auto
  have "r + k * w < w + k * w" using rk(1) by simp
  also have "\<dots> \<le> w * m" using rk(2) by (metis Suc_leI mult.commute mult_Suc mult_le_mono2)
  finally show "x \<in> set xs" using rk(3) assms(2) by (metis nth_mem)
next
  fix x assume "x \<in> set xs"
  then obtain i where i: "i < w * m" "x = xs ! i" using assms(2) by (auto simp: in_set_conv_nth)
  have "i div w < m" using i(1) assms(1) by (simp add: div_less_iff_less_mult mult.commute)
  moreover have "i mod w < w" using assms(1) by simp
  moreover have "x = xs ! (i mod w + i div w * w)" using i(2) by simp
  ultimately show "x \<in> (\<Union>r < w. set (map (\<lambda>k. xs ! (r + k * w)) [0..<m]))" by force
qed

lemma deployment_shards:
  assumes "sampler_documented H" "0 < world" "dataset \<noteq> []"
  shows "(\<Union>r < world. set (concat (deployment_batches H (int world) (int r) dataset e))) = set dataset"
    and "r < world \<Longrightarrow> length (deployment_batches H (int world) (int r) dataset e) =
      batch_count (batch_count (length dataset) world) 64"
proof -
  let ?n = "length dataset"
  obtain padded where padded: "length padded = world * batch_count ?n world" "set padded = {..<?n}"
    "\<And>rank. rank < world \<Longrightarrow> sampler H e (int world) (int rank) ?n =
       map (\<lambda>k. padded ! (rank + k * world)) [0..<batch_count ?n world]"
    using assms unfolding sampler_documented_def by (metis length_greater_0_conv)
  have load: "concat (loader H 64 data) = data" "length (loader H 64 data) = batch_count (length data) 64" for data
    using assms(1) by (simp_all add: sampler_documented_def)
  have "(\<Union>r < world. set (concat (deployment_batches H (int world) (int r) dataset e))) =
      (!) dataset ` (\<Union>r < world. set (map (\<lambda>k. padded ! (r + k * world)) [0..<batch_count ?n world]))"
    unfolding deployment_batches_def load using padded(3) by auto
  also have "\<dots> = (!) dataset ` {..<?n}"
    using strides_cover [OF assms(2) padded(1)] padded(2) by simp
  also have "\<dots> = set dataset" by (auto simp: set_conv_nth)
  finally show "(\<Union>r < world. set (concat (deployment_batches H (int world) (int r) dataset e))) = set dataset" .
  show "length (deployment_batches H (int world) (int r) dataset e) =
      batch_count (batch_count (length dataset) world) 64" if "r < world"
    using padded(3) [OF that] by (simp add: deployment_batches_def load(2))
qed

lemma deployment_epochs_run:
  assumes "\<And>b w. \<exists>w'. update M b w = Inr w'"
  shows "\<exists>t. deployment_epochs M n f s = (Return (), t) \<and> updates t = updates s + length (f 1) + length (f 2)"
proof -
  obtain v where v: "trained M (f 1) (weights s) = Inr v" using trained_total [of M, OF assms] by blast
  obtain u where u: "trained M (f 2) v = Inr u" using trained_total [of M, OF assms] by blast
  let ?s = "s\<lparr>weights := v, updates := updates s + length (f 1), logs := logs s @ progress_logs 10 n 1 0 (f 1)\<rparr>"
  have "deployment_train M n 1 (f 1) s = (Return (), ?s)"
    unfolding deployment_train_def by (rule mnist_train_runs [OF v]) simp
  moreover have "deployment_train M n 2 (f 2) ?s = (Return (), ?s\<lparr>weights := u, updates := updates ?s + length (f 2),
      logs := logs ?s @ progress_logs 10 n 2 0 (f 2)\<rparr>)"
    unfolding deployment_train_def by (rule mnist_train_runs) (simp_all add: u)
  ultimately show ?thesis by (simp add: deployment_epochs_def py_simps)
qed

section \<open>Concrete libraries\<close>

text \<open>A loader that fills its batches from the front, and a sampler that repeats the first indices as padding.\<close>

fun chunks :: "nat \<Rightarrow> 'a list \<Rightarrow> 'a list list" where
  "chunks b [] = []"
| "chunks b (x # xs) = (if b = 0 then [] else take b (x # xs) # chunks b (drop b (x # xs)))"

lemma concat_chunks: "0 < b \<Longrightarrow> concat (chunks b xs) = xs"
  by (induction b xs rule: chunks.induct) simp_all

lemma batch_count_step: "0 < b \<Longrightarrow> b < n \<Longrightarrow> batch_count n b = Suc (batch_count (n - b) b)"
proof -
  assume "0 < b" "b < n"
  have "n + b - 1 = (n - b + b - 1) + b" using \<open>0 < b\<close> \<open>b < n\<close> by linarith
  also have "\<dots> div b = Suc ((n - b + b - 1) div b)" by (rule div_add_self2 [OF \<open>0 < b\<close> [THEN gr_implies_not0], THEN trans]) simp
  finally show ?thesis unfolding batch_count_def .
qed

lemma batch_count_small: "0 < n \<Longrightarrow> n \<le> b \<Longrightarrow> batch_count n b = 1"
proof -
  assume "0 < n" "n \<le> b"
  then have "(n + b - 1) div b = 1" by (intro div_nat_eqI) simp_all
  then show ?thesis by (simp add: batch_count_def)
qed

lemma length_chunks: "0 < b \<Longrightarrow> length (chunks b xs) = batch_count (length xs) b"
proof (induction b xs rule: chunks.induct)
  case (1 b)
  then show ?case by (simp add: batch_count_def)
next
  case (2 b x xs)
  show ?case
  proof (cases "b < length (x # xs)")
    case True
    with 2 batch_count_step [OF 2(2) True] show ?thesis by simp
  next
    case False
    then have "drop b (x # xs) = []" by simp
    with 2(2) False batch_count_small [of "length (x # xs)" b] show ?thesis by simp
  qed
qed

lemma batch_count_enough:
  assumes "0 < b"
  shows "n \<le> b * batch_count n b"
proof -
  have "n + b - 1 = b * ((n + b - 1) div b) + (n + b - 1) mod b" by simp
  moreover have "(n + b - 1) mod b < b" using assms by simp
  ultimately show ?thesis unfolding batch_count_def by linarith
qed

definition sample_host :: "(nat, nat) mnist_host" where
  "sample_host = \<lparr>dist_available = True, cuda_available = False, cpu_wrapper = False, join_group = (\<lambda>_. Inr ()),
     shuffled_loader = (\<lambda>b data. if b \<le> 0 then Inl ValueError else Inr (\<lambda>e. chunks (nat b) data)),
     sequential_loader = (\<lambda>b data. if b \<le> 0 then Inl ValueError else Inr (chunks (nat b) data)),
     new_net = nat, network = (\<lambda>_ _. sample_images)\<rparr>"

lemma sample_loaders: "loaders_documented sample_host"
  by (auto simp: loaders_documented_def sample_host_def concat_chunks length_chunks)

definition sample_deployment :: "(nat, nat) deployment_host" where
  "sample_deployment = \<lparr>connect = (\<lambda>_ _ _. Inr ()),
     sampler = (\<lambda>e w r n. map (\<lambda>k. (nat r + k * nat w) mod n) [0..<batch_count n (nat w)]),
     loader = chunks, deployed_net = 0, deployed_ops = sample_images\<rparr>"

lemma sample_sampler: "sampler_documented sample_deployment"
  unfolding sampler_documented_def
proof (intro conjI allI impI)
  fix e world n :: nat assume pos: "0 < world" "0 < n"
  let ?padded = "map (\<lambda>i. i mod n) [0..<world * batch_count n world]"
  have "set ?padded = {..<n}"
  proof (intro equalityI subsetI)
    fix i assume "i \<in> {..<n}"
    then have "i < n" "i < world * batch_count n world" using batch_count_enough [OF pos(1), of n] by auto
    then show "i \<in> set ?padded" unfolding set_map set_upt by (intro image_eqI [of _ _ i]) simp_all
  qed (use pos in auto)
  moreover have "sampler sample_deployment e (int world) (int rank) n =
      map (\<lambda>k. ?padded ! (rank + k * world)) [0..<batch_count n world]" if "rank < world" for rank
  proof -
    have "rank + k * world < world * batch_count n world" if "k < batch_count n world" for k
    proof -
      have "rank + k * world < world + k * world" using \<open>rank < world\<close> by simp
      also have "\<dots> \<le> world * batch_count n world" using that by (metis Suc_leI mult.commute mult_Suc mult_le_mono2)
      finally show ?thesis .
    qed
    then show ?thesis by (simp add: sample_deployment_def)
  qed
  ultimately show "\<exists>padded. length padded = world * batch_count n world \<and> set padded = {..<n} \<and>
      (\<forall>rank < world. sampler sample_deployment e (int world) (int rank) n =
         map (\<lambda>k. padded ! (rank + k * world)) [0..<batch_count n world])"
    by (intro exI [of _ ?padded]) simp
qed (simp_all add: sample_deployment_def concat_chunks length_chunks)

section \<open>Properties\<close>

text \<open>C32: \<open>mnist.py\<close> from its arguments to its end, with data, loaders and operations that do not fail: in a
  world of several processes without CUDA it raises AttributeError before any update when PyTorch has no
  \<open>DistributedDataParallelCPU\<close>; otherwise it makes one update per started batch and epoch, reports once per
  epoch, joins a group and wraps the model exactly when there are several processes, and saves on request.\<close>

theorem mnist_program_outcome:
  fixes H :: "('w, 'x) mnist_host" and args :: mnist_args
  defines "M \<equiv> network H (learning_rate args) (momentum args)"
    and "several \<equiv> \<lambda>n. dist_available H \<and> 1 < (n :: int)"
  assumes "loaders_documented H" "train_set \<noteq> []" "test_set \<noteq> []" "0 < batch_size args" "0 < test_batch_size args"
    and "log_interval args \<noteq> 0" "mnist_world_size env = Inr n" "join_group H (backend args) = Inr ()"
    and "\<And>w. rowwise M w (score w) loss" "\<And>b w. \<exists>w'. update M b w = Inr w'"
  shows "\<exists>r t. mnist_program H env args train_set test_set (mnist_process_init w) = (r, t) \<and>
     (if several n \<and> \<not> (\<not> no_cuda args \<and> cuda_available H) \<and> \<not> cpu_wrapper H
      then r = Raise (AttributeError ''DistributedDataParallelCPU'') \<and> updates (image_state t) = 0 \<and> model_file t = None
      else r = Return () \<and>
        updates (image_state t) = nat (epochs args) * batch_count (length train_set) (nat (batch_size args)) \<and>
        length (accuracies (logs (image_state t))) = nat (epochs args) \<and>
        joined t = (if several n then Some (backend args) else None) \<and> parallel t = several n \<and>
        model_file t = (if save_model args then Some (weights (image_state t)) else None))"
proof -
  obtain f where f: "shuffled_loader H (batch_size args) train_set = Inr f"
    "\<forall>e. length (f e) = batch_count (length train_set) (nat (batch_size args))"
    using assms(3) [unfolded loaders_documented_def, rule_format, OF assms(4), of "batch_size args"] assms(6) by auto
  obtain bs where bs: "sequential_loader H (test_batch_size args) test_set = Inr bs" "concat bs = test_set"
    using assms(3) [unfolded loaders_documented_def, rule_format, OF assms(5), of "test_batch_size args"] assms(7) by auto
  let ?log = "if log_path args = [] then None else Some (log_path args)"
  let ?joined = "if several n then Some (backend args) else None"
  let ?i = "\<lparr>weights = new_net H (seed args), updates = 0, logs = []\<rparr>"
  let ?s = "\<lparr>image_state = ?i, joined = ?joined, parallel = False, log_file = ?log, model_file = None\<rparr>"
  have "concat bs \<noteq> []" using bs(2) assms(5) by simp
  from mnist_main_counts [of M score loss "log_interval args" bs f _ "length train_set" "epochs args" ?i,
      OF assms(11) assms(12) assms(8) this f(2)]
  obtain t where t: "mnist_main M (log_interval args) f (length train_set) bs (length test_set) (epochs args) ?i = (Return (), t)"
    "updates t = nat (epochs args) * batch_count (length train_set) (nat (batch_size args))"
    "length (accuracies (logs t)) = nat (epochs args)"
    using bs(2) by (auto simp: M_def)
  let ?cuda = "\<not> no_cuda args \<and> cuda_available H"
  let ?rest = "\<lambda>use_cuda. py_seq (wrap_model H use_cuda)
    (py_seq (in_images (mnist_main M (log_interval args) f (length train_set) bs (length test_set) (epochs args)))
            (if save_model args then py_modify (\<lambda>s. s\<lparr>model_file := Some (weights (image_state s))\<rparr>)
             else py_return ()))"
  have start: "mnist_program H env args train_set test_set (mnist_process_init w) = ?rest ?cuda ?s"
    using assms(9,10) f(1) bs(1)
    by (simp add: mnist_program_def py_simps mnist_process_init_def should_distribute_def several_def M_def Let_def)
  show ?thesis
  proof (cases "several n \<and> \<not> ?cuda \<and> \<not> cpu_wrapper H")
    case True
    then have "?rest ?cuda ?s = (Raise (AttributeError ''DistributedDataParallelCPU''), ?s)"
      by (auto simp: wrap_model_def py_simps is_distributed_def several_def)
    with True show ?thesis unfolding start by simp
  next
    case False
    then have wrap: "wrap_model H ?cuda ?s = (Return (), ?s\<lparr>parallel := several n\<rparr>)"
      by (auto simp: wrap_model_def py_simps is_distributed_def several_def)
    have "?rest ?cuda ?s = (Return (), ?s\<lparr>image_state := t, parallel := several n,
        model_file := if save_model args then Some (weights t) else None\<rparr>)"
      using t(1) wrap by (simp add: py_simps)
    with False t show ?thesis unfolding start by simp
  qed
qed

theorem mnist_program_outcome_witness:
  "\<exists>r t. mnist_program sample_host [(''WORLD_SIZE'', ''2'')] default_args [(0, 0), (1, 1)] [(1, 1)] (mnist_process_init 0)
      = (Raise (AttributeError ''DistributedDataParallelCPU''), t) \<and>
     mnist_program sample_host [] default_args [(0, 0), (1, 1)] [(1, 1)] (mnist_process_init 0) = (Return (), r) \<and>
     updates (image_state r) = 10"
proof -
  have rows: "rowwise (network sample_host x y) w (\<lambda>x. [of_nat x, of_nat w]) (\<lambda>row t. row ! 0 - of_nat t)"
    and steps: "\<exists>w'. update (network sample_host x y) b w = Inr w'" for x y b w
    using sample_rowwise sample_update by (simp_all add: sample_host_def)
  have world: "mnist_world_size [(''WORLD_SIZE'', ''2'')] = Inr 2" "mnist_world_size [] = Inr 1"
    by (simp_all add: mnist_world_size_def int_of_str_def strip_def is_space_def digit_val_def)
  have args: "0 < batch_size default_args" "0 < test_batch_size default_args" "log_interval default_args \<noteq> 0"
    "nat (epochs default_args) = 10" "batch_count (Suc (Suc 0)) (nat (batch_size default_args)) = 1"
    by (simp_all add: default_args_def batch_count_def)
  have data: "[(0, 0), (1, 1)] \<noteq> ([] :: (nat \<times> nat) list)" "[(1, 1)] \<noteq> ([] :: (nat \<times> nat) list)" by simp_all
  have join: "join_group sample_host b = Inr ()" for b by (simp add: sample_host_def)
  note run = mnist_program_outcome [OF sample_loaders data args(1-3) _ join rows steps, of _ _ 0]
  from run [OF world(1)] obtain t where
    "mnist_program sample_host [(''WORLD_SIZE'', ''2'')] default_args [(0, 0), (1, 1)] [(1, 1)] (mnist_process_init 0)
      = (Raise (AttributeError ''DistributedDataParallelCPU''), t)"
    by (auto simp: sample_host_def split: if_splits)
  moreover from run [OF world(2)] args(4,5) obtain r where
    "mnist_program sample_host [] default_args [(0, 0), (1, 1)] [(1, 1)] (mnist_process_init 0) = (Return (), r)"
    "updates (image_state r) = 10" by auto
  ultimately show ?thesis by blast
qed

text \<open>C33: In a deployment test with \<open>world\<close> processes every process makes the same number of updates, two epochs of
  its share of the data, so no process waits for a gradient that never comes; together the processes see
  every image in every epoch; and exactly the process with rank zero saves the model.\<close>

theorem deployment_ranks_agree:
  assumes "sampler_documented H" "0 < world" "dataset \<noteq> []" "r < world"
    and "environ_int env ''RANK'' = Inr (int r)" "environ_int env ''WORLD_SIZE'' = Inr (int world)"
    and "environ_index env ''MASTER_ADDR'' = Inr addr" "environ_index env ''MASTER_PORT'' = Inr port"
    and "connect H (''tcp://'' @ addr @ '':'' @ port) (int world) (int r) = Inr ()"
    and "\<And>b w. \<exists>w'. update (deployed_ops H) b w = Inr w'"
  shows "\<exists>t. deployment_main H env dataset (deployment_init w) = (Return (), t) \<and>
     updates (deployed_state t) = 2 * batch_count (batch_count (length dataset) world) 64 \<and>
     (deployed_file t \<noteq> None \<longleftrightarrow> r = 0) \<and>
     (\<forall>e. (\<Union>r < world. set (concat (deployment_batches H (int world) (int r) dataset e))) = set dataset)"
proof -
  let ?i = "\<lparr>weights = deployed_net H, updates = 0, logs = []\<rparr>"
  obtain t where t: "deployment_epochs (deployed_ops H) (length dataset) (deployment_batches H (int world) (int r) dataset) ?i
      = (Return (), t)" "updates t = length (deployment_batches H (int world) (int r) dataset 1) +
        length (deployment_batches H (int world) (int r) dataset 2)"
    using deployment_epochs_run [where M = "deployed_ops H" and s = ?i, OF assms(10)] by fastforce
  have "deployment_main H env dataset (deployment_init w) = (Return (), \<lparr>deployed_state = t,
      process_group = Some (int world, int r), deployed_file = if r = 0 then Some (weights t) else None\<rparr>)"
    using assms(5-9) t(1)
    by (simp add: deployment_main_def init_distributed_def init_process_group_def get_group_def deployment_init_def py_simps)
  with t(2) deployment_shards [OF assms(1-3)] assms(4) show ?thesis by simp
qed

theorem deployment_ranks_agree_witness:
  "\<exists>t. deployment_main sample_deployment [(''RANK'', ''1''), (''WORLD_SIZE'', ''2''), (''MASTER_ADDR'', ''m''), (''MASTER_PORT'', ''1'')]
      [(0, 0), (1, 1), (2, 0)] (deployment_init 0) = (Return (), t) \<and> updates (deployed_state t) = 2 \<and> deployed_file t = None"
proof -
  let ?env = "[(''RANK'', ''1''), (''WORLD_SIZE'', ''2''), (''MASTER_ADDR'', ''m''), (''MASTER_PORT'', ''1'')]"
  have env: "environ_int ?env ''RANK'' = Inr (int 1)" "environ_int ?env ''WORLD_SIZE'' = Inr (int 2)"
    "environ_index ?env ''MASTER_ADDR'' = Inr ''m''" "environ_index ?env ''MASTER_PORT'' = Inr ''1''"
    by (simp_all add: environ_int_def environ_index_def int_of_str_def strip_def is_space_def digit_val_def)
  have host: "connect sample_deployment u a b = Inr ()" "\<exists>w'. update (deployed_ops sample_deployment) bt w = Inr w'" for u a b bt w
    using sample_update by (simp_all add: sample_deployment_def)
  have sizes: "(0 :: nat) < 2" "[(0, 0), (1, 1), (2, 0)] \<noteq> ([] :: (nat \<times> nat) list)" "(1 :: nat) < 2" by simp_all
  from deployment_ranks_agree [OF sample_sampler sizes env host(1) host(2), of 0] show ?thesis
    by (auto simp: batch_count_def)
qed

end
