(* ===== verification/Job_Checks.thy ===== *)
theory Job_Checks
  imports C4D_Prelude
begin

text \<open>
  Two small programs that are run to try out a deployment: \<open>compute-engine/user_code/test.py\<close>, a job that
  prints its variables and a message per second until it fails, and \<open>workspace/check_connectivity.py\<close>,
  which asks whether the master can be reached.  The state is the lines printed.
\<close>

section \<open>The failing job\<close>

definition hello :: string where
  "hello = ''Hello, this message appears every second!''"

definition print_line :: "string \<Rightarrow> (string list, unit) py" where
  "print_line l = py_modify (\<lambda>out. out @ [l])"

definition print_variable :: "environ \<Rightarrow> string \<Rightarrow> (string list, unit) py" where
  "print_variable env k = py_bind (py_lift (environ_index env k)) print_line"

function smoke_loop :: "json \<Rightarrow> int \<Rightarrow> string list \<Rightarrow> unit outcome \<times> string list" where
  "smoke_loop stf cnt out =
     (let out' = out @ [hello]; cnt' = cnt + 1
      in case py_int stf of
           Inl e \<Rightarrow> (Raise e, out')
         | Inr n \<Rightarrow> if cnt' > n then (Raise PlainException, out') else smoke_loop stf cnt' out')"
  by pat_completeness auto

termination
  by (relation "measure (\<lambda>(stf, cnt, out). case py_int stf of Inl e \<Rightarrow> 0 | Inr n \<Rightarrow> nat (n - cnt))") auto

declare smoke_loop.simps [simp del]

definition smoke_test :: "environ \<Rightarrow> (string list, unit) py" where
  "smoke_test env =
     py_seq (print_variable env ''RANK'')
    (py_seq (print_variable env ''WORLD_SIZE'')
    (py_seq (print_variable env ''MASTER_ADDR'')
    (py_seq (print_variable env ''MASTER_PORT'')
            (smoke_loop (case dict_get env ''STF'' of None \<Rightarrow> JInt 10 | Some s \<Rightarrow> JStr s) 0))))"

section \<open>The connectivity check\<close>

text \<open>The exit code of \<open>ping\<close>, and the error number of a connection attempt; both may raise.\<close>

record net_host =
  ping :: "string \<Rightarrow> int result"
  connect_ex :: "string \<Rightarrow> int \<Rightarrow> int result"

definition check_port :: "net_host \<Rightarrow> string \<Rightarrow> int \<Rightarrow> bool result" where
  "check_port net ip port = res_bind (connect_ex net ip port) (\<lambda>r. Inr (r = 0))"

definition connectivity_main :: "net_host \<Rightarrow> (string list, unit) py" where
  "connectivity_main net =
     (let master_ip = ''master''; port = 29500 in
      py_bind (py_lift (ping net master_ip)) (\<lambda>code.
      py_seq (print_line (''Ping test to '' @ master_ip @ '': '' @ (if code = 0 then ''Success'' else ''Failed'')))
     (py_bind (py_lift (check_port net master_ip port)) (\<lambda>accessible.
        print_line (''Port '' @ str_of_int port @ '' on '' @ master_ip @ '' is '' @ (if accessible then ''open'' else ''closed''))))))"

text \<open>A name that cannot be resolved makes the attempt raise: the line on the port is then missing.\<close>

lemma connectivity_unresolved:
  assumes "ping net ''master'' = Inr code" "connect_ex net ''master'' 29500 = Inl e"
  shows "connectivity_main net out =
     (Raise e, out @ [''Ping test to master: '' @ (if code = 0 then ''Success'' else ''Failed'')])"
  using assms by (simp add: connectivity_main_def check_port_def print_line_def py_simps)

lemma connectivity_report:
  assumes "ping net ''master'' = Inr code" "connect_ex net ''master'' 29500 = Inr errno"
  shows "connectivity_main net out =
     (Return (), out @ [''Ping test to master: '' @ (if code = 0 then ''Success'' else ''Failed''),
        ''Port '' @ str_of_int 29500 @ '' on master is '' @ (if errno = 0 then ''open'' else ''closed'')])"
  using assms by (simp add: connectivity_main_def check_port_def print_line_def py_simps)

section \<open>How the job ends\<close>

lemma smoke_loop_number:
  assumes "py_int stf = Inr n"
  shows "smoke_loop stf cnt out = (Raise PlainException, out @ replicate (nat (max 1 (n + 1 - cnt))) hello)"
  using assms
proof (induction stf cnt out rule: smoke_loop.induct)
  case (1 stf cnt out)
  show ?case
  proof (cases "cnt + 1 > n")
    case True
    then have "nat (max 1 (n + 1 - cnt)) = 1" by simp
    then show ?thesis using True by (simp add: smoke_loop.simps [of stf cnt] 1(2))
  next
    case False
    then have "nat (max 1 (n + 1 - cnt)) = Suc (nat (max 1 (n + 1 - (cnt + 1))))" by simp
    then show ?thesis
      using False 1(1) [OF refl refl 1(2)] by (simp add: smoke_loop.simps [of stf cnt] 1(2))
  qed
qed

lemma smoke_loop_text: "py_int stf = Inl e \<Longrightarrow> smoke_loop stf cnt out = (Raise e, out @ [hello])"
  by (simp add: smoke_loop.simps)

lemma smoke_loop_raises: "\<exists>e msgs. smoke_loop stf cnt out = (Raise e, out @ msgs)"
  by (cases "py_int stf") (auto simp: smoke_loop_number smoke_loop_text)

lemma print_variable_cases:
  "print_variable env k out =
     (case dict_get env k of None \<Rightarrow> (Raise (KeyError k), out) | Some v \<Rightarrow> (Return (), out @ [v]))"
  by (simp add: print_variable_def environ_index_def print_line_def py_simps split: option.splits)

lemma print_then_raises:
  assumes "\<And>out. \<exists>e lines. m out = (Raise e, lines)"
  shows "\<exists>e lines. py_seq (print_variable env k) m out = (Raise e, lines)"
proof (cases "dict_get env k")
  case (Some v)
  then show ?thesis using assms [of "out @ [v]"] by (simp add: py_simps print_variable_cases)
qed (simp add: py_simps print_variable_cases)

text \<open>The trial job always fails and never hangs or returns: a missing variable ends it with a key error before
  any message; otherwise it prints the four variables and then one message more than \<open>STF\<close> says, at least
  one, eleven by default; text in \<open>STF\<close> is noticed only after the first message.\<close>

theorem trial_job_fails:
  "(\<exists>e lines. smoke_test env [] = (Raise e, lines)) \<and>
   (\<forall>r w a p. dict_get env ''RANK'' = Some r \<longrightarrow> dict_get env ''WORLD_SIZE'' = Some w \<longrightarrow>
      dict_get env ''MASTER_ADDR'' = Some a \<longrightarrow> dict_get env ''MASTER_PORT'' = Some p \<longrightarrow>
      smoke_test env [] = (case dict_get env ''STF'' of
          None \<Rightarrow> (Raise PlainException, [r, w, a, p] @ replicate 11 hello)
        | Some s \<Rightarrow> (case py_int (JStr s) of
              Inl e \<Rightarrow> (Raise e, [r, w, a, p, hello])
            | Inr n \<Rightarrow> (Raise PlainException, [r, w, a, p] @ replicate (nat (max 1 (n + 1))) hello)))) \<and>
   (\<forall>before k after. [''RANK'', ''WORLD_SIZE'', ''MASTER_ADDR'', ''MASTER_PORT''] = before @ k # after \<longrightarrow>
      (\<forall>b \<in> set before. dict_get env b \<noteq> None) \<longrightarrow> dict_get env k = None \<longrightarrow>
      smoke_test env [] = (Raise (KeyError k), map (\<lambda>b. the (dict_get env b)) before))"
proof (intro conjI allI impI)
  show "\<exists>e lines. smoke_test env [] = (Raise e, lines)"
    unfolding smoke_test_def using smoke_loop_raises by (intro print_then_raises) blast
next
  fix r w a p
  assume "dict_get env ''RANK'' = Some r" "dict_get env ''WORLD_SIZE'' = Some w"
    "dict_get env ''MASTER_ADDR'' = Some a" "dict_get env ''MASTER_PORT'' = Some p"
  then show "smoke_test env [] = (case dict_get env ''STF'' of
          None \<Rightarrow> (Raise PlainException, [r, w, a, p] @ replicate 11 hello)
        | Some s \<Rightarrow> (case py_int (JStr s) of
              Inl e \<Rightarrow> (Raise e, [r, w, a, p, hello])
            | Inr n \<Rightarrow> (Raise PlainException, [r, w, a, p] @ replicate (nat (max 1 (n + 1))) hello)))"
    by (simp add: smoke_test_def py_simps print_variable_cases smoke_loop_number smoke_loop_text
        py_int.simps(3) split: option.split sum.split del: py_int.simps(8))
next
  fix before k after
  assume "[''RANK'', ''WORLD_SIZE'', ''MASTER_ADDR'', ''MASTER_PORT''] = before @ k # after"
    and "\<forall>b \<in> set before. dict_get env b \<noteq> None" "dict_get env k = None"
  then show "smoke_test env [] = (Raise (KeyError k), map (\<lambda>b. the (dict_get env b)) before)"
    by (auto simp: Cons_eq_append_conv smoke_test_def py_simps print_variable_cases)
qed

theorem trial_job_fails_witness:
  "smoke_test [(''RANK'', ''0''), (''WORLD_SIZE'', ''2''), (''MASTER_ADDR'', ''m''), (''MASTER_PORT'', ''1''), (''STF'', ''1'')] [] =
     (Raise PlainException, [''0'', ''2'', ''m'', ''1'', hello, hello])"
proof -
  let ?env = "[(''RANK'', ''0''), (''WORLD_SIZE'', ''2''), (''MASTER_ADDR'', ''m''), (''MASTER_PORT'', ''1''), (''STF'', ''1'')]"
  have "py_int (JStr ''1'') = Inr 1" by code_simp
  then show ?thesis
    using trial_job_fails [of ?env] by (simp add: numeral_2_eq_2 del: py_int.simps)
qed

end
