(* ===== verification/Spec2Isabelle.thy ===== *)
theory Spec2Isabelle
  imports Mvcc Td_Threads Offload_Signals Distributed_Training Gpt_Pretrained Training_Model Ccl_Threads Worker_Training
    Image_Mains Job_Checks
begin

text \<open>
  Verification of the Python programs of the C4D project, which detects failures of distributed
  training and recovers from them.

  The programs and how they interact.  On every node a monitoring agent
  (\<open>components/monitor/python_test/main.py\<close>) samples the machine, buffers the communication logs that
  the processes post to it and sends them to the cluster controller.  The training program
  (\<open>components/compute-engine/user_code/train.py\<close> with \<open>model.py\<close>) asks that agent for its rank and
  reports to it through the library \<open>recovery.py\<close>; signals make it reread its environment or restore a
  checkpoint.  It reads the data that \<open>workspace/prepare_shakespeare.py\<close> wrote.  The programs under
  \<open>workspace/\<close> are variants started as workers of a PyTorch job.  A task distributor
  (\<open>components/task-distributor/src/main.py\<close>) assigns tasks to nodes, and a multi-version store
  (\<open>components/mvcc/src/main.py\<close>) keeps documents.

  Theories, their sources, and what their lemmas show.

  \<^item> \<open>C4D_Prelude\<close>: outcomes of a call (return, exception, never), state passing (\<open>py\<close>) with a
    postcondition calculus (\<open>wp\<close>, collection \<open>py_wp\<close>), JSON values, Python's truth, \<open>int()\<close>, \<open>str()\<close>,
    dictionaries in insertion order, slices, and the interfaces \<open>py_mapping\<close>, \<open>py_lock\<close> and
    \<open>request_server\<close>.
  \<^item> \<open>Mvcc\<close>: \<open>MVCCNode\<close> and its views.  Requests refine an append-only log, except that the
    views hide falsy documents; a version never changes.
  \<^item> \<open>Task_Distributor\<close>: the class \<open>TaskDistributor\<close>, its lock and the views, one request at a time.  Every
    sequence of method calls keeps the tables consistent; posting a task deadlocks the server
    for every request that gets past its own checks.
    \<open>Td_Threads\<close>: a thread per request and the polling thread as steps, one critical section each; what
    every interleaving keeps, that no task is ever placed, and how the server stops.
  \<^item> \<open>Monitor_Agent\<close>: the class \<open>Monitor\<close> and the views as functions on its state.  \<open>Agent_Threads\<close>: the
    sending thread as a step relation beside the views; where each buffered log can end up, and when
    the thread dies.  \<open>Ccl_Simulator\<close>: \<open>python_test/test.py\<close>, whose events the agent accepts.
    \<open>Ccl_Threads\<close>: its three threads with their shared clock beside the agent and its sender, which may still
    be in its first request; any request of a thread can fail on its way, and any answer can get lost.
  \<^item> \<open>Recovery\<close>: \<open>recovery.py\<close> over arbitrary answers.  \<open>Agent_Client\<close>: the same library against the routes
    of the agent, and the setup and signal handlers of \<open>train.py\<close> on top.  \<open>Offload_Signals\<close>: an agent and a
    training process on every node; a request to offload, the number the other agent answers with, and
    the signal as one step; which process it reaches, possibly the agent that sends it, and that no series of
    requests restores a training.  Process numbers are those of the agent's namespace, in which the
    training is or, as in a container of its own, is not.
  \<^item> \<open>Char_Dataset\<close>: \<open>prepare_shakespeare.py\<close> and its round trip (locale \<open>codec\<close>).  \<open>Data_Loader\<close>:
    \<open>get_batch\<close>, its cache (locale \<open>memo\<close>), the batches it yields, also from prepared files.
  \<^item> \<open>Lr_Schedule\<close>: the constants and schedules (locale \<open>lr_schedule\<close>).  \<open>Training\<close>: \<open>train.py\<close> from the
    setup to the loop, with PyTorch as a record of operations on a world.  A save opens the file, which empties it, and writes
    it, and both can raise.  \<open>Training_Checkpoints\<close>: what every reachable state of the loop keeps and what
    a failed save leaves, for any action after a save (locale \<open>save_hook\<close>), that the
    loop ends when gradients are numbers and does not when they stay NaN.  \<open>Worker_Training\<close>:
    \<open>workspace/compute\<close>, \<open>train_single.py\<close> and \<open>train_sample.py\<close>, which share the loop's second half.
    \<open>Distributed_Training\<close>: the processes of one job, each the loop of \<open>train.py\<close> cut at the backward pass, where
    all have to meet; that their parameters agree at every point, that they never deadlock unless one
    fails, and that a failure holds up all others.
  \<^item> \<open>Gpt_Params\<close>: the parameters \<open>model.py\<close> creates by name and shape; their count, cropping and
    optimizer groups.  \<open>Gpt_Pretrained\<close>: \<open>from_pretrained\<close> on a store with the shared tensor.
    \<open>Gpt_Init\<close>: from which distribution every initial weight comes.  \<open>Gpt_Model\<close>: the forward pass and
    generation on one sequence; later tokens do not influence earlier positions.  \<open>Training_Model\<close>: the
    settings of the three training programs, the models they build with them, and that batches of prepared
    data fit these models.
  \<^item> \<open>Net_Shapes\<close>: the shapes of the networks in \<open>mnist.py\<close>, \<open>test_deployment/train.py\<close> and
    \<open>train_sample.py\<close>.  \<open>Image_Training\<close>: the loops of the first two.  \<open>Image_Mains\<close>: the programs around
    these loops, from the environment and the arguments to the saved model.  \<open>Job_Checks\<close>:
    \<open>user_code/test.py\<close> and \<open>workspace/check_connectivity.py\<close>.

  State and operations.  An object is a record with the attributes of the class, a method a function of
  type \<open>py\<close> with the code's guards, early returns and exceptions as branches; a dictionary is an
  association list in insertion order; a lock is a field, and acquiring a held one blocks.  A server is
  its handler, run over a list of requests.  Python's integers are \<open>int\<close>; tokens in files are words of
  16 bits and in batches words of 64; floats are rationals with infinities and NaN where the code can
  meet them, and reals in the schedules and the model.  Rounding is left out everywhere.

  Loops.  Loops over lists and ranges are recursive.  The training loop and the simulator's search for
  another rank are \<open>partial_function\<close>s, so that never returning is the value \<open>None\<close>; that they return is
  proved as such, with the number of iterations left as the measure.  The endless loop of the simulator
  is taken for as many rounds as a list has, the threads of the agent, the simulator and the task distributor as
  reachable states of steps; no fuel is used.

  Hypotheses on code outside the repository.  PyTorch, NumPy, \<open>requests\<close>, Flask and the operating
  system are parameters.  What is relied on is named: \<open>tensor_documented\<close> (random indices, stacking),
  \<open>nn_documented\<close> (the tensors a layer creates), \<open>att_documented\<close> (softmax, masked weights, the fused
  attention), \<open>shapes_documented\<close> (the shape each layer makes), \<open>rowwise\<close> (evaluation treats images one by
  one), \<open>operational\<close>, \<open>healthy\<close> and \<open>poisoned\<close> (when the operations of the loop return, and what the gradients are),
  \<open>ddp_documented\<close> (which operations act on the part of the state the processes share, for a model without
  buffers), \<open>ddp_healthy\<close> (the gradients the processes reduce from worlds they can get into are made of
  numbers), \<open>group_documented\<close> (a process joins one process group), \<open>loaders_documented\<close> and \<open>sampler_documented\<close>
  (how data is cut into batches and shared out among processes).  Each has a concrete instance in a witness.

  Not modelled: the cluster controller, the other agent and the failure tools, which are in Go, the
  launcher in Rust, and generated code, as other languages; parsing of command lines, logging texts, the
  creation of directories and sleeping; the effect of dropout, which the settings of the language models
  turn off; the numbers that random initialisation draws, beyond their distributions.

  Granularity.  A step of a training process is the part of an iteration before or after the backward
  pass: between meetings nothing it does is visible to the others, apart from the report to its agent and
  the checkpoint, which only the master writes.  That the processes start with the same parameters, whatever their
  seeds, is what \<open>DistributedDataParallel\<close> does when it wraps the model, and is assumed where it is needed.
  Several requests to offload take effect one after the other.

  What could follow: the cluster controller's answers as a contract for the agent and the training
  program, which needs a model of the Go code.
\<close>

end
